(* ===== verification/Prelude.thy ===== *)
theory Prelude
  imports
    Main
    "HOL-Library.AList"
    "HOL-Library.Char_ord"
    "HOL-Library.List_Lexorder"
    "HOL-Library.Product_Lexorder"
begin

section \<open>Shared vocabulary: operations with exceptions, dictionaries, text, time\<close>

text \<open>
  What every component of the model is written in.

  A method of the program mutates objects and may raise. It is a function from the state to
  an exception or a value, together with the state it leaves behind: a raise does not undo
  the mutations made before it, exactly as in Python. \<open>ok\<close>, \<open>fail\<close>, \<open>bnd\<close>, \<open>gets\<close>, \<open>upd\<close>,
  \<open>require\<close> and \<open>catch\<close> are return, raise, sequencing, attribute reads, attribute writes, a
  guard that raises, and try/except.

  A Python dict keeps insertion order and updates a present key in place: it is an
  association list with \<open>AList.update\<close> and \<open>AList.delete\<close>.

  A string is a list of characters (code points below 256). A datetime is the integer number
  of microseconds of a UTC instant, a timedelta an integer of microseconds.
\<close>

subsection \<open>Collections of facts\<close>

named_theorems run_simps \<open>equations that run the operations of the state-and-exception model\<close>

subsection \<open>Operations with state and exceptions\<close>

type_synonym ('s, 'e, 'a) sx = "'s \<Rightarrow> ('e + 'a) \<times> 's"

definition ok :: "'a \<Rightarrow> ('s, 'e, 'a) sx" where
  "ok x s = (Inr x, s)"

definition fail :: "'e \<Rightarrow> ('s, 'e, 'a) sx" where
  "fail e s = (Inl e, s)"

definition bnd :: "('s, 'e, 'a) sx \<Rightarrow> ('a \<Rightarrow> ('s, 'e, 'b) sx) \<Rightarrow> ('s, 'e, 'b) sx" where
  "bnd m f s = (case m s of (r, s') \<Rightarrow> (case r of Inl e \<Rightarrow> (Inl e, s') | Inr x \<Rightarrow> f x s'))"

definition gets :: "('s \<Rightarrow> 'a) \<Rightarrow> ('s, 'e, 'a) sx" where
  "gets f s = (Inr (f s), s)"

definition upd :: "('s \<Rightarrow> 's) \<Rightarrow> ('s, 'e, unit) sx" where
  "upd f s = (Inr (), f s)"

definition require :: "bool \<Rightarrow> 'e \<Rightarrow> ('s, 'e, unit) sx" where
  "require b e s = (if b then (Inr (), s) else (Inl e, s))"

definition catch :: "('s, 'e, 'a) sx \<Rightarrow> ('e \<Rightarrow> ('s, 'e, 'a) sx) \<Rightarrow> ('s, 'e, 'a) sx" where
  "catch m h s = (case m s of (r, s') \<Rightarrow> (case r of Inl e \<Rightarrow> h e s' | Inr x \<Rightarrow> (Inr x, s')))"

definition of_sum :: "'e + 'a \<Rightarrow> ('s, 'e, 'a) sx" where
  "of_sum r s = (r, s)"

lemmas sx_defs [run_simps] = ok_def fail_def gets_def upd_def require_def of_sum_def

lemma bnd_Inr [run_simps]: "m s = (Inr x, s') \<Longrightarrow> bnd m f s = f x s'"
  by (simp add: bnd_def)

lemma bnd_Inl [run_simps]: "m s = (Inl e, s') \<Longrightarrow> bnd m f s = (Inl e, s')"
  by (simp add: bnd_def)

lemma catch_Inr [run_simps]: "m s = (Inr x, s') \<Longrightarrow> catch m h s = (Inr x, s')"
  by (simp add: catch_def)

lemma catch_Inl [run_simps]: "m s = (Inl e, s') \<Longrightarrow> catch m h s = h e s'"
  by (simp add: catch_def)

lemma bnd_ok [simp]: "bnd (ok x) f = f x"
  by (rule ext) (simp add: bnd_def ok_def)

lemma bnd_fail [simp]: "bnd (fail e) f = fail e"
  by (rule ext) (simp add: bnd_def fail_def)

lemma bnd_require: "bnd (require b e) f s = (if b then f () s else (Inl e, s))"
  by (simp add: bnd_def require_def)

lemma bnd_gets: "bnd (gets f) g s = g (f s) s"
  by (simp add: bnd_def gets_def)

lemma bnd_upd: "bnd (upd f) g s = g () (f s)"
  by (simp add: bnd_def upd_def)

lemma bnd_of_sum: "bnd (of_sum r) g s = (case r of Inl e \<Rightarrow> (Inl e, s) | Inr x \<Rightarrow> g x s)"
  by (simp add: bnd_def of_sum_def)

lemma bnd_if: "bnd (if b then m else n) f = (if b then bnd m f else bnd n f)"
  by simp

text \<open>Running an operation statement by statement.\<close>

lemmas bnd_runs = bnd_require bnd_gets bnd_upd bnd_of_sum bnd_if

lemma bnd_assoc: "bnd (bnd m f) g = bnd m (\<lambda>x. bnd (f x) g)"
  by (rule ext) (simp add: bnd_def split: prod.splits sum.splits)

text \<open>A run that returned went through both parts; a run that raised, in one of them.\<close>

lemma bnd_InrE:
  assumes "bnd m f s = (Inr y, t)"
  obtains x u where "m s = (Inr x, u)" and "f x u = (Inr y, t)"
  using assms by (auto simp: bnd_def split: prod.splits sum.splits)

lemma bnd_InlE:
  assumes "bnd m f s = (Inl e, t)"
  obtains "m s = (Inl e, t)" | x u where "m s = (Inr x, u)" and "f x u = (Inl e, t)"
  using assms by (auto simp: bnd_def split: prod.splits sum.splits)

text \<open>
  \<open>keeps P m\<close>: the operation \<open>m\<close> leaves a state with \<open>P\<close> whenever it starts in one, on the
  returning paths and on the raising ones.
\<close>

definition keeps :: "('s \<Rightarrow> bool) \<Rightarrow> ('s, 'e, 'a) sx \<Rightarrow> bool" where
  "keeps P m \<longleftrightarrow> (\<forall>s. P s \<longrightarrow> P (snd (m s)))"

named_theorems keeps_intros \<open>rules that build the preservation of an invariant\<close>

lemma keepsI: "(\<And>s r t. P s \<Longrightarrow> m s = (r, t) \<Longrightarrow> P t) \<Longrightarrow> keeps P m"
  unfolding keeps_def by (metis prod.collapse)

lemma keepsD: "keeps P m \<Longrightarrow> m s = (r, t) \<Longrightarrow> P s \<Longrightarrow> P t"
  unfolding keeps_def by (metis snd_conv)

lemma keeps_pure [keeps_intros]:
  "keeps P (ok x)" "keeps P (fail e)" "keeps P (gets f)" "keeps P (require b e)"
  "keeps P (of_sum r)"
  by (auto simp: keeps_def run_simps)

lemma keeps_upd: "(\<And>s. P s \<Longrightarrow> P (f s)) \<Longrightarrow> keeps P (upd f)"
  by (auto simp: keeps_def upd_def)

lemma keeps_bnd [keeps_intros]:
  "keeps P m \<Longrightarrow> (\<And>x. keeps P (f x)) \<Longrightarrow> keeps P (bnd m f)"
  unfolding keeps_def bnd_def by (fastforce split: prod.splits sum.splits)

lemma keeps_catch [keeps_intros]:
  "keeps P m \<Longrightarrow> (\<And>e. keeps P (h e)) \<Longrightarrow> keeps P (catch m h)"
  unfolding keeps_def catch_def by (fastforce split: prod.splits sum.splits)

lemma keeps_if [keeps_intros]:
  "(b \<Longrightarrow> keeps P m) \<Longrightarrow> (\<not> b \<Longrightarrow> keeps P n) \<Longrightarrow> keeps P (if b then m else n)"
  by simp

lemma keeps_option [keeps_intros]:
  "(x = None \<Longrightarrow> keeps P m) \<Longrightarrow> (\<And>y. x = Some y \<Longrightarrow> keeps P (f y)) \<Longrightarrow>
    keeps P (case x of None \<Rightarrow> m | Some y \<Rightarrow> f y)"
  by (cases x) auto

text \<open>
  An operation of one object run inside a larger state: \<open>get\<close> reads the object's state,
  \<open>put\<close> writes it back, whether it returned or raised.
\<close>

definition zoom :: "('w \<Rightarrow> 's) \<Rightarrow> ('s \<Rightarrow> 'w \<Rightarrow> 'w) \<Rightarrow> ('s, 'e, 'a) sx \<Rightarrow> ('w, 'e, 'a) sx" where
  "zoom get put m w = (case m (get w) of (r, s') \<Rightarrow> (r, put s' w))"

lemma zoom_eq [run_simps]: "m (get w) = (r, s') \<Longrightarrow> zoom get put m w = (r, put s' w)"
  by (simp add: zoom_def)

subsection \<open>Dictionaries\<close>

type_synonym ('k, 'v) dict = "('k \<times> 'v) list"

abbreviation dset :: "'k \<Rightarrow> 'v \<Rightarrow> ('k, 'v) dict \<Rightarrow> ('k, 'v) dict" where
  "dset \<equiv> AList.update"

abbreviation ddel :: "'k \<Rightarrow> ('k, 'v) dict \<Rightarrow> ('k, 'v) dict" where
  "ddel \<equiv> AList.delete"

abbreviation dkeys :: "('k, 'v) dict \<Rightarrow> 'k list" where
  "dkeys d \<equiv> map fst d"

abbreviation dvals :: "('k, 'v) dict \<Rightarrow> 'v list" where
  "dvals d \<equiv> map snd d"

lemma map_of_dset [simp]: "map_of (dset k v d) = (map_of d)(k \<mapsto> v)"
  by (rule update_conv')

lemma map_of_ddel [simp]: "map_of (ddel k d) = (map_of d)(k := None)"
  by (rule delete_conv')

lemma dkeys_dset: "dkeys (dset k v d) = (if k \<in> set (dkeys d) then dkeys d else dkeys d @ [k])"
  by (induction d) auto

lemma dset_distinct [simp]: "distinct (dkeys d) \<Longrightarrow> distinct (dkeys (dset k v d))"
  by (simp add: dkeys_dset)

lemma ddel_distinct [simp]: "distinct (dkeys d) \<Longrightarrow> distinct (dkeys (ddel k d))"
  by (rule distinct_delete)

lemma dset_mem: "distinct (dkeys d) \<Longrightarrow>
  (k', v') \<in> set (dset k v d) \<longleftrightarrow> (if k' = k then v' = v else (k', v') \<in> set d)"
  by (induction d) (auto simp: image_iff)

lemma set_dset_subset: "x \<in> set (dset k v d) \<Longrightarrow> x = (k, v) \<or> x \<in> set d"
  by (induction d) (auto split: if_splits)

lemma map_of_vals: "map_of d k = Some v \<Longrightarrow> v \<in> set (dvals d)"
  by (force dest: map_of_SomeD)

text \<open>In-place mutation of every object a dict holds (its keys stay).\<close>

definition dmap :: "('v \<Rightarrow> 'w) \<Rightarrow> ('k, 'v) dict \<Rightarrow> ('k, 'w) dict" where
  "dmap f d = map (\<lambda>(k, v). (k, f v)) d"

lemma dkeys_dmap [simp]: "dkeys (dmap f d) = dkeys d"
  by (induction d) (auto simp: dmap_def)

lemma map_of_dmap [simp]: "map_of (dmap f d) k = map_option f (map_of d k)"
  by (induction d) (auto simp: dmap_def)

subsection \<open>Text\<close>

text \<open>Python's \<open>str.isspace\<close> and \<open>\s\<close> on code points below 256; \<open>str.strip() == ""\<close>.\<close>

definition is_space :: "char \<Rightarrow> bool" where
  "is_space c \<longleftrightarrow>
     (of_char c :: nat) \<in> {9, 10, 11, 12, 13, 28, 29, 30, 31, 32, 133, 160}"

definition blank :: "string \<Rightarrow> bool" where
  "blank s \<longleftrightarrow> list_all is_space s"

definition code_point :: "char \<Rightarrow> nat" where
  "code_point c = of_char c"

definition is_digit :: "char \<Rightarrow> bool" where
  "is_digit c \<longleftrightarrow> 48 \<le> code_point c \<and> code_point c \<le> 57"

definition is_upper :: "char \<Rightarrow> bool" where
  "is_upper c \<longleftrightarrow> 65 \<le> code_point c \<and> code_point c \<le> 90"

definition is_lower :: "char \<Rightarrow> bool" where
  "is_lower c \<longleftrightarrow> 97 \<le> code_point c \<and> code_point c \<le> 122"

definition is_alnum :: "char \<Rightarrow> bool" where
  "is_alnum c \<longleftrightarrow> is_upper c \<or> is_lower c \<or> is_digit c"

definition lower :: "char \<Rightarrow> char" where
  "lower c = (if is_upper c then char_of (code_point c + 32) else c)"

fun starts_with :: "'a list \<Rightarrow> 'a list \<Rightarrow> bool" where
  "starts_with [] s = True"
| "starts_with (p # ps) [] = False"
| "starts_with (p # ps) (c # s) = (p = c \<and> starts_with ps s)"

text \<open>\<open>re.search\<close>: the pattern matches a prefix of some suffix.\<close>

fun search :: "(string \<Rightarrow> bool) \<Rightarrow> string \<Rightarrow> bool" where
  "search p [] = p []"
| "search p (c # s) = (p (c # s) \<or> search p s)"

lemma search_iff: "search p s \<longleftrightarrow> (\<exists>u v. s = u @ v \<and> p v)"
proof (induction s)
  case Nil
  then show ?case by simp
next
  case (Cons c s)
  have "(\<exists>u v. c # s = u @ v \<and> p v) \<longleftrightarrow> p (c # s) \<or> (\<exists>u v. s = u @ v \<and> p v)"
    by (metis append_Cons append_Nil append_eq_Cons_conv)
  then show ?case using Cons by simp
qed

text \<open>Decimal text of a number, as \<open>str\<close> prints it.\<close>

fun nat_str :: "nat \<Rightarrow> string" where
  "nat_str n = (if n < 10 then [char_of (48 + n)] else nat_str (n div 10) @ [char_of (48 + n mod 10)])"

declare nat_str.simps [simp del]

definition int_str :: "int \<Rightarrow> string" where
  "int_str i = (if i < 0 then CHR ''-'' # nat_str (nat (- i)) else nat_str (nat i))"

subsection \<open>Time\<close>

type_synonym datetime = int
type_synonym timedelta = int

definition seconds :: "int \<Rightarrow> timedelta" where
  "seconds n = n * 1000000"

lemma seconds_mono: "a \<le> b \<Longrightarrow> seconds a \<le> seconds b"
  by (simp add: seconds_def)

subsection \<open>Counting without gaps\<close>

definition counted :: "int list \<Rightarrow> bool" where
  "counted xs \<longleftrightarrow> xs = map (\<lambda>i. int i + 1) [0..<length xs]"

lemma counted_Nil [simp]: "counted []"
  by (simp add: counted_def)

lemma counted_snoc [simp]: "counted (xs @ [x]) \<longleftrightarrow> counted xs \<and> x = int (length xs) + 1"
  by (auto simp: counted_def)

lemma counted_sorted: "counted xs \<Longrightarrow> sorted xs"
proof -
  have "sorted (map (\<lambda>i. int i + 1) [0..<n])" for n by (simp add: sorted_map)
  then show "counted xs \<Longrightarrow> sorted xs" unfolding counted_def by metis
qed

end
