(* ===== verification/Payload.thy ===== *)
theory Payload
  imports Prelude
begin

section \<open>Outbox payloads: freezing, canonical JSON, secret scanning\<close>

text \<open>
  The payload part of \<^verbatim>\<open>runtime/outbox/models.py\<close>: \<open>freeze_payload\<close>, \<open>plain\<close>,
  \<open>validate_payload\<close>, \<open>validate_safe_reference\<close>, the four regular expressions of the module,
  and the part of \<^verbatim>\<open>json.dumps\<close> its canonical form uses.
\<close>

subsection \<open>Values\<close>

text \<open>
  A Python value offered as a payload. \<open>JFloat\<close> carries the text \<open>repr\<close> prints for the float;
  \<open>JOther t\<close> stands for an object of any other class, whose \<open>str\<close> is \<open>t\<close>. Lists and tuples are \<open>JArr\<close>: freezing
  makes them tuples, \<open>plain\<close> lists.
\<close>

datatype json =
    JNull
  | JBool bool
  | JInt int
  | JFloat string
  | JStr string
  | JArr "json list"
  | JObj "(string \<times> json) list"
  | JOther string

fun jget :: "string \<Rightarrow> json \<Rightarrow> json option" where
  "jget k (JObj d) = map_of d k"
| "jget k _ = None"

text \<open>\<open>freeze_payload\<close>: the value, or the exception for an object that does not serialise.\<close>

fun freezable :: "json \<Rightarrow> bool" where
  "freezable (JOther _) = False"
| "freezable (JArr xs) = list_all freezable xs"
| "freezable (JObj d) = list_all (\<lambda>kv. freezable (snd kv)) d"
| "freezable _ = True"

definition freeze_payload :: "json \<Rightarrow> string + json" where
  "freeze_payload v =
     (if freezable v then Inr v else Inl ''Outbox payload is not serialisable'')"

subsection \<open>Canonical JSON text\<close>

definition hex_digit :: "nat \<Rightarrow> char" where
  "hex_digit n = char_of (if n < 10 then 48 + n else 87 + n)"

definition json_char :: "char \<Rightarrow> string" where
  "json_char c =
     (if code_point c = 34 then [char_of (92::nat), char_of (34::nat)]
      else if code_point c = 92 then [char_of (92::nat), char_of (92::nat)]
      else if code_point c = 10 then char_of (92::nat) # ''n''
      else if code_point c = 13 then char_of (92::nat) # ''r''
      else if code_point c = 9 then char_of (92::nat) # ''t''
      else if code_point c = 12 then char_of (92::nat) # ''f''
      else if code_point c = 8 then char_of (92::nat) # ''b''
      else if 32 \<le> code_point c \<and> code_point c \<le> 126 then [c]
      else char_of (92::nat) # ''u00'' @ [hex_digit (code_point c div 16), hex_digit (code_point c mod 16)])"

definition json_str :: "string \<Rightarrow> string" where
  "json_str s = char_of (34::nat) # concat (map json_char s) @ [char_of (34::nat)]"

fun join :: "string \<Rightarrow> string list \<Rightarrow> string" where
  "join sep [] = []"
| "join sep [s] = s"
| "join sep (s # t # ts) = s @ sep @ join sep (t # ts)"

text \<open>
  \<open>json.dumps(value, sort_keys=True, separators=(sep, colon), default=str)\<close>. An object of
  another class never reaches the calls without \<open>default=str\<close>: \<open>freeze_payload\<close> refuses it.
\<close>

fun dumps_with :: "string \<Rightarrow> string \<Rightarrow> json \<Rightarrow> string" where
  "dumps_with sep col JNull = ''null''"
| "dumps_with sep col (JBool b) = (if b then ''true'' else ''false'')"
| "dumps_with sep col (JInt i) = int_str i"
| "dumps_with sep col (JFloat t) = t"
| "dumps_with sep col (JStr s) = json_str s"
| "dumps_with sep col (JArr xs) = ''['' @ join sep (map (dumps_with sep col) xs) @ '']''"
| "dumps_with sep col (JObj d) =
     ''{'' @ join sep (map (\<lambda>kv. json_str (fst kv) @ col @ snd kv)
       (sort_key fst (map (\<lambda>kv. (fst kv, dumps_with sep col (snd kv))) d))) @ ''}''"
| "dumps_with sep col (JOther t) = json_str t"

definition dumps :: "json \<Rightarrow> string" where
  "dumps = dumps_with '','' '':''"

subsection \<open>Regular expressions\<close>

text \<open>\<open>_IDENTIFIER = ^[A-Z][A-Z0-9_]{1,99}$\<close> and \<open>_PROVIDER = ^[A-Za-z0-9][A-Za-z0-9_.-]{0,127}$\<close>.\<close>

definition re_identifier :: "string \<Rightarrow> bool" where
  "re_identifier s \<longleftrightarrow> (case s of [] \<Rightarrow> False | c # cs \<Rightarrow>
     is_upper c \<and> 1 \<le> length cs \<and> length cs \<le> 99 \<and>
     list_all (\<lambda>x. is_upper x \<or> is_digit x \<or> x = CHR ''_'') cs)"

definition name_char :: "char \<Rightarrow> bool" where
  "name_char x \<longleftrightarrow> is_alnum x \<or> x = CHR ''_'' \<or> x = CHR ''.'' \<or> x = CHR ''-''"

definition re_provider :: "string \<Rightarrow> bool" where
  "re_provider s \<longleftrightarrow> (case s of [] \<Rightarrow> False | c # cs \<Rightarrow>
     is_alnum c \<and> length cs \<le> 127 \<and> list_all name_char cs)"

text \<open>
  \<open>_SECRET\<close>, searched case-insensitively: one of the words below anywhere in the text, where
  \<open>api key\<close> and \<open>private key\<close> may have one underscore or hyphen between the words.
\<close>

definition secret_words :: "string list" where
  "secret_words = [''token'', ''secret'', ''password'', ''apikey'', ''api_key'', ''api-key'',
     ''credential'', ''privatekey'', ''private_key'', ''private-key'']"

definition has_secret_word :: "string \<Rightarrow> bool" where
  "has_secret_word s \<longleftrightarrow> (let l = map lower s in
     list_ex (\<lambda>w. search (starts_with w) l) secret_words)"

text \<open>\<open>prefix[class]{n,}\<close> at the head of the text.\<close>

definition prefixed_run :: "string \<Rightarrow> (char \<Rightarrow> bool) \<Rightarrow> nat \<Rightarrow> string \<Rightarrow> bool" where
  "prefixed_run p cls n s \<longleftrightarrow>
     starts_with p s \<and> n \<le> length (takeWhile cls (drop (length p) s))"

text \<open>
  \<open>_SECRET_VALUE\<close>: a GitHub token, a fine-grained GitHub token, an \<open>sk-\<close> key or a bearer
  token. After \<open>Bearer\<close> come one or more spaces; no space is in the class that follows, so
  taking all of them is the only way to match.
\<close>

definition secret_value_at :: "string \<Rightarrow> bool" where
  "secret_value_at s \<longleftrightarrow>
     prefixed_run ''ghp_'' is_alnum 20 s
     \<or> prefixed_run ''github_pat_'' (\<lambda>c. is_alnum c \<or> c = CHR ''_'') 20 s
     \<or> prefixed_run ''sk-'' is_alnum 20 s
     \<or> (starts_with ''bearer'' s \<and>
        (let r = drop 6 s; t = dropWhile is_space r in
           length t < length r \<and> 12 \<le> length (takeWhile name_char t)))"

definition has_secret_value :: "string \<Rightarrow> bool" where
  "has_secret_value s \<longleftrightarrow> search secret_value_at (map lower s)"

subsection \<open>Validation\<close>

definition max_payload_bytes :: int where
  "max_payload_bytes = 32768"

text \<open>
  The nested function \<open>inspect\<close>: the first secret-bearing key or value in the traversal, if
  there is one. The path is the text of the keys above, each after a dot.
\<close>

fun inspect :: "json \<Rightarrow> string \<Rightarrow> string option"
  and inspect_items :: "(string \<times> json) list \<Rightarrow> string \<Rightarrow> string option"
  and inspect_list :: "json list \<Rightarrow> string \<Rightarrow> string option" where
  "inspect (JObj d) path = inspect_items d path"
| "inspect (JArr xs) path = inspect_list xs path"
| "inspect (JStr s) path =
     (if (has_secret_word path \<and> s \<noteq> []) \<or> has_secret_value s
      then Some ''Secret-bearing payload value'' else None)"
| "inspect _ path = None"
| "inspect_items [] path = None"
| "inspect_items ((k, v) # d) path =
     (if has_secret_word k then Some ''Secret-bearing payload key''
      else case inspect v (path @ ''.'' @ k) of
        Some e \<Rightarrow> Some e | None \<Rightarrow> inspect_items d path)"
| "inspect_list [] path = None"
| "inspect_list (x # xs) path =
     (case inspect x path of Some e \<Rightarrow> Some e | None \<Rightarrow> inspect_list xs path)"

definition validate_payload :: "json \<Rightarrow> string + json" where
  "validate_payload v =
     (case freeze_payload v of
        Inl e \<Rightarrow> Inl e
      | Inr frozen \<Rightarrow>
          if max_payload_bytes < int (length (dumps frozen)) then Inl ''Outbox payload exceeds size limit''
          else case inspect frozen '''' of Some e \<Rightarrow> Inl e | None \<Rightarrow> Inr frozen)"

definition validate_safe_reference :: "json \<Rightarrow> string + string" where
  "validate_safe_reference v =
     (case v of
        JStr s \<Rightarrow>
          if s = [] \<or> 512 < length s \<or> has_secret_value s
          then Inl ''Unsafe provider result reference'' else Inr s
      | _ \<Rightarrow> Inl ''Unsafe provider result reference'')"

subsection \<open>What an accepted payload looks like\<close>

text \<open>The keys and the strings of a value, wherever they are nested.\<close>

fun all_keys :: "json \<Rightarrow> string set" where
  "all_keys (JArr xs) = (\<Union>x\<in>set xs. all_keys x)"
| "all_keys (JObj d) = fst ` set d \<union> (\<Union>kv\<in>set d. all_keys (snd kv))"
| "all_keys _ = {}"

fun all_strings :: "json \<Rightarrow> string set" where
  "all_strings (JStr s) = {s}"
| "all_strings (JArr xs) = (\<Union>x\<in>set xs. all_strings x)"
| "all_strings (JObj d) = (\<Union>kv\<in>set d. all_strings (snd kv))"
| "all_strings _ = {}"

lemma inspect_keys:
  "inspect v p = None \<Longrightarrow> k \<in> all_keys v \<Longrightarrow> \<not> has_secret_word k"
  "inspect_items d p = None \<Longrightarrow> k \<in> all_keys (JObj d) \<Longrightarrow> \<not> has_secret_word k"
  "inspect_list xs p = None \<Longrightarrow> k \<in> all_keys (JArr xs) \<Longrightarrow> \<not> has_secret_word k"
  by (induction v p and d p and xs p rule: inspect_inspect_items_inspect_list.induct)
    (auto split: if_splits option.splits)

lemma inspect_strings:
  "inspect v p = None \<Longrightarrow> s \<in> all_strings v \<Longrightarrow> \<not> has_secret_value s"
  "inspect_items d p = None \<Longrightarrow> s \<in> all_strings (JObj d) \<Longrightarrow> \<not> has_secret_value s"
  "inspect_list xs p = None \<Longrightarrow> s \<in> all_strings (JArr xs) \<Longrightarrow> \<not> has_secret_value s"
  by (induction v p and d p and xs p rule: inspect_inspect_items_inspect_list.induct)
    (auto split: if_splits option.splits)

lemma validate_payload_Inr:
  "validate_payload v = Inr w \<longleftrightarrow>
     w = v \<and> freezable v \<and> int (length (dumps v)) \<le> max_payload_bytes \<and> inspect v '''' = None"
  by (auto simp: validate_payload_def freeze_payload_def split: option.splits)

end
