(* ===== verification/Outbox_Models.thy ===== *)
theory Outbox_Models
  imports Payload
begin

section \<open>Outbox values: operations, claims, attempts, errors\<close>

text \<open>
  The dataclasses and enums of \<^verbatim>\<open>runtime/outbox/models.py\<close> and the exceptions of
  \<^verbatim>\<open>runtime/outbox/exceptions.py\<close>, \<^verbatim>\<open>runtime/operations/exceptions.py\<close> and
  \<^verbatim>\<open>runtime/integrations/github/exceptions.py\<close> that the outbox raises or classifies. SHA-256
  is the parameter \<open>sha\<close> of the definitions that hash.
\<close>

datatype outbox_status =
    PENDING | CLAIMED | DISPATCHING | SUCCEEDED | RETRY_WAIT
  | RECONCILIATION_REQUIRED | DEAD_LETTER | CANCELLED

datatype failure_category =
    NON_RETRYABLE | RETRYABLE_IMMEDIATE | RETRYABLE_BACKOFF | RATE_LIMITED
  | FC_RECONCILIATION_REQUIRED | FC_UNKNOWN

datatype reconciliation_state = RS_NONE | REQUIRED | IN_PROGRESS | RESOLVED | UNVERIFIABLE

record outbox_operation =
  o_operation_id :: string
  o_runtime_id :: string
  o_project_id :: string
  o_task_id :: string
  o_work_item_id :: string
  o_operation_type :: string
  o_provider_id :: string
  o_aggregate_id :: string
  o_aggregate_version :: int
  o_idempotency_key :: string
  o_correlation_id :: "string option"
  o_causation_id :: "string option"
  o_payload :: json
  o_payload_schema_version :: int
  o_status :: outbox_status
  o_priority :: int
  o_available_at :: datetime
  o_created_at :: datetime
  o_first_attempted_at :: "datetime option"
  o_last_attempted_at :: "datetime option"
  o_completed_at :: "datetime option"
  o_attempt_count :: int
  o_maximum_attempts :: int
  o_claim_owner :: "string option"
  o_claim_token_hash :: "string option"
  o_claimed_at :: "datetime option"
  o_claim_expires_at :: "datetime option"
  o_fencing_token :: int
  o_failure_code :: "string option"
  o_failure_category :: "failure_category option"
  o_retry_after :: "datetime option"
  o_result_reference :: "string option"
  o_reconciliation_state :: reconciliation_state
  o_dead_letter_reason :: "string option"

record outbox_claim =
  c_operation_id :: string
  c_owner_id :: string
  c_token :: string
  c_claimed_at :: "datetime option"
  c_expires_at :: datetime
  c_fencing_token :: int

record outbox_attempt =
  at_operation_id :: string
  at_attempt_number :: int
  at_started_at :: datetime
  at_completed_at :: "datetime option"
  at_outcome :: string
  at_failure_code :: "string option"
  at_failure_category :: "failure_category option"
  at_safe_summary :: string

record idempotency_record =
  ir_idempotency_key :: string
  ir_operation_id :: string
  ir_provider_id :: string
  ir_request_fingerprint :: string
  ir_first_dispatch_at :: datetime
  ir_provider_reference :: "string option"
  ir_result_fingerprint :: "string option"
  ir_completion_time :: "datetime option"
  ir_status :: string

text \<open>
  The exceptions the outbox raises or sees, and the class name Python reports for each
  (\<open>type(error).__name__\<close>). \<open>OtherError n\<close> is any other exception, of the class named \<open>n\<close>.
  A rate-limit error may carry the attribute \<open>retry_after_seconds\<close>.
\<close>

datatype exn =
    OutboxValidationError string
  | OutboxOperationNotFoundError string
  | DuplicateOutboxOperationError string
  | IdempotencyConflictError string
  | InvalidOutboxTransitionError string
  | OutboxClaimError string
  | OutboxClaimExpiredError string
  | StaleOutboxFencingError string
  | OutboxAuthorizationError string
  | DuplicateOperationHandlerError string
  | UnknownOperationHandlerError string
  | UnsupportedPayloadVersionError string
  | ForgedProviderResultError string
  | GitHubAuthenticationError
  | GitHubRateLimitError "int option"
  | ExternalProviderUnavailableError
  | TimeoutError
  | ValueError string
  | KeyError string
  | StaleWorkerResultError string
  | EventError string
  | OtherError string

fun exn_name :: "exn \<Rightarrow> string" where
  "exn_name (OutboxValidationError _) = ''OutboxValidationError''"
| "exn_name (OutboxOperationNotFoundError _) = ''OutboxOperationNotFoundError''"
| "exn_name (DuplicateOutboxOperationError _) = ''DuplicateOutboxOperationError''"
| "exn_name (IdempotencyConflictError _) = ''IdempotencyConflictError''"
| "exn_name (InvalidOutboxTransitionError _) = ''InvalidOutboxTransitionError''"
| "exn_name (OutboxClaimError _) = ''OutboxClaimError''"
| "exn_name (OutboxClaimExpiredError _) = ''OutboxClaimExpiredError''"
| "exn_name (StaleOutboxFencingError _) = ''StaleOutboxFencingError''"
| "exn_name (OutboxAuthorizationError _) = ''OutboxAuthorizationError''"
| "exn_name (DuplicateOperationHandlerError _) = ''DuplicateOperationHandlerError''"
| "exn_name (UnknownOperationHandlerError _) = ''UnknownOperationHandlerError''"
| "exn_name (UnsupportedPayloadVersionError _) = ''UnsupportedPayloadVersionError''"
| "exn_name (ForgedProviderResultError _) = ''ForgedProviderResultError''"
| "exn_name GitHubAuthenticationError = ''GitHubAuthenticationError''"
| "exn_name (GitHubRateLimitError _) = ''GitHubRateLimitError''"
| "exn_name ExternalProviderUnavailableError = ''ExternalProviderUnavailableError''"
| "exn_name TimeoutError = ''TimeoutError''"
| "exn_name (ValueError _) = ''ValueError''"
| "exn_name (KeyError _) = ''KeyError''"
| "exn_name (StaleWorkerResultError _) = ''StaleWorkerResultError''"
| "exn_name (EventError n) = n"
| "exn_name (OtherError n) = n"

definition upper :: "char \<Rightarrow> char" where
  "upper c = (if is_lower c then char_of (code_point c - 32) else c)"

subsection \<open>Construction and fingerprint of an operation\<close>

text \<open>
  \<open>OutboxOperation.__post_init__\<close>: the checks in their order. Timestamps are UTC by type.
\<close>

definition validate_operation :: "outbox_operation \<Rightarrow> exn + outbox_operation" where
  "validate_operation op =
     (if \<not> re_identifier (o_operation_type op) then Inl (OutboxValidationError ''Invalid operation type'')
      else if \<not> re_provider (o_provider_id op) then Inl (OutboxValidationError ''Invalid provider ID'')
      else if o_aggregate_version op < 0 \<or> o_payload_schema_version op < 1
        then Inl (OutboxValidationError ''Invalid schema or aggregate version'')
      else if o_maximum_attempts op < 1
        then Inl (OutboxValidationError ''maximum_attempts must be positive'')
      else case validate_payload (o_payload op) of
          Inl e \<Rightarrow> Inl (OutboxValidationError e)
        | Inr frozen \<Rightarrow> Inr (op\<lparr>o_payload := frozen\<rparr>))"

text \<open>\<open>request_fingerprint\<close>: what the idempotency key is bound to.\<close>

definition fingerprint_value :: "outbox_operation \<Rightarrow> json" where
  "fingerprint_value op = JObj
     [(''operation_type'', JStr (o_operation_type op)),
      (''provider_id'', JStr (o_provider_id op)),
      (''aggregate_id'', JStr (o_aggregate_id op)),
      (''aggregate_version'', JInt (o_aggregate_version op)),
      (''payload_schema_version'', JInt (o_payload_schema_version op)),
      (''payload'', o_payload op)]"

definition request_fingerprint :: "(string \<Rightarrow> string) \<Rightarrow> outbox_operation \<Rightarrow> string" where
  "request_fingerprint sha op = sha (dumps (fingerprint_value op))"

text \<open>A new operation: the fields the caller gives, and the defaults of the dataclass.\<close>

definition new_operation ::
    "string \<Rightarrow> string \<Rightarrow> string \<Rightarrow> string \<Rightarrow> string \<Rightarrow> string \<Rightarrow> string \<Rightarrow> string \<Rightarrow> int \<Rightarrow> string \<Rightarrow>
     string option \<Rightarrow> string option \<Rightarrow> json \<Rightarrow> int \<Rightarrow> outbox_status \<Rightarrow> int \<Rightarrow> datetime \<Rightarrow> datetime \<Rightarrow> int \<Rightarrow>
     exn + outbox_operation" where
  "new_operation oid rid pid tid wid ty prov agg ver key corr caus payload sv st prio avail created maxa =
     validate_operation
       \<lparr>o_operation_id = oid, o_runtime_id = rid, o_project_id = pid, o_task_id = tid,
        o_work_item_id = wid, o_operation_type = ty, o_provider_id = prov, o_aggregate_id = agg,
        o_aggregate_version = ver, o_idempotency_key = key, o_correlation_id = corr,
        o_causation_id = caus, o_payload = payload, o_payload_schema_version = sv,
        o_status = st, o_priority = prio, o_available_at = avail, o_created_at = created,
        o_first_attempted_at = None, o_last_attempted_at = None, o_completed_at = None,
        o_attempt_count = 0, o_maximum_attempts = maxa, o_claim_owner = None,
        o_claim_token_hash = None, o_claimed_at = None, o_claim_expires_at = None,
        o_fencing_token = 0, o_failure_code = None, o_failure_category = None,
        o_retry_after = None, o_result_reference = None, o_reconciliation_state = RS_NONE,
        o_dead_letter_reason = None\<rparr>"

text \<open>
  An accepted operation carries no secret: none of its payload's keys contains a secret word
  and none of its strings has the shape of a credential. Its payload fits the size limit.
\<close>

lemma validate_operation_safe:
  assumes "validate_operation op = Inr op'"
  shows "op' = op"
    and "\<forall>k\<in>all_keys (o_payload op'). \<not> has_secret_word k"
    and "\<forall>s\<in>all_strings (o_payload op'). \<not> has_secret_value s"
    and "int (length (dumps (o_payload op'))) \<le> max_payload_bytes"
    and "1 \<le> o_maximum_attempts op'" and "0 \<le> o_aggregate_version op'"
    and "re_identifier (o_operation_type op')" and "re_provider (o_provider_id op')"
  using assms inspect_keys(1) inspect_strings(1)
  by (auto simp: validate_operation_def validate_payload_Inr split: if_splits sum.splits)

lemma validate_operation_status: "validate_operation op = Inr op' \<Longrightarrow> o_status op' = o_status op"
  using validate_operation_safe(1) by blast

end
