(* ===== verification/Outbox_Repository.thy ===== *)
theory Outbox_Repository
  imports Outbox_Models
begin

section \<open>The outbox repository\<close>

text \<open>
  \<^verbatim>\<open>runtime/outbox/repository.py\<close>, class \<open>InMemoryOutboxRepository\<close>. The state holds the
  dictionaries of the class, and two counters that say how often the injected clock has been
  read and how many random tokens have been drawn. The environment gives the values: the
  \<open>n\<close>-th reading of the clock, the \<open>n\<close>-th token, and SHA-256. Nothing is assumed of the clock,
  so every interleaving of time with the operations is covered.
\<close>

subsection \<open>State\<close>

record env =
  clock :: "nat \<Rightarrow> datetime"
  tokens :: "nat \<Rightarrow> string"
  sha :: "string \<Rightarrow> string"

record repo =
  operations :: "(string, outbox_operation) dict"
  attempts :: "(string, outbox_attempt list) dict"
  idempotency :: "(string, string) dict"
  provider_pauses :: "(string, bool) dict"
  audit :: "json list"
  ticks :: nat
  draws :: nat

type_synonym 'a rop = "(repo, exn, 'a) sx"

definition empty_repo :: repo where
  "empty_repo = \<lparr>operations = [], attempts = [], idempotency = [], provider_pauses = [],
     audit = [], ticks = 0, draws = 0\<rparr>"

text \<open>\<open>self.clock()\<close> and \<open>secrets.token_urlsafe(32)\<close>.\<close>

definition now :: "env \<Rightarrow> datetime rop" where
  "now E s = (Inr (clock E (ticks s)), s\<lparr>ticks := Suc (ticks s)\<rparr>)"

definition draw :: "env \<Rightarrow> string rop" where
  "draw E s = (Inr (tokens E (draws s)), s\<lparr>draws := Suc (draws s)\<rparr>)"

text \<open>Mutation of the object stored under a key.\<close>

definition put_operation :: "string \<Rightarrow> outbox_operation \<Rightarrow> unit rop" where
  "put_operation k op = upd (\<lambda>s. s\<lparr>operations := dset k op (operations s)\<rparr>)"

definition attempts_of :: "repo \<Rightarrow> string \<Rightarrow> outbox_attempt list" where
  "attempts_of s k = (case map_of (attempts s) k of None \<Rightarrow> [] | Some xs \<Rightarrow> xs)"

subsection \<open>Adding and reading operations\<close>

definition truthy :: "string option \<Rightarrow> bool" where
  "truthy x \<longleftrightarrow> (case x of None \<Rightarrow> False | Some t \<Rightarrow> t \<noteq> [])"

definition add_operation :: "env \<Rightarrow> outbox_operation \<Rightarrow> outbox_operation rop" where
  "add_operation E op =
     bnd (gets (\<lambda>s. map_of (operations s) (o_operation_id op))) (\<lambda>old.
     bnd (require (old = None) (DuplicateOutboxOperationError (o_operation_id op))) (\<lambda>_.
     bnd (gets (\<lambda>s. map_of (idempotency s) (o_idempotency_key op))) (\<lambda>existing.
     let fp = request_fingerprint (sha E) op in
     bnd (require (\<not> (truthy existing \<and> existing \<noteq> Some fp))
       (IdempotencyConflictError ''Idempotency key payload changed'')) (\<lambda>_.
     bnd (require (\<not> truthy existing)
       (DuplicateOutboxOperationError ''Idempotent operation exists'')) (\<lambda>_.
     bnd (upd (\<lambda>s. s\<lparr>operations := dset (o_operation_id op) op (operations s)\<rparr>)) (\<lambda>_.
     bnd (upd (\<lambda>s. s\<lparr>idempotency := dset (o_idempotency_key op) fp (idempotency s)\<rparr>)) (\<lambda>_.
     ok op)))))))"

definition get_operation :: "string \<Rightarrow> outbox_operation rop" where
  "get_operation k s =
     (case map_of (operations s) k of
        None \<Rightarrow> (Inl (OutboxOperationNotFoundError k), s)
      | Some op \<Rightarrow> (Inr op, s))"

definition list_operations :: "outbox_status option \<Rightarrow> repo \<Rightarrow> outbox_operation list" where
  "list_operations st s =
     sort_key (\<lambda>op. (o_created_at op, o_operation_id op))
       (filter (\<lambda>op. case st of None \<Rightarrow> True | Some x \<Rightarrow> o_status op = x) (dvals (operations s)))"

definition list_by_task :: "string \<Rightarrow> repo \<Rightarrow> outbox_operation list" where
  "list_by_task t s = filter (\<lambda>op. o_task_id op = t) (list_operations None s)"

definition list_by_aggregate :: "string \<Rightarrow> repo \<Rightarrow> outbox_operation list" where
  "list_by_aggregate a s = filter (\<lambda>op. o_aggregate_id op = a) (list_operations None s)"

definition get_by_idempotency_key :: "string \<Rightarrow> repo \<Rightarrow> outbox_operation option" where
  "get_by_idempotency_key key s =
     find (\<lambda>op. o_idempotency_key op = key) (dvals (operations s))"

subsection \<open>Provider pauses and eligibility\<close>

definition pause_provider :: "string \<Rightarrow> unit rop" where
  "pause_provider p = upd (\<lambda>s. s\<lparr>provider_pauses := dset p True (provider_pauses s)\<rparr>)"

definition resume_provider :: "string \<Rightarrow> unit rop" where
  "resume_provider p = upd (\<lambda>s. s\<lparr>provider_pauses := dset p False (provider_pauses s)\<rparr>)"

definition is_provider_paused :: "string \<Rightarrow> repo \<Rightarrow> bool" where
  "is_provider_paused p s = (map_of (provider_pauses s) p = Some True)"

text \<open>The order of selection: priority, availability, creation, identifier.\<close>

definition claim_key :: "outbox_operation \<Rightarrow> int \<times> datetime \<times> datetime \<times> string" where
  "claim_key op = (o_priority op, o_available_at op, o_created_at op, o_operation_id op)"

definition is_eligible :: "datetime \<Rightarrow> repo \<Rightarrow> outbox_operation \<Rightarrow> bool" where
  "is_eligible t s op \<longleftrightarrow>
     o_status op \<in> {PENDING, RETRY_WAIT} \<and> o_available_at op \<le> t
     \<and> \<not> is_provider_paused (o_provider_id op) s"

definition eligible :: "datetime \<Rightarrow> repo \<Rightarrow> outbox_operation list" where
  "eligible t s = sort_key claim_key (filter (is_eligible t s) (dvals (operations s)))"

definition list_pending_operations :: "env \<Rightarrow> (outbox_operation list) rop" where
  "list_pending_operations E = bnd (now E) (\<lambda>t. gets (eligible t))"

subsection \<open>Claims\<close>

definition clear_claim :: "outbox_operation \<Rightarrow> outbox_operation" where
  "clear_claim op = op\<lparr>o_claim_owner := None, o_claim_token_hash := None,
     o_claimed_at := None, o_claim_expires_at := None\<rparr>"

text \<open>One iteration of the loop of \<open>recover_expired\<close>, and the test it makes.\<close>

definition claim_expired :: "datetime \<Rightarrow> outbox_operation \<Rightarrow> bool" where
  "claim_expired t op \<longleftrightarrow>
     o_status op \<in> {CLAIMED, DISPATCHING}
     \<and> (case o_claim_expires_at op of None \<Rightarrow> False | Some e \<Rightarrow> e \<le> t)"

definition recover_one :: "datetime \<Rightarrow> outbox_operation \<Rightarrow> outbox_operation" where
  "recover_one t op =
     (if claim_expired t op then
        clear_claim
          (if o_status op = DISPATCHING
           then op\<lparr>o_status := RECONCILIATION_REQUIRED, o_reconciliation_state := REQUIRED\<rparr>
           else op\<lparr>o_status := PENDING\<rparr>)
      else op)"

definition recover_expired_at :: "datetime \<Rightarrow> nat rop" where
  "recover_expired_at t =
     bnd (gets (\<lambda>s. length (filter (claim_expired t) (dvals (operations s))))) (\<lambda>n.
     bnd (upd (\<lambda>s. s\<lparr>operations := dmap (recover_one t) (operations s)\<rparr>)) (\<lambda>_. ok n))"

definition recover_expired :: "env \<Rightarrow> nat rop" where
  "recover_expired E = bnd (now E) recover_expired_at"

text \<open>\<open>_claim\<close>: mark the operation claimed, bump its fencing token, hand out the claim.\<close>

definition claim :: "env \<Rightarrow> outbox_operation \<Rightarrow> string \<Rightarrow> datetime \<Rightarrow> int \<Rightarrow> outbox_claim rop" where
  "claim E op owner t ttl =
     bnd (draw E) (\<lambda>token.
     let op' = op\<lparr>o_status := CLAIMED, o_claim_owner := Some owner,
                  o_claim_token_hash := Some (sha E token), o_claimed_at := Some t,
                  o_claim_expires_at := Some (t + seconds ttl),
                  o_fencing_token := o_fencing_token op + 1\<rparr> in
     bnd (put_operation (o_operation_id op) op') (\<lambda>_.
     ok \<lparr>c_operation_id = o_operation_id op, c_owner_id = owner, c_token = token,
         c_claimed_at = Some t, c_expires_at = t + seconds ttl,
         c_fencing_token = o_fencing_token op'\<rparr>))"

definition claim_next :: "env \<Rightarrow> string \<Rightarrow> int \<Rightarrow> (outbox_claim option) rop" where
  "claim_next E owner ttl =
     bnd (now E) (\<lambda>t.
     bnd (recover_expired_at t) (\<lambda>_.
     bnd (gets (eligible t)) (\<lambda>es.
     case es of
       [] \<Rightarrow> ok None
     | op # _ \<Rightarrow> bnd (claim E op owner t ttl) (\<lambda>c. ok (Some c)))))"

definition reconciliation_candidates :: "repo \<Rightarrow> outbox_operation list" where
  "reconciliation_candidates s =
     sort_key claim_key
       (filter (\<lambda>op. o_status op = RECONCILIATION_REQUIRED) (dvals (operations s)))"

definition claim_reconciliation :: "env \<Rightarrow> string \<Rightarrow> int \<Rightarrow> (outbox_claim option) rop" where
  "claim_reconciliation E owner ttl =
     bnd (now E) (\<lambda>t.
     bnd (gets reconciliation_candidates) (\<lambda>cs.
     case cs of
       [] \<Rightarrow> ok None
     | op # _ \<Rightarrow>
         bnd (claim E (op\<lparr>o_reconciliation_state := IN_PROGRESS\<rparr>) owner t ttl)
           (\<lambda>c. ok (Some c))))"

text \<open>\<open>_validate_claim\<close>: expiry, then fencing, then identity.\<close>

definition claim_error :: "env \<Rightarrow> datetime \<Rightarrow> outbox_claim \<Rightarrow> outbox_operation \<Rightarrow> exn option" where
  "claim_error E t c op =
     (if (case o_claim_expires_at op of None \<Rightarrow> True | Some e \<Rightarrow> e \<le> t)
        then Some (OutboxClaimExpiredError ''Outbox claim expired'')
      else if o_fencing_token op \<noteq> c_fencing_token c
        then Some (StaleOutboxFencingError ''Outbox fencing token is stale'')
      else if o_claim_owner op \<noteq> Some (c_owner_id c)
              \<or> o_claim_token_hash op \<noteq> Some (sha E (c_token c))
        then Some (OutboxClaimError ''Outbox claim identity is stale'')
      else None)"

definition validate_claim :: "env \<Rightarrow> outbox_claim \<Rightarrow> outbox_operation rop" where
  "validate_claim E c =
     bnd (get_operation (c_operation_id c)) (\<lambda>op.
     bnd (now E) (\<lambda>t.
     case claim_error E t c op of Some e \<Rightarrow> fail e | None \<Rightarrow> ok op))"

definition renew_claim :: "env \<Rightarrow> outbox_claim \<Rightarrow> int \<Rightarrow> outbox_claim rop" where
  "renew_claim E c ttl =
     bnd (validate_claim E c) (\<lambda>op.
     bnd (now E) (\<lambda>t.
     bnd (put_operation (c_operation_id c) (op\<lparr>o_claim_expires_at := Some (t + seconds ttl)\<rparr>)) (\<lambda>_.
     ok \<lparr>c_operation_id = c_operation_id c, c_owner_id = c_owner_id c, c_token = c_token c,
         c_claimed_at = o_claimed_at op, c_expires_at = t + seconds ttl,
         c_fencing_token = c_fencing_token c\<rparr>)))"

definition release_claim :: "env \<Rightarrow> outbox_claim \<Rightarrow> unit rop" where
  "release_claim E c =
     bnd (validate_claim E c) (\<lambda>op.
     bnd (require (o_status op = CLAIMED)
       (InvalidOutboxTransitionError ''Only claimed operation can release'')) (\<lambda>_.
     put_operation (c_operation_id c) ((clear_claim op)\<lparr>o_status := PENDING\<rparr>)))"

subsection \<open>Recording an attempt and its outcome\<close>

definition finish_attempt ::
    "string \<Rightarrow> datetime \<Rightarrow> string \<Rightarrow> string option \<Rightarrow> failure_category option \<Rightarrow> unit rop" where
  "finish_attempt k t outcome code category =
     upd (\<lambda>s. let xs = attempts_of s k in
       if xs \<noteq> [] \<and> at_completed_at (last xs) = None
       then s\<lparr>attempts := dset k (butlast xs @
              [\<lparr>at_operation_id = at_operation_id (last xs),
                at_attempt_number = at_attempt_number (last xs),
                at_started_at = at_started_at (last xs), at_completed_at = Some t,
                at_outcome = outcome, at_failure_code = code,
                at_failure_category = category, at_safe_summary = outcome\<rparr>]) (attempts s)\<rparr>
       else s)"

definition mark_dispatching :: "env \<Rightarrow> outbox_claim \<Rightarrow> outbox_operation rop" where
  "mark_dispatching E c =
     bnd (validate_claim E c) (\<lambda>op.
     bnd (require (o_status op = CLAIMED)
       (InvalidOutboxTransitionError ''Operation is not claimed'')) (\<lambda>_.
     bnd (now E) (\<lambda>t.
     let op' = op\<lparr>o_status := DISPATCHING, o_attempt_count := o_attempt_count op + 1,
                  o_first_attempted_at :=
                    (case o_first_attempted_at op of None \<Rightarrow> Some t | Some f \<Rightarrow> Some f),
                  o_last_attempted_at := Some t\<rparr> in
     bnd (put_operation (c_operation_id c) op') (\<lambda>_.
     bnd (upd (\<lambda>s. s\<lparr>attempts := dset (o_operation_id op)
            (attempts_of s (o_operation_id op) @
              [\<lparr>at_operation_id = o_operation_id op, at_attempt_number = o_attempt_count op',
                at_started_at = t, at_completed_at = None, at_outcome = ''STARTED'',
                at_failure_code = None, at_failure_category = None, at_safe_summary = ''''\<rparr>])
            (attempts s)\<rparr>)) (\<lambda>_.
     ok op')))))"

definition mark_succeeded :: "env \<Rightarrow> outbox_claim \<Rightarrow> string \<Rightarrow> outbox_operation rop" where
  "mark_succeeded E c ref =
     bnd (validate_claim E c) (\<lambda>op.
     if o_status op = SUCCEEDED then ok op
     else
       bnd (require (o_status op = DISPATCHING
             \<or> (o_status op = CLAIMED \<and> o_reconciliation_state op = IN_PROGRESS))
         (InvalidOutboxTransitionError ''Operation is not dispatching'')) (\<lambda>_.
       bnd (now E) (\<lambda>t.
       let op' = clear_claim (op\<lparr>o_status := SUCCEEDED, o_completed_at := Some t,
                    o_result_reference := Some ref, o_reconciliation_state := RESOLVED\<rparr>) in
       bnd (finish_attempt (o_operation_id op) t ''SUCCEEDED'' None None) (\<lambda>_.
       bnd (put_operation (c_operation_id c) op') (\<lambda>_.
       ok op')))))"

definition dead_letter :: "string \<Rightarrow> outbox_operation \<Rightarrow> datetime \<Rightarrow> string \<Rightarrow> outbox_operation rop" where
  "dead_letter k op t reason =
     (let op' = clear_claim (op\<lparr>o_status := DEAD_LETTER, o_dead_letter_reason := Some reason,
                  o_completed_at := Some t\<rparr>) in
      bnd (finish_attempt (o_operation_id op) t ''DEAD_LETTER''
            (o_failure_code op) (o_failure_category op)) (\<lambda>_.
      bnd (put_operation k op') (\<lambda>_. ok op')))"

definition mark_retry_wait ::
    "env \<Rightarrow> outbox_claim \<Rightarrow> failure_category \<Rightarrow> string \<Rightarrow> datetime \<Rightarrow> outbox_operation rop" where
  "mark_retry_wait E c category code available =
     bnd (validate_claim E c) (\<lambda>op.
     bnd (now E) (\<lambda>t.
     let op1 = op\<lparr>o_failure_category := Some category, o_failure_code := Some code\<rparr> in
     if o_maximum_attempts op1 \<le> o_attempt_count op1
     then dead_letter (c_operation_id c) op1 t (''Maximum attempts exhausted: '' @ code)
     else
       let op' = clear_claim (op1\<lparr>o_status := RETRY_WAIT, o_available_at := available,
                   o_retry_after := Some available\<rparr>) in
       bnd (finish_attempt (o_operation_id op) t ''RETRY'' (Some code) (Some category)) (\<lambda>_.
       bnd (put_operation (c_operation_id c) op') (\<lambda>_. ok op'))))"

definition mark_reconciliation_required :: "env \<Rightarrow> outbox_claim \<Rightarrow> string \<Rightarrow> outbox_operation rop" where
  "mark_reconciliation_required E c code =
     bnd (validate_claim E c) (\<lambda>op.
     bnd (now E) (\<lambda>t.
     let op' = clear_claim (op\<lparr>o_status := RECONCILIATION_REQUIRED, o_failure_code := Some code,
                 o_failure_category := Some FC_RECONCILIATION_REQUIRED,
                 o_reconciliation_state := REQUIRED\<rparr>) in
     bnd (finish_attempt (o_operation_id op) t ''UNCERTAIN'' (Some code)
           (Some FC_RECONCILIATION_REQUIRED)) (\<lambda>_.
     bnd (put_operation (c_operation_id c) op') (\<lambda>_. ok op'))))"

definition mark_dead_letter :: "env \<Rightarrow> outbox_claim \<Rightarrow> string \<Rightarrow> outbox_operation rop" where
  "mark_dead_letter E c reason =
     bnd (validate_claim E c) (\<lambda>op.
     bnd (now E) (\<lambda>t. dead_letter (c_operation_id c) op t reason))"

subsection \<open>Operations without a claim\<close>

definition cancel_operation :: "env \<Rightarrow> string \<Rightarrow> outbox_operation rop" where
  "cancel_operation E k =
     bnd (get_operation k) (\<lambda>op.
     bnd (require (o_status op \<in> {PENDING, RETRY_WAIT})
       (InvalidOutboxTransitionError ''Operation cannot be cancelled'')) (\<lambda>_.
     bnd (now E) (\<lambda>t.
     let op' = op\<lparr>o_status := CANCELLED, o_completed_at := Some t\<rparr> in
     bnd (put_operation k op') (\<lambda>_. ok op'))))"

definition abandon_operation :: "env \<Rightarrow> string \<Rightarrow> string \<Rightarrow> outbox_operation rop" where
  "abandon_operation E k reason =
     bnd (get_operation k) (\<lambda>op.
     bnd (require (o_status op \<notin> {CLAIMED, DISPATCHING, SUCCEEDED})
       (InvalidOutboxTransitionError ''Operation cannot be abandoned'')) (\<lambda>_.
     bnd (now E) (\<lambda>t.
     let op' = op\<lparr>o_status := DEAD_LETTER, o_dead_letter_reason := Some reason,
                  o_completed_at := Some t\<rparr> in
     bnd (put_operation k op') (\<lambda>_. ok op'))))"

definition list_attempts :: "string \<Rightarrow> (outbox_attempt list) rop" where
  "list_attempts k = bnd (get_operation k) (\<lambda>_. gets (\<lambda>s. attempts_of s k))"

definition retry_dead_letter :: "env \<Rightarrow> string \<Rightarrow> outbox_operation rop" where
  "retry_dead_letter E k =
     bnd (get_operation k) (\<lambda>op.
     bnd (require (o_status op = DEAD_LETTER)
       (InvalidOutboxTransitionError ''Operation is not dead-lettered'')) (\<lambda>_.
     bnd (now E) (\<lambda>t.
     let op' = op\<lparr>o_status := PENDING, o_available_at := t, o_completed_at := None,
                  o_dead_letter_reason := None\<rparr> in
     bnd (put_operation k op') (\<lambda>_. ok op'))))"

text \<open>\<open>export_state\<close> hands out the five dictionaries; \<open>import_state\<close> takes them back.\<close>

definition export_state :: "repo \<Rightarrow> repo" where
  "export_state s = s"

definition import_state :: "env \<Rightarrow> repo \<Rightarrow> bool \<Rightarrow> unit rop" where
  "import_state E st recover =
     bnd (upd (\<lambda>s. s\<lparr>operations := operations st, attempts := attempts st,
        idempotency := idempotency st, provider_pauses := provider_pauses st,
        audit := audit st\<rparr>)) (\<lambda>_.
     if recover then bnd (recover_expired E) (\<lambda>_. ok ()) else ok ())"

end
