(* ===== verification/Operations.thy ===== *)
theory Operations
  imports Outbox_Repository
begin

section \<open>Operation handlers, idempotency records, result application\<close>

text \<open>
  The package \<^verbatim>\<open>runtime/operations\<close>: \<open>handlers.py\<close> (results of providers, the
  deterministic handler), \<open>registry.py\<close>, \<open>idempotency.py\<close> and \<open>result_application.py\<close>; and the
  providers of \<^verbatim>\<open>runtime/outbox/dispatcher.py\<close>. A provider is a record of its three methods
  over a state of its own; what a well-behaved one promises is the locale \<open>dispatch_provider\<close>.
  \<open>datetime.now\<close> is the wall clock \<open>W\<close>, read like the clock of the repository.
\<close>

subsection \<open>Results of providers\<close>

record dispatch_result =
  dr_operation_id :: "json"
  dr_provider_id :: string
  dr_result_reference :: json
  dr_result_payload :: "(string \<times> json) list"

text \<open>What \<open>provider.dispatch\<close> returned: a result object, or a value of another class.\<close>

datatype dispatch_value = Dispatch_Result dispatch_result | Other_Value

datatype reconciliation_status = NOT_EXECUTED | RC_IN_PROGRESS | RC_SUCCEEDED | FAILED | RC_UNVERIFIABLE

record reconciliation_result =
  rr_status :: reconciliation_status
  rr_dispatch_result :: "dispatch_result option"
  rr_failure_code :: "string option"

datatype reconcile_value = Reconciled_Dispatch dispatch_result | Reconciled reconciliation_result

record 'p provider_methods =
  supports :: "string \<Rightarrow> 'p \<Rightarrow> bool"
  dispatch :: "string \<Rightarrow> (string \<times> json) list \<Rightarrow> string \<Rightarrow> 'p \<Rightarrow> (exn + dispatch_value) \<times> 'p"
  reconcile :: "string \<Rightarrow> 'p \<Rightarrow> (exn + reconcile_value) \<times> 'p"

subsection \<open>Handlers and registries\<close>

record handler =
  h_operation_type :: string
  h_payload_versions :: "int list"
  h_required_capability :: string
  h_provider_idempotency :: bool
  h_timeout_seconds :: int

definition deterministic_handler :: "string \<Rightarrow> handler" where
  "deterministic_handler ty = \<lparr>h_operation_type = ty, h_payload_versions = [1],
     h_required_capability = ''dispatch'', h_provider_idempotency = True, h_timeout_seconds = 30\<rparr>"

definition handler_validate :: "handler \<Rightarrow> outbox_operation \<Rightarrow> exn + unit" where
  "handler_validate h op =
     (if o_payload_schema_version op \<notin> set (h_payload_versions h)
      then Inl (UnsupportedPayloadVersionError ''Unsupported operation payload schema'') else Inr ())"

text \<open>\<open>{**dict(payload), "operation_id": id}\<close>: the payload as a dict, with one more entry.\<close>

fun payload_dict :: "json \<Rightarrow> (string \<times> json) list" where
  "payload_dict (JObj d) = d"
| "payload_dict _ = []"

definition check_dispatch_result :: "outbox_operation \<Rightarrow> dispatch_value \<Rightarrow> exn + dispatch_result" where
  "check_dispatch_result op v =
     (case v of
        Other_Value \<Rightarrow> Inl (ForgedProviderResultError ''Provider result identity is invalid'')
      | Dispatch_Result r \<Rightarrow>
          if dr_operation_id r \<noteq> JStr (o_operation_id op) \<or> dr_provider_id r \<noteq> o_provider_id op
          then Inl (ForgedProviderResultError ''Provider result identity is invalid'')
          else case validate_safe_reference (dr_result_reference r) of
            Inl e \<Rightarrow> Inl (OutboxValidationError e)
          | Inr _ \<Rightarrow>
              (case validate_payload (JObj (dr_result_payload r)) of
                 Inl e \<Rightarrow> Inl (OutboxValidationError e)
               | Inr _ \<Rightarrow> Inr r))"

definition handler_dispatch ::
    "'p provider_methods \<Rightarrow> handler \<Rightarrow> outbox_operation \<Rightarrow> ('p, exn, dispatch_result) sx" where
  "handler_dispatch P h op =
     bnd (of_sum (handler_validate h op)) (\<lambda>_.
     bnd (dispatch P (o_operation_type op)
           (dset ''operation_id'' (JStr (o_operation_id op)) (payload_dict (o_payload op)))
           (o_idempotency_key op)) (\<lambda>v.
     of_sum (check_dispatch_result op v)))"

definition register_handler :: "handler \<Rightarrow> ((string, handler) dict, exn, handler) sx" where
  "register_handler h =
     bnd (gets (\<lambda>d. map_of d (h_operation_type h))) (\<lambda>old.
     bnd (require (old = None) (DuplicateOperationHandlerError (h_operation_type h))) (\<lambda>_.
     bnd (upd (dset (h_operation_type h) h)) (\<lambda>_. ok h)))"

definition get_handler :: "string \<Rightarrow> ((string, handler) dict, exn, handler) sx" where
  "get_handler ty d =
     (case map_of d ty of None \<Rightarrow> (Inl (UnknownOperationHandlerError ty), d) | Some h \<Rightarrow> (Inr h, d))"

definition list_handlers :: "(string, handler) dict \<Rightarrow> handler list" where
  "list_handlers d = map (\<lambda>k. the (map_of d k)) (sort (dkeys d))"

definition default_operation_types :: "string list" where
  "default_operation_types =
     [''ADD_PULL_REQUEST_COMMENT'', ''CANCEL_CODING_AGENT_TASK'', ''COMMIT_GIT_CHANGES'',
      ''CREATE_DRAFT_PULL_REQUEST'', ''CREATE_GIT_BRANCH'', ''FETCH_CI_STATUS'',
      ''PUSH_GIT_BRANCH'', ''SUBMIT_CODING_AGENT_TASK'', ''UPDATE_PULL_REQUEST'']"

fun register_all :: "handler list \<Rightarrow> ((string, handler) dict, exn, unit) sx" where
  "register_all [] = ok ()"
| "register_all (h # hs) = bnd (register_handler h) (\<lambda>_. register_all hs)"

definition default_handler_registry :: "exn + (string, handler) dict" where
  "default_handler_registry =
     (case register_all (map deterministic_handler default_operation_types) [] of
        (Inl e, _) \<Rightarrow> Inl e | (Inr _, d) \<Rightarrow> Inr d)"

text \<open>\<open>ProviderRegistry\<close>.\<close>

definition register_provider :: "string \<Rightarrow> 'p \<Rightarrow> ((string, 'p) dict, exn, 'p) sx" where
  "register_provider pid p =
     bnd (gets (\<lambda>d. pid \<in> set (dkeys d))) (\<lambda>present.
     bnd (require (\<not> present) (ValueError ''Duplicate dispatch provider'')) (\<lambda>_.
     bnd (upd (dset pid p)) (\<lambda>_. ok p)))"

definition get_provider :: "string \<Rightarrow> ((string, 'p) dict, exn, 'p) sx" where
  "get_provider pid d =
     (case map_of d pid of None \<Rightarrow> (Inl (KeyError ''Dispatch provider not found''), d)
      | Some p \<Rightarrow> (Inr p, d))"

subsection \<open>The deterministic provider\<close>

text \<open>An outcome is an exception to raise or any other value, which is skipped.\<close>

record det_provider =
  dp_provider_id :: string
  dp_outcomes :: "exn option list"
  dp_calls :: "(string \<times> string) list"
  dp_results :: "(string, dispatch_result) dict"
  dp_reconciliation :: "(string, reconcile_value) dict"

definition det_supports :: "string \<Rightarrow> det_provider \<Rightarrow> bool" where
  "det_supports cap p \<longleftrightarrow> cap = ''dispatch''"

definition det_result :: "string \<Rightarrow> (string \<times> json) list \<Rightarrow> string \<Rightarrow> dispatch_result" where
  "det_result pid payload key =
     \<lparr>dr_operation_id = (case map_of payload ''operation_id'' of None \<Rightarrow> JNull | Some v \<Rightarrow> v),
      dr_provider_id = pid, dr_result_reference = JStr (pid @ '':'' @ key),
      dr_result_payload = [(''accepted'', JBool True)]\<rparr>"

definition det_dispatch ::
    "string \<Rightarrow> (string \<times> json) list \<Rightarrow> string \<Rightarrow> (det_provider, exn, dispatch_value) sx" where
  "det_dispatch ty payload key =
     bnd (gets (\<lambda>p. map_of (dp_results p) key)) (\<lambda>old.
     case old of
       Some r \<Rightarrow> ok (Dispatch_Result r)
     | None \<Rightarrow>
         bnd (upd (\<lambda>p. p\<lparr>dp_calls := dp_calls p @ [(ty, key)]\<rparr>)) (\<lambda>_.
         bnd (gets dp_outcomes) (\<lambda>outs.
         bnd (case outs of
                [] \<Rightarrow> ok ()
              | x # rest \<Rightarrow>
                  bnd (upd (\<lambda>p. p\<lparr>dp_outcomes := rest\<rparr>)) (\<lambda>_.
                  case x of Some e \<Rightarrow> fail e | None \<Rightarrow> ok ())) (\<lambda>_.
         bnd (gets (\<lambda>p. det_result (dp_provider_id p) payload key)) (\<lambda>r.
         bnd (upd (\<lambda>p. p\<lparr>dp_results := dset key r (dp_results p)\<rparr>)) (\<lambda>_.
         ok (Dispatch_Result r)))))))"

definition det_reconcile :: "string \<Rightarrow> (det_provider, exn, reconcile_value) sx" where
  "det_reconcile key =
     gets (\<lambda>p. case map_of (dp_reconciliation p) key of
       Some v \<Rightarrow> v
     | None \<Rightarrow> Reconciled
         \<lparr>rr_status = (case map_of (dp_results p) key of
              Some _ \<Rightarrow> RC_SUCCEEDED | None \<Rightarrow> NOT_EXECUTED),
          rr_dispatch_result = map_of (dp_results p) key, rr_failure_code = None\<rparr>)"

definition set_reconciliation_result ::
    "string \<Rightarrow> reconcile_value \<Rightarrow> (det_provider, exn, unit) sx" where
  "set_reconciliation_result key v =
     upd (\<lambda>p. p\<lparr>dp_reconciliation := dset key v (dp_reconciliation p)\<rparr>)"

definition det_methods :: "det_provider provider_methods" where
  "det_methods = \<lparr>supports = det_supports, dispatch = det_dispatch, reconcile = det_reconcile\<rparr>"

subsection \<open>Idempotency records and result application\<close>

record applied_result =
  ap_operation_id :: string
  ap_aggregate_id :: string
  ap_aggregate_version :: int
  ap_result_reference :: json
  ap_result :: "(string \<times> json) list"

text \<open>
  The state of \<open>ResultApplicationService\<close> with its \<open>IdempotencyStore\<close> and the number of
  readings of the wall clock. The reference of a completed record is the result's;
  one that is not a string, which only reconciliation lets through, is recorded as empty text.
\<close>

record results =
  rs_records :: "(string, idempotency_record) dict"
  rs_applied :: "(string, applied_result) dict"
  rs_versions :: "(string, int) dict"
  rs_suppressions :: int
  rs_ticks :: nat

definition empty_results :: results where
  "empty_results = \<lparr>rs_records = [], rs_applied = [], rs_versions = [], rs_suppressions = 0, rs_ticks = 0\<rparr>"

definition wall :: "(nat \<Rightarrow> datetime) \<Rightarrow> (results, exn, datetime) sx" where
  "wall W s = (Inr (W (rs_ticks s)), s\<lparr>rs_ticks := Suc (rs_ticks s)\<rparr>)"

definition begin_idempotent ::
    "(string \<Rightarrow> string) \<Rightarrow> (nat \<Rightarrow> datetime) \<Rightarrow> outbox_operation \<Rightarrow> (results, exn, idempotency_record) sx" where
  "begin_idempotent sh W op =
     bnd (gets (\<lambda>s. map_of (rs_records s) (o_idempotency_key op))) (\<lambda>existing.
     let fp = request_fingerprint sh op in
     case existing of
       Some rec \<Rightarrow>
         (if ir_request_fingerprint rec \<noteq> fp
          then fail (IdempotencyConflictError ''Idempotency fingerprint changed'') else ok rec)
     | None \<Rightarrow>
         bnd (wall W) (\<lambda>t.
         let rec = \<lparr>ir_idempotency_key = o_idempotency_key op, ir_operation_id = o_operation_id op,
               ir_provider_id = o_provider_id op, ir_request_fingerprint = fp,
               ir_first_dispatch_at = t, ir_provider_reference = None,
               ir_result_fingerprint = None, ir_completion_time = None, ir_status = ''DISPATCHING''\<rparr> in
         bnd (upd (\<lambda>s. s\<lparr>rs_records := dset (o_idempotency_key op) rec (rs_records s)\<rparr>)) (\<lambda>_.
         ok rec)))"

fun ref_text :: "json \<Rightarrow> string" where
  "ref_text (JStr s) = s"
| "ref_text _ = ''''"

definition result_fingerprint :: "(string \<Rightarrow> string) \<Rightarrow> dispatch_result \<Rightarrow> string" where
  "result_fingerprint sh r = sh (dumps_with '', '' '': '' (JObj (dr_result_payload r)))"

definition complete_idempotent ::
    "(string \<Rightarrow> string) \<Rightarrow> (nat \<Rightarrow> datetime) \<Rightarrow> outbox_operation \<Rightarrow> dispatch_result \<Rightarrow>
     (results, exn, idempotency_record \<times> bool) sx" where
  "complete_idempotent sh W op r =
     bnd (begin_idempotent sh W op) (\<lambda>existing.
     let fp = result_fingerprint sh r in
     if ir_status existing = ''SUCCEEDED''
     then (if ir_result_fingerprint existing \<noteq> Some fp
           then fail (IdempotencyConflictError ''Provider result changed'')
           else ok (existing, False))
     else
       bnd (wall W) (\<lambda>t.
       let rec = existing\<lparr>ir_provider_reference := Some (ref_text (dr_result_reference r)),
             ir_result_fingerprint := Some fp, ir_completion_time := Some t,
             ir_status := ''SUCCEEDED''\<rparr> in
       bnd (upd (\<lambda>s. s\<lparr>rs_records := dset (o_idempotency_key op) rec (rs_records s)\<rparr>)) (\<lambda>_.
       ok (rec, True))))"

definition aggregate_key :: "outbox_operation \<Rightarrow> string" where
  "aggregate_key op = nat_str (length (o_runtime_id op)) @ '':'' @ o_runtime_id op @ '':'' @ o_aggregate_id op"

definition count_suppression :: "(results, exn, unit) sx" where
  "count_suppression = upd (\<lambda>s. s\<lparr>rs_suppressions := rs_suppressions s + 1\<rparr>)"

definition apply_result ::
    "(string \<Rightarrow> string) \<Rightarrow> (nat \<Rightarrow> datetime) \<Rightarrow> outbox_operation \<Rightarrow> dispatch_result \<Rightarrow>
     (results, exn, applied_result option \<times> bool) sx" where
  "apply_result sh W op r =
     bnd (gets (\<lambda>s. map_of (rs_records s) (o_idempotency_key op))) (\<lambda>existing.
     if (case existing of None \<Rightarrow> False | Some rec \<Rightarrow> ir_status rec = ''SUCCEEDED'')
     then
       bnd (complete_idempotent sh W op r) (\<lambda>_.
       bnd count_suppression (\<lambda>_.
       gets (\<lambda>s. (map_of (rs_applied s) (o_idempotency_key op), False))))
     else
       bnd (gets (\<lambda>s. case map_of (rs_versions s) (aggregate_key op) of None \<Rightarrow> 0 | Some v \<Rightarrow> v)) (\<lambda>current.
       bnd (require (current = o_aggregate_version op) (ValueError ''Aggregate version is stale'')) (\<lambda>_.
       bnd (complete_idempotent sh W op r) (\<lambda>(rec, first).
       if \<not> first
       then bnd count_suppression (\<lambda>_.
            gets (\<lambda>s. (map_of (rs_applied s) (o_idempotency_key op), False)))
       else
         let value = \<lparr>ap_operation_id = o_operation_id op, ap_aggregate_id = o_aggregate_id op,
               ap_aggregate_version = o_aggregate_version op,
               ap_result_reference = dr_result_reference r, ap_result = dr_result_payload r\<rparr> in
         bnd (upd (\<lambda>s. s\<lparr>rs_applied := dset (o_idempotency_key op) value (rs_applied s)\<rparr>)) (\<lambda>_.
         bnd (upd (\<lambda>s. s\<lparr>rs_versions := dset (aggregate_key op) (o_aggregate_version op + 1)
                (rs_versions s)\<rparr>)) (\<lambda>_.
         ok (Some value, True)))))))"

text \<open>
  \<open>apply\<close> with \<open>None\<close> for the result, which a provider's reconciliation may report: the checks
  and the record of the dispatch come before the attribute error.
\<close>

definition apply_missing ::
    "(string \<Rightarrow> string) \<Rightarrow> (nat \<Rightarrow> datetime) \<Rightarrow> outbox_operation \<Rightarrow> (results, exn, unit) sx" where
  "apply_missing sh W op =
     bnd (gets (\<lambda>s. map_of (rs_records s) (o_idempotency_key op))) (\<lambda>existing.
     bnd (if (case existing of None \<Rightarrow> False | Some rec \<Rightarrow> ir_status rec = ''SUCCEEDED'') then ok ()
          else bnd (gets (\<lambda>s. case map_of (rs_versions s) (aggregate_key op) of None \<Rightarrow> 0 | Some v \<Rightarrow> v))
            (\<lambda>current. require (current = o_aggregate_version op) (ValueError ''Aggregate version is stale''))) (\<lambda>_.
     bnd (begin_idempotent sh W op) (\<lambda>_. fail (OtherError ''AttributeError''))))"

text \<open>
  \<open>snapshot\<close> and \<open>restore\<close>; the ISO text of a timestamp and its parse are inverse to each other,
  so a timestamp stands for both.
\<close>

definition snapshot_results :: "results \<Rightarrow> results" where
  "snapshot_results s = s\<lparr>rs_ticks := 0\<rparr>"

definition restore_results :: "results \<Rightarrow> (results, exn, unit) sx" where
  "restore_results v = upd (\<lambda>s. v\<lparr>rs_ticks := rs_ticks s\<rparr>)"

end
