(* ===== verification/Outbox_Spec.thy ===== *)
theory Outbox_Spec
  imports Outbox_Repository
begin

section \<open>What the outbox promises: an abstract specification\<close>

text \<open>
  The abstract outbox is a map from identifiers to operations, a history of attempts for each
  identifier, and a map from idempotency keys to fingerprints. It changes by one of three
  kinds of step: one operation moves along its life cycle (\<open>op_change\<close>), a fresh operation is
  added, or every expired claim is recovered. The invariant \<open>spec_inv\<close> of these steps is what
  the rest of the outbox rests on; \<^verbatim>\<open>Outbox_Refinement\<close> proves that every method of the
  repository is a sequence of them.
\<close>

subsection \<open>The life cycle of one operation\<close>

definition live :: "outbox_operation \<Rightarrow> bool" where
  "live op \<longleftrightarrow> o_status op \<in> {CLAIMED, DISPATCHING}"

definition claimed ::
    "outbox_operation \<Rightarrow> string \<Rightarrow> string \<Rightarrow> datetime \<Rightarrow> datetime \<Rightarrow> outbox_operation" where
  "claimed op owner h t e = op\<lparr>o_status := CLAIMED, o_claim_owner := Some owner,
     o_claim_token_hash := Some h, o_claimed_at := Some t, o_claim_expires_at := Some e,
     o_fencing_token := o_fencing_token op + 1\<rparr>"

definition closed :: "outbox_attempt list \<Rightarrow> datetime \<Rightarrow> string \<Rightarrow> string option \<Rightarrow>
    failure_category option \<Rightarrow> outbox_attempt list" where
  "closed xs t outcome c cat =
     (if xs \<noteq> [] \<and> at_completed_at (last xs) = None
      then butlast xs @ [\<lparr>at_operation_id = at_operation_id (last xs),
             at_attempt_number = at_attempt_number (last xs),
             at_started_at = at_started_at (last xs), at_completed_at = Some t,
             at_outcome = outcome, at_failure_code = c,
             at_failure_category = cat, at_safe_summary = outcome\<rparr>]
      else xs)"

definition opened :: "outbox_operation \<Rightarrow> datetime \<Rightarrow> outbox_attempt" where
  "opened op t = \<lparr>at_operation_id = o_operation_id op,
     at_attempt_number = o_attempt_count op + 1, at_started_at = t, at_completed_at = None,
     at_outcome = ''STARTED'', at_failure_code = None, at_failure_category = None,
     at_safe_summary = ''''\<rparr>"

inductive op_change ::
    "outbox_operation \<Rightarrow> outbox_attempt list \<Rightarrow> outbox_operation \<Rightarrow> outbox_attempt list \<Rightarrow> bool" where
  ch_claim: "o_status op \<in> {PENDING, RETRY_WAIT} \<Longrightarrow> op_change op xs (claimed op w h t e) xs"
| ch_claim_reconciliation: "o_status op = RECONCILIATION_REQUIRED \<Longrightarrow>
    op_change op xs (claimed (op\<lparr>o_reconciliation_state := IN_PROGRESS\<rparr>) w h t e) xs"
| ch_renew: "live op \<Longrightarrow> op_change op xs (op\<lparr>o_claim_expires_at := Some e\<rparr>) xs"
| ch_release: "o_status op = CLAIMED \<Longrightarrow>
    op_change op xs ((clear_claim op)\<lparr>o_status := PENDING\<rparr>) xs"
| ch_dispatch: "o_status op = CLAIMED \<Longrightarrow>
    op_change op xs
      (op\<lparr>o_status := DISPATCHING, o_attempt_count := o_attempt_count op + 1,
          o_first_attempted_at :=
            (case o_first_attempted_at op of None \<Rightarrow> Some t | Some f \<Rightarrow> Some f),
          o_last_attempted_at := Some t\<rparr>)
      (xs @ [opened op t])"
| ch_succeed: "o_status op = DISPATCHING
      \<or> (o_status op = CLAIMED \<and> o_reconciliation_state op = IN_PROGRESS) \<Longrightarrow>
    op_change op xs
      (clear_claim (op\<lparr>o_status := SUCCEEDED, o_completed_at := Some t,
         o_result_reference := Some ref, o_reconciliation_state := RESOLVED\<rparr>))
      (closed xs t ''SUCCEEDED'' None None)"
| ch_retry: "live op \<Longrightarrow> o_attempt_count op < o_maximum_attempts op \<Longrightarrow>
    op_change op xs
      (clear_claim (op\<lparr>o_failure_category := Some cat, o_failure_code := Some c,
         o_status := RETRY_WAIT, o_available_at := a, o_retry_after := Some a\<rparr>))
      (closed xs t ''RETRY'' (Some c) (Some cat))"
| ch_uncertain: "live op \<Longrightarrow>
    op_change op xs
      (clear_claim (op\<lparr>o_status := RECONCILIATION_REQUIRED, o_failure_code := Some c,
         o_failure_category := Some FC_RECONCILIATION_REQUIRED,
         o_reconciliation_state := REQUIRED\<rparr>))
      (closed xs t ''UNCERTAIN'' (Some c) (Some FC_RECONCILIATION_REQUIRED))"
| ch_dead: "live op \<Longrightarrow>
    op_change op xs
      (clear_claim (op\<lparr>o_failure_category := cat, o_failure_code := c,
         o_status := DEAD_LETTER, o_dead_letter_reason := Some why, o_completed_at := Some t\<rparr>))
      (closed xs t ''DEAD_LETTER'' c cat)"
| ch_cancel: "o_status op \<in> {PENDING, RETRY_WAIT} \<Longrightarrow>
    op_change op xs (op\<lparr>o_status := CANCELLED, o_completed_at := Some t\<rparr>) xs"
| ch_abandon: "o_status op \<notin> {CLAIMED, DISPATCHING, SUCCEEDED} \<Longrightarrow>
    op_change op xs (op\<lparr>o_status := DEAD_LETTER, o_dead_letter_reason := Some why,
      o_completed_at := Some t\<rparr>) xs"
| ch_requeue: "o_status op = DEAD_LETTER \<Longrightarrow>
    op_change op xs (op\<lparr>o_status := PENDING, o_available_at := t, o_completed_at := None,
      o_dead_letter_reason := None\<rparr>) xs"
| ch_note: "op_change op xs (op\<lparr>o_failure_category := cat, o_failure_code := c\<rparr>) xs"
| ch_resolved: "op_change op xs (op\<lparr>o_reconciliation_state := r\<rparr>) xs"

text \<open>The identity of an operation: the fields no step may change.\<close>

definition identity :: "outbox_operation \<Rightarrow> string list \<times> string option list \<times> json \<times> int list \<times> datetime" where
  "identity op =
     ([o_operation_id op, o_runtime_id op, o_project_id op, o_task_id op, o_work_item_id op,
       o_operation_type op, o_provider_id op, o_aggregate_id op, o_idempotency_key op],
      [o_correlation_id op, o_causation_id op], o_payload op,
      [o_aggregate_version op, o_payload_schema_version op, o_priority op, o_maximum_attempts op],
      o_created_at op)"

lemmas op_fields = claimed_def clear_claim_def identity_def live_def

lemma op_change_identity: "op_change op xs op' xs' \<Longrightarrow> identity op' = identity op"
  by (induction rule: op_change.induct) (simp_all add: op_fields)

lemma op_change_fencing: "op_change op xs op' xs' \<Longrightarrow> o_fencing_token op \<le> o_fencing_token op'"
  by (induction rule: op_change.induct) (simp_all add: op_fields)

lemma op_change_attempts: "op_change op xs op' xs' \<Longrightarrow> o_attempt_count op \<le> o_attempt_count op'"
  by (induction rule: op_change.induct) (simp_all add: op_fields)

text \<open>Success is final: neither the status nor the recorded result changes again.\<close>

lemma op_change_succeeded:
  "op_change op xs op' xs' \<Longrightarrow> o_status op = SUCCEEDED \<Longrightarrow>
     o_status op' = SUCCEEDED \<and> o_result_reference op' = o_result_reference op
     \<and> o_completed_at op' = o_completed_at op \<and> xs' = xs"
  by (induction rule: op_change.induct) (auto simp: op_fields)

subsection \<open>The invariant of one operation\<close>

definition numbered :: "string \<Rightarrow> outbox_attempt list \<Rightarrow> bool" where
  "numbered k xs \<longleftrightarrow>
     (\<forall>i < length xs. at_attempt_number (xs ! i) = int i + 1 \<and> at_operation_id (xs ! i) = k)"

lemma numbered_Nil [simp]: "numbered k []"
  by (simp add: numbered_def)

lemma numbered_snoc:
  "numbered k (xs @ [x]) \<longleftrightarrow>
     numbered k xs \<and> at_attempt_number x = int (length xs) + 1 \<and> at_operation_id x = k"
  by (auto simp: numbered_def nth_append less_Suc_eq)

lemma closed_length [simp]: "length (closed xs t oc c cat) = length xs"
  by (simp add: closed_def)

lemma closed_numbered [simp]: "numbered k (closed xs t oc c cat) = numbered k xs"
proof (cases xs rule: rev_cases)
  case Nil
  then show ?thesis by (simp add: closed_def)
next
  case (snoc ys y)
  then show ?thesis by (simp add: closed_def numbered_snoc)
qed

text \<open>
  A claim is held exactly in the statuses \<open>CLAIMED\<close> and \<open>DISPATCHING\<close>; the attempts are
  numbered from one; every attempt was made under a claim of its own (\<open>attempt_count\<close> is at
  most the fencing token, and below it while a claim has not dispatched yet); an operation in
  dispatch has an open attempt; a finished one has its completion time, a successful one its
  result.
\<close>

definition claim_held :: "outbox_operation \<Rightarrow> bool" where
  "claim_held op \<longleftrightarrow> o_claim_expires_at op \<noteq> None \<and> o_claim_owner op \<noteq> None
     \<and> o_claim_token_hash op \<noteq> None \<and> o_claimed_at op \<noteq> None"

definition claim_free :: "outbox_operation \<Rightarrow> bool" where
  "claim_free op \<longleftrightarrow> o_claim_expires_at op = None \<and> o_claim_owner op = None
     \<and> o_claim_token_hash op = None \<and> o_claimed_at op = None"

definition op_inv :: "string \<Rightarrow> outbox_operation \<Rightarrow> outbox_attempt list \<Rightarrow> bool" where
  "op_inv k op xs \<longleftrightarrow>
     o_operation_id op = k
     \<and> (live op \<longrightarrow> claim_held op) \<and> (\<not> live op \<longrightarrow> claim_free op)
     \<and> o_attempt_count op = int (length xs) \<and> numbered k xs
     \<and> int (length xs) \<le> o_fencing_token op
     \<and> (o_status op = CLAIMED \<longrightarrow> int (length xs) < o_fencing_token op)
     \<and> (o_status op = DISPATCHING \<longrightarrow> xs \<noteq> [] \<and> at_completed_at (last xs) = None)
     \<and> (o_status op \<in> {SUCCEEDED, DEAD_LETTER, CANCELLED} \<longrightarrow> o_completed_at op \<noteq> None)
     \<and> (o_status op = SUCCEEDED \<longrightarrow> o_result_reference op \<noteq> None)"

lemmas inv_fields = claimed_def clear_claim_def live_def opened_def claim_held_def claim_free_def

lemma op_change_inv: "op_change op xs op' xs' \<Longrightarrow> op_inv k op xs \<Longrightarrow> op_inv k op' xs'"
proof (induction rule: op_change.induct)
  case (ch_note op xs cat c)
  then show ?case by (simp add: op_inv_def inv_fields)
next
  case (ch_cancel op xs t)
  then show ?case by (cases "o_status op") (simp_all add: op_inv_def inv_fields)
next
  case (ch_resolved op xs r)
  then show ?case by (simp add: op_inv_def inv_fields)
qed (simp_all add: op_inv_def inv_fields numbered_snoc)

text \<open>What a new operation looks like, and that it satisfies the invariant.\<close>

definition fresh :: "outbox_operation \<Rightarrow> bool" where
  "fresh op \<longleftrightarrow> o_status op = PENDING \<and> o_attempt_count op = 0 \<and> o_fencing_token op = 0
     \<and> o_claim_owner op = None \<and> o_claim_token_hash op = None \<and> o_claimed_at op = None
     \<and> o_claim_expires_at op = None \<and> o_completed_at op = None"

lemma fresh_inv: "fresh op \<Longrightarrow> op_inv (o_operation_id op) op []"
  by (simp add: fresh_def op_inv_def inv_fields)

text \<open>Recovery of an expired claim is a change of the life cycle as well.\<close>

lemma recover_one_cases:
  obtains "recover_one t op = op" "\<not> claim_expired t op"
  | "o_status op = CLAIMED" "claim_expired t op"
    "recover_one t op = (clear_claim op)\<lparr>o_status := PENDING\<rparr>"
  | "o_status op = DISPATCHING" "claim_expired t op"
    "recover_one t op = (clear_claim op)\<lparr>o_status := RECONCILIATION_REQUIRED,
       o_reconciliation_state := REQUIRED\<rparr>"
proof (cases "claim_expired t op")
  case True
  then consider "o_status op = CLAIMED" | "o_status op = DISPATCHING"
    unfolding claim_expired_def by blast
  then show ?thesis
  proof cases
    case 1
    with True have "recover_one t op = (clear_claim op)\<lparr>o_status := PENDING\<rparr>"
      by (simp add: recover_one_def clear_claim_def)
    with True 1 that(2) show ?thesis by blast
  next
    case 2
    with True have "recover_one t op = (clear_claim op)\<lparr>o_status := RECONCILIATION_REQUIRED,
       o_reconciliation_state := REQUIRED\<rparr>"
      by (simp add: recover_one_def clear_claim_def)
    with True 2 that(3) show ?thesis by blast
  qed
next
  case False
  then have "recover_one t op = op" by (simp add: recover_one_def)
  with False that(1) show ?thesis by blast
qed

lemma recover_one_inv:
  assumes "op_inv k op xs"
  shows "op_inv k (recover_one t op) xs"
proof (cases rule: recover_one_cases[of t op])
  case 1
  then show ?thesis using assms by simp
next
  case 2
  have "op_inv k ((clear_claim op)\<lparr>o_status := PENDING\<rparr>) xs"
    using assms by (simp add: op_inv_def inv_fields)
  then show ?thesis by (simp only: 2(3))
next
  case 3
  have "op_inv k ((clear_claim op)\<lparr>o_status := RECONCILIATION_REQUIRED,
      o_reconciliation_state := REQUIRED\<rparr>) xs"
    using assms by (simp add: op_inv_def inv_fields)
  then show ?thesis by (simp only: 3(3))
qed

lemma recover_one_same [simp]:
  "identity (recover_one t op) = identity op"
  "o_fencing_token (recover_one t op) = o_fencing_token op"
  "o_attempt_count (recover_one t op) = o_attempt_count op"
  "o_operation_id (recover_one t op) = o_operation_id op"
  by (simp_all add: recover_one_def identity_def clear_claim_def)

lemma recover_one_succeeded: "o_status op = SUCCEEDED \<Longrightarrow> recover_one t op = op"
  by (simp add: recover_one_def claim_expired_def)

subsection \<open>The abstract outbox\<close>

record spec =
  a_ops :: "string \<Rightarrow> outbox_operation option"
  a_attempts :: "string \<Rightarrow> outbox_attempt list"
  a_keys :: "string \<Rightarrow> string option"

inductive spec_step :: "(string \<Rightarrow> string) \<Rightarrow> spec \<Rightarrow> spec \<Rightarrow> bool" for sh where
  sp_change: "a_ops a k = Some op \<Longrightarrow> op_change op (a_attempts a k) op' xs' \<Longrightarrow>
    spec_step sh a (a\<lparr>a_ops := (a_ops a)(k \<mapsto> op'), a_attempts := (a_attempts a)(k := xs')\<rparr>)"
| sp_add: "a_ops a (o_operation_id op) = None \<Longrightarrow> fresh op \<Longrightarrow>
    \<not> truthy (a_keys a (o_idempotency_key op)) \<Longrightarrow>
    spec_step sh a (a\<lparr>a_ops := (a_ops a)(o_operation_id op \<mapsto> op),
      a_keys := (a_keys a)(o_idempotency_key op \<mapsto> request_fingerprint sh op)\<rparr>)"
| sp_recover: "spec_step sh a (a\<lparr>a_ops := (\<lambda>k. map_option (recover_one t) (a_ops a k))\<rparr>)"

definition spec_init :: spec where
  "spec_init = \<lparr>a_ops = (\<lambda>_. None), a_attempts = (\<lambda>_. []), a_keys = (\<lambda>_. None)\<rparr>"

definition spec_inv :: "(string \<Rightarrow> string) \<Rightarrow> spec \<Rightarrow> bool" where
  "spec_inv sh a \<longleftrightarrow>
     (\<forall>k. a_ops a k = None \<longrightarrow> a_attempts a k = [])
     \<and> (\<forall>k op. a_ops a k = Some op \<longrightarrow> op_inv k op (a_attempts a k)
          \<and> a_keys a (o_idempotency_key op) = Some (request_fingerprint sh op))
     \<and> (\<forall>k k' op op'. a_ops a k = Some op \<longrightarrow> a_ops a k' = Some op' \<longrightarrow>
          o_idempotency_key op = o_idempotency_key op' \<longrightarrow> k = k')"

lemma identity_key:
  assumes "identity op' = identity op"
  shows "o_idempotency_key op' = o_idempotency_key op"
    and "request_fingerprint sh op' = request_fingerprint sh op"
    and "o_operation_id op' = o_operation_id op"
  using assms by (simp_all add: identity_def request_fingerprint_def fingerprint_value_def)

lemma spec_invD:
  assumes "spec_inv sh a" and "a_ops a k = Some op"
  shows "op_inv k op (a_attempts a k)"
    and "a_keys a (o_idempotency_key op) = Some (request_fingerprint sh op)"
  using assms unfolding spec_inv_def by auto

lemma spec_inv_uniq:
  "spec_inv sh a \<Longrightarrow> a_ops a k = Some op \<Longrightarrow> a_ops a k' = Some op' \<Longrightarrow>
     o_idempotency_key op = o_idempotency_key op' \<Longrightarrow> k = k'"
  unfolding spec_inv_def by blast

lemma spec_init_inv: "spec_inv sh spec_init"
  by (simp add: spec_inv_def spec_init_def)

lemma spec_inv_change:
  assumes inv: "spec_inv sh a" and k: "a_ops a k = Some op"
    and ch: "op_change op (a_attempts a k) op' xs'"
  shows "spec_inv sh (a\<lparr>a_ops := (a_ops a)(k \<mapsto> op'), a_attempts := (a_attempts a)(k := xs')\<rparr>)"
proof -
  note same = identity_key[OF op_change_identity[OF ch]]
  have "op_inv k op' xs'" using op_change_inv[OF ch spec_invD(1)[OF inv k]] .
  then show ?thesis
    using inv k spec_invD(2)[OF inv k] unfolding spec_inv_def
    by (simp add: same) (metis option.distinct(1))
qed

lemma spec_inv_add:
  assumes inv: "spec_inv sh a" and new: "a_ops a (o_operation_id op) = None" and f: "fresh op"
    and free: "\<not> truthy (a_keys a (o_idempotency_key op))" and hash: "\<And>x. sh x \<noteq> ''''"
  shows "spec_inv sh (a\<lparr>a_ops := (a_ops a)(o_operation_id op \<mapsto> op),
      a_keys := (a_keys a)(o_idempotency_key op \<mapsto> request_fingerprint sh op)\<rparr>)"
proof -
  have other: "o_idempotency_key op' \<noteq> o_idempotency_key op" if "a_ops a k = Some op'" for k op'
    using spec_invD(2)[OF inv that] free hash
    by (auto simp: truthy_def request_fingerprint_def)
  have "a_attempts a (o_operation_id op) = []"
    using inv new unfolding spec_inv_def by blast
  with inv new fresh_inv[OF f] other other[symmetric] show ?thesis
    unfolding spec_inv_def by simp
qed

lemma spec_inv_recover:
  assumes inv: "spec_inv sh a"
  shows "spec_inv sh (a\<lparr>a_ops := (\<lambda>k. map_option (recover_one t) (a_ops a k))\<rparr>)"
  using inv unfolding spec_inv_def
  by (fastforce simp: recover_one_inv identity_key[OF recover_one_same(1)])

theorem spec_step_inv:
  assumes "\<And>x. sh x \<noteq> ''''"
  shows "spec_step sh a b \<Longrightarrow> spec_inv sh a \<Longrightarrow> spec_inv sh b"
  by (induction rule: spec_step.induct)
    (simp_all add: spec_inv_change spec_inv_add spec_inv_recover assms)

text \<open>
  What holds across any sequence of steps: an operation is never lost, its identity never
  changes, its fencing token and attempt count never go down, success is never undone.
\<close>

definition op_le :: "outbox_operation \<Rightarrow> outbox_operation \<Rightarrow> bool" where
  "op_le op op' \<longleftrightarrow> identity op' = identity op \<and> o_fencing_token op \<le> o_fencing_token op'
     \<and> o_attempt_count op \<le> o_attempt_count op'
     \<and> (o_status op = SUCCEEDED \<longrightarrow> o_status op' = SUCCEEDED
          \<and> o_result_reference op' = o_result_reference op
          \<and> o_completed_at op' = o_completed_at op)"

lemma op_le_refl [simp]: "op_le op op"
  by (simp add: op_le_def)

lemma op_le_trans: "op_le a b \<Longrightarrow> op_le b c \<Longrightarrow> op_le a c"
  by (auto simp: op_le_def)

lemma op_change_le: "op_change op xs op' xs' \<Longrightarrow> op_le op op'"
  using op_change_identity op_change_fencing op_change_attempts op_change_succeeded
  by (auto simp: op_le_def)

lemma recover_one_le: "op_le op (recover_one t op)"
  by (simp add: op_le_def recover_one_succeeded)

lemma spec_step_le:
  "spec_step sh a b \<Longrightarrow> a_ops a k = Some op \<Longrightarrow> \<exists>op'. a_ops b k = Some op' \<and> op_le op op'"
  by (induction rule: spec_step.induct) (auto simp: op_change_le recover_one_le)

lemma spec_steps_le:
  assumes "(spec_step sh)\<^sup>*\<^sup>* a b" and "a_ops a k = Some op"
  shows "\<exists>op'. a_ops b k = Some op' \<and> op_le op op'"
  using assms
proof (induction rule: rtranclp_induct)
  case base
  then show ?case by simp
next
  case (step y z)
  then show ?case by (meson spec_step_le op_le_trans)
qed

lemma spec_steps_inv:
  assumes "\<And>x. sh x \<noteq> ''''" and "(spec_step sh)\<^sup>*\<^sup>* a b" and "spec_inv sh a"
  shows "spec_inv sh b"
  using assms(2,3) by (induction rule: rtranclp_induct) (simp_all add: spec_step_inv[OF assms(1)])

end
