(* ===== verification/Fencing.thy ===== *)
theory Fencing
  imports Prelude
begin

section \<open>The contract of fencing tokens\<close>

text \<open>
  Outbox claims and database leases are both protected by a fencing token: a counter kept with
  the protected object, raised by every grant and never lowered, that the holder of a grant
  has to present. This theory states that contract as a locale and proves once what it gives:
  a grant that was superseded is refused for ever, and two grants accepted in the same state
  carry the same token.
\<close>

locale fenced =
  fixes step :: "'s \<Rightarrow> 's \<Rightarrow> bool"
    and inv :: "'s \<Rightarrow> bool"
    and token :: "'s \<Rightarrow> 'k \<Rightarrow> int option"
    and accepts :: "'s \<Rightarrow> 'c \<Rightarrow> bool"
    and subj :: "'c \<Rightarrow> 'k"
    and fence :: "'c \<Rightarrow> int"
  assumes step_inv: "inv s \<Longrightarrow> step s t \<Longrightarrow> inv t"
    and step_token: "inv s \<Longrightarrow> step s t \<Longrightarrow> token s k = Some n \<Longrightarrow> \<exists>m \<ge> n. token t k = Some m"
    and accepts_token: "inv s \<Longrightarrow> accepts s c \<Longrightarrow> token s (subj c) = Some (fence c)"
begin

lemma steps_keep_inv: "step\<^sup>*\<^sup>* s t \<Longrightarrow> inv s \<Longrightarrow> inv t"
  by (induction rule: rtranclp_induct) (auto intro: step_inv)

lemma steps_token:
  "step\<^sup>*\<^sup>* s t \<Longrightarrow> inv s \<Longrightarrow> token s k = Some n \<Longrightarrow> \<exists>m \<ge> n. token t k = Some m"
proof (induction rule: rtranclp_induct)
  case base
  then show ?case by auto
next
  case (step y z)
  then obtain m where "m \<ge> n" "token y k = Some m" by auto
  moreover from this obtain m' where "m' \<ge> m" "token z k = Some m'"
    using step_token steps_keep_inv[OF step.hyps(1) step.prems(1)] step.hyps(2) by blast
  ultimately show ?case by (intro exI[of _ m']) simp
qed

lemma superseded_refused:
  assumes "inv s" and "token s (subj c) = Some n" and "fence c < n" and "step\<^sup>*\<^sup>* s t"
  shows "\<not> accepts t c"
  using steps_token[OF assms(4,1,2)] accepts_token[OF steps_keep_inv[OF assms(4,1)], of c] assms(3)
  by auto

lemma one_token: "inv s \<Longrightarrow> accepts s c \<Longrightarrow> accepts s d \<Longrightarrow> subj c = subj d \<Longrightarrow> fence c = fence d"
  using accepts_token[of s c] accepts_token[of s d] by simp

text \<open>A grant made later on the same object retires every grant made before.\<close>

lemma later_grant_retires:
  assumes "inv s1" and "token s1 (subj c) = Some (fence c)"
    and "step\<^sup>*\<^sup>* s1 s2" and "token s2 (subj c) = Some n" and "step\<^sup>*\<^sup>* s2 s3"
    and "token s3 (subj c) = Some m" and "n < m" and "step\<^sup>*\<^sup>* s3 s4"
  shows "\<not> accepts s4 c"
proof -
  have "fence c \<le> n" using steps_token[OF assms(3,1,2)] assms(4) by auto
  moreover have "inv s3" using steps_keep_inv assms(1,3,5) by blast
  ultimately show ?thesis using superseded_refused assms(6-8) by auto
qed

end

end
