(* ===== verification/Outbox_Refinement.thy ===== *)
theory Outbox_Refinement
  imports Outbox_Spec Fencing
begin

section \<open>The repository implements the abstract outbox\<close>

text \<open>
  Every method of \<open>InMemoryOutboxRepository\<close>, on its returning and on its raising paths, is a
  sequence of steps of \<^verbatim>\<open>Outbox_Spec\<close> between the abstractions of the states before and after
  (\<open>refines\<close>). The invariant and the monotonicity of the abstract outbox carry over to every
  history of calls (\<open>reachable\<close>), whoever makes them and whatever claims they present.
\<close>

definition abs_repo :: "repo \<Rightarrow> spec" where
  "abs_repo s = \<lparr>a_ops = map_of (operations s), a_attempts = attempts_of s,
     a_keys = map_of (idempotency s)\<rparr>"

lemma abs_repo_sel [simp]:
  "a_ops (abs_repo s) = map_of (operations s)" "a_attempts (abs_repo s) = attempts_of s"
  "a_keys (abs_repo s) = map_of (idempotency s)"
  by (simp_all add: abs_repo_def)

definition repo_inv :: "env \<Rightarrow> repo \<Rightarrow> bool" where
  "repo_inv E s \<longleftrightarrow> distinct (dkeys (operations s)) \<and> spec_inv (sha E) (abs_repo s)"

definition steps :: "env \<Rightarrow> repo \<Rightarrow> repo \<Rightarrow> bool" where
  "steps E s t \<longleftrightarrow> (spec_step (sha E))\<^sup>*\<^sup>* (abs_repo s) (abs_repo t)
     \<and> (distinct (dkeys (operations s)) \<longrightarrow> distinct (dkeys (operations t)))"

lemma steps_refl [simp]: "steps E s s"
  by (simp add: steps_def)

lemma steps_trans: "steps E s t \<Longrightarrow> steps E t u \<Longrightarrow> steps E s u"
  by (auto simp: steps_def)

lemma steps_idle:
  "operations t = operations s \<Longrightarrow> attempts t = attempts s \<Longrightarrow> idempotency t = idempotency s \<Longrightarrow>
     steps E s t"
  by (simp add: steps_def abs_repo_def attempts_of_def[abs_def])

lemma steps_change:
  assumes "map_of (operations s) k = Some op" and "op_change op (attempts_of s k) op' xs'"
    and "operations t = dset k op' (operations s)" and "attempts_of t = (attempts_of s)(k := xs')"
    and "idempotency t = idempotency s"
  shows "steps E s t"
proof -
  have "abs_repo t = (abs_repo s)\<lparr>a_ops := (a_ops (abs_repo s))(k \<mapsto> op'),
      a_attempts := (a_attempts (abs_repo s))(k := xs')\<rparr>"
    using assms by (simp add: abs_repo_def)
  then have "spec_step (sha E) (abs_repo s) (abs_repo t)"
    using sp_change[of "abs_repo s" k op op' xs'] assms(1,2) by simp
  then show ?thesis using assms(3) by (simp add: steps_def)
qed

subsection \<open>What the building blocks do\<close>

lemma attempts_of_ticks [simp]:
  "attempts_of (s\<lparr>ticks := n\<rparr>) = attempts_of s" "attempts_of (s\<lparr>draws := n\<rparr>) = attempts_of s"
  "attempts_of (s\<lparr>operations := d\<rparr>) = attempts_of s"
  by (simp_all add: attempts_of_def[abs_def])

lemma attempts_of_set [simp]:
  "attempts_of (t\<lparr>attempts := dset k xs (attempts s)\<rparr>) = (attempts_of s)(k := xs)"
  by (rule ext) (simp add: attempts_of_def)

lemma attempts_of_same [simp]: "(attempts_of s)(k := attempts_of s k) = attempts_of s"
  by simp

lemma get_operation_run:
  "get_operation k s = (case map_of (operations s) k of
     None \<Rightarrow> (Inl (OutboxOperationNotFoundError k), s) | Some op \<Rightarrow> (Inr op, s))"
  by (simp add: get_operation_def)

text \<open>
  A claim operation runs its body on the operation the claim names exactly when the claim is
  accepted; otherwise only the clock has been read.
\<close>

lemma with_claim_run:
  "bnd (validate_claim E c) f s =
     (case map_of (operations s) (c_operation_id c) of
        None \<Rightarrow> (Inl (OutboxOperationNotFoundError (c_operation_id c)), s)
      | Some op \<Rightarrow>
          (case claim_error E (clock E (ticks s)) c op of
             Some e \<Rightarrow> (Inl e, s\<lparr>ticks := Suc (ticks s)\<rparr>)
           | None \<Rightarrow> f op (s\<lparr>ticks := Suc (ticks s)\<rparr>)))"
  by (simp add: validate_claim_def get_operation_def now_def bnd_def sx_defs split: option.splits)

lemma claim_error_None_live:
  "claim_error E t c op = None \<Longrightarrow> op_inv k op xs \<Longrightarrow> live op"
  by (auto simp: claim_error_def op_inv_def claim_free_def split: option.splits if_splits)

lemma finish_attempt_run:
  "\<exists>s'. finish_attempt k t oc c cat s = (Inr (), s') \<and> operations s' = operations s
     \<and> attempts_of s' = (attempts_of s)(k := closed (attempts_of s k) t oc c cat)
     \<and> idempotency s' = idempotency s"
  by (auto simp: finish_attempt_def upd_def Let_def closed_def)

lemma with_finish_attempt:
  assumes "bnd (finish_attempt k t oc c cat) f s = (r, u)"
  obtains s' where "f () s' = (r, u)" and "operations s' = operations s"
    and "attempts_of s' = (attempts_of s)(k := closed (attempts_of s k) t oc c cat)"
    and "idempotency s' = idempotency s"
  using assms finish_attempt_run[of k t oc c cat s] by (auto simp: bnd_def)

lemma finish_put_run:
  "bnd (finish_attempt k t oc x y) (\<lambda>_. bnd (put_operation j op') (\<lambda>_. ok z)) s =
     (Inr z, let v = snd (finish_attempt k t oc x y s) in v\<lparr>operations := dset j op' (operations v)\<rparr>)"
  using finish_attempt_run[of k t oc x y s]
  by (auto simp: bnd_def put_operation_def upd_def ok_def Let_def)

lemma repo_invD:
  assumes "repo_inv E s" and "map_of (operations s) k = Some op"
  shows "op_inv k op (attempts_of s k)" and "o_operation_id op = k"
  using spec_invD(1)[of "sha E" "abs_repo s" k op] assms by (auto simp: repo_inv_def op_inv_def)

text \<open>The values of the dictionary are the operations its keys name.\<close>

lemma repo_inv_vals:
  assumes "repo_inv E s" and "op \<in> set (dvals (operations s))"
  shows "map_of (operations s) (o_operation_id op) = Some op"
proof -
  obtain k where "(k, op) \<in> set (operations s)" using assms(2) by auto
  then have "map_of (operations s) k = Some op" using assms(1) by (simp add: repo_inv_def)
  then show ?thesis using repo_invD(2)[OF assms(1)] by blast
qed

subsection \<open>Each method refines the specification\<close>

definition refines :: "env \<Rightarrow> 'a rop \<Rightarrow> bool" where
  "refines E m \<longleftrightarrow> (\<forall>s r t. repo_inv E s \<longrightarrow> m s = (r, t) \<longrightarrow> steps E s t)"

lemma refinesI: "(\<And>s r t. repo_inv E s \<Longrightarrow> m s = (r, t) \<Longrightarrow> steps E s t) \<Longrightarrow> refines E m"
  by (auto simp: refines_def)

lemma refinesD: "refines E m \<Longrightarrow> m s = (r, t) \<Longrightarrow> repo_inv E s \<Longrightarrow> steps E s t"
  by (auto simp: refines_def)

text \<open>The rule for the operations that present a claim.\<close>

lemma refines_with_claim:
  assumes "\<And>s op r t. repo_inv E s \<Longrightarrow> map_of (operations s) (c_operation_id c) = Some op \<Longrightarrow>
    op_inv (c_operation_id c) op (attempts_of s (c_operation_id c)) \<Longrightarrow> live op \<Longrightarrow>
    f op s = (r, t) \<Longrightarrow> steps E s t"
  shows "refines E (bnd (validate_claim E c) f)"
proof (rule refinesI)
  fix s r t
  assume inv: "repo_inv E s" and run: "bnd (validate_claim E c) f s = (r, t)"
  let ?s = "s\<lparr>ticks := Suc (ticks s)\<rparr>"
  have inv': "repo_inv E ?s" using inv by (simp add: repo_inv_def abs_repo_def)
  have idle: "steps E s ?s" by (rule steps_idle) simp_all
  show "steps E s t"
  proof (cases "map_of (operations s) (c_operation_id c)")
    case None
    then show ?thesis using run by (simp add: with_claim_run)
  next
    case (Some op)
    show ?thesis
    proof (cases "claim_error E (clock E (ticks s)) c op")
      case None
      then have "f op ?s = (r, t)" using run Some by (simp add: with_claim_run)
      moreover have "live op"
        using claim_error_None_live[OF None] repo_invD(1)[OF inv Some] by blast
      ultimately have "steps E ?s t"
        using assms[OF inv'] Some repo_invD(1)[OF inv Some] by simp
      then show ?thesis using idle steps_trans by blast
    next
      case (Some e)
      then show ?thesis
        using run \<open>map_of (operations s) (c_operation_id c) = Some op\<close> idle
        by (simp add: with_claim_run)
    qed
  qed
qed

lemmas run_defs = bnd_def now_def draw_def put_operation_def sx_defs

lemma refines_renew: "refines E (renew_claim E c ttl)"
  unfolding renew_claim_def
  by (rule refines_with_claim, rule steps_change[OF _ ch_renew]) (auto simp: run_defs)

lemma refines_release: "refines E (release_claim E c)"
  unfolding release_claim_def
proof (rule refines_with_claim)
  fix s op r t
  assume op: "map_of (operations s) (c_operation_id c) = Some op"
    and run: "bnd (require (o_status op = CLAIMED)
        (InvalidOutboxTransitionError ''Only claimed operation can release''))
      (\<lambda>_. put_operation (c_operation_id c) (clear_claim op\<lparr>o_status := PENDING\<rparr>)) s = (r, t)"
  show "steps E s t"
  proof (cases "o_status op = CLAIMED")
    case True
    then show ?thesis
      using op run by (intro steps_change[OF op ch_release]) (auto simp: run_defs)
  next
    case False
    then show ?thesis using run by (auto simp: run_defs)
  qed
qed

lemma refines_mark_dispatching: "refines E (mark_dispatching E c)"
  unfolding mark_dispatching_def
proof (rule refines_with_claim)
  fix s op r t
  let ?k = "c_operation_id c"
  assume op: "map_of (operations s) ?k = Some op" and inv: "op_inv ?k op (attempts_of s ?k)"
    and run: "bnd (require (o_status op = CLAIMED)
        (InvalidOutboxTransitionError ''Operation is not claimed'')) (\<lambda>_.
      bnd (now E) (\<lambda>t.
      let op' = op\<lparr>o_status := DISPATCHING, o_attempt_count := o_attempt_count op + 1,
                  o_first_attempted_at :=
                    (case o_first_attempted_at op of None \<Rightarrow> Some t | Some f \<Rightarrow> Some f),
                  o_last_attempted_at := Some t\<rparr> in
      bnd (put_operation ?k op') (\<lambda>_.
      bnd (upd (\<lambda>s. s\<lparr>attempts := dset (o_operation_id op)
            (attempts_of s (o_operation_id op) @
              [\<lparr>at_operation_id = o_operation_id op, at_attempt_number = o_attempt_count op',
                at_started_at = t, at_completed_at = None, at_outcome = ''STARTED'',
                at_failure_code = None, at_failure_category = None, at_safe_summary = ''''\<rparr>])
            (attempts s)\<rparr>)) (\<lambda>_. ok op')))) s = (r, t)"
  have k: "o_operation_id op = ?k" using inv by (simp add: op_inv_def)
  show "steps E s t"
  proof (cases "o_status op = CLAIMED")
    case True
    then show ?thesis
      using run k
      by (intro steps_change[OF op ch_dispatch[OF True]]) (auto simp: run_defs Let_def opened_def)
  next
    case False
    then show ?thesis using run by (auto simp: run_defs)
  qed
qed

text \<open>The methods that close the attempt and store the operation end in the same two writes.\<close>

lemma steps_finish:
  assumes op: "map_of (operations s) k = Some op"
    and run: "bnd (finish_attempt k t oc c cat) (\<lambda>_. bnd (put_operation k op') (\<lambda>_. ok x)) s = (r, u)"
    and ch: "op_change op (attempts_of s k) op' (closed (attempts_of s k) t oc c cat)"
  shows "steps E s u"
  using run
proof (rule with_finish_attempt)
  fix s'
  assume s': "operations s' = operations s" "idempotency s' = idempotency s"
    "attempts_of s' = (attempts_of s)(k := closed (attempts_of s k) t oc c cat)"
    and "bnd (put_operation k op') (\<lambda>_. ok x) s' = (r, u)"
  then have "u = s'\<lparr>operations := dset k op' (operations s')\<rparr>" by (auto simp: run_defs)
  with s' show "steps E s u" by (intro steps_change[OF op ch]) simp_all
qed

lemma ticked [simp]: "steps E (s\<lparr>ticks := n\<rparr>) t = steps E s t" "steps E t (s\<lparr>ticks := n\<rparr>) = steps E t s"
  by (simp_all add: steps_def abs_repo_def)

lemma bnd_now: "bnd (now E) f s = f (clock E (ticks s)) (s\<lparr>ticks := Suc (ticks s)\<rparr>)"
  by (simp add: bnd_def now_def)

lemma steps_dead_letter:
  assumes op: "map_of (operations s) k = Some op" and "live op" and "o_operation_id op = k"
    and run: "dead_letter k (op\<lparr>o_failure_category := cat, o_failure_code := c\<rparr>) t reason s = (r, u)"
  shows "steps E s u"
  using run assms(3) unfolding dead_letter_def Let_def
  by (intro steps_finish[OF op _ ch_dead[OF assms(2)]]) simp

lemma refines_mark_succeeded: "refines E (mark_succeeded E c ref)"
  unfolding mark_succeeded_def
  apply (rule refines_with_claim)
  subgoal premises prems for s op r t
  proof (cases "o_status op = DISPATCHING
      \<or> (o_status op = CLAIMED \<and> o_reconciliation_state op = IN_PROGRESS)")
    case True
    have k: "o_operation_id op = c_operation_id c" using prems(3) by (simp add: op_inv_def)
    have "o_status op \<noteq> SUCCEEDED" using True by auto
    then show ?thesis
      using prems(2,5) True k
      using steps_finish[OF _ _ ch_succeed[OF True], of "s\<lparr>ticks := Suc (ticks s)\<rparr>"]
      by (simp add: bnd_now bnd_require Let_def)
  next
    case False
    then show ?thesis using prems(5) by (auto simp: bnd_require ok_def split: if_splits)
  qed
  done

lemma refines_mark_retry_wait: "refines E (mark_retry_wait E c cat code at)"
  unfolding mark_retry_wait_def
  apply (rule refines_with_claim)
  subgoal premises prems for s op r t
  proof -
    let ?k = "c_operation_id c" and ?s = "s\<lparr>ticks := Suc (ticks s)\<rparr>"
    have k: "o_operation_id op = ?k" using prems(3) by (simp add: op_inv_def)
    have op: "map_of (operations ?s) ?k = Some op" using prems(2) by simp
    show ?thesis
    proof (cases "o_maximum_attempts op \<le> o_attempt_count op")
      case True
      then have "steps E ?s t"
        using prems(5) by (intro steps_dead_letter[OF op prems(4) k]) (simp add: bnd_now Let_def)
      then show ?thesis by simp
    next
      case False
      then have "steps E ?s t"
        using prems(5) k
        by (intro steps_finish[OF op _ ch_retry[OF prems(4)]]) (auto simp: bnd_now Let_def)
      then show ?thesis by simp
    qed
  qed
  done

lemma refines_mark_reconciliation_required: "refines E (mark_reconciliation_required E c code)"
  unfolding mark_reconciliation_required_def
  apply (rule refines_with_claim)
  subgoal premises prems for s op r t
  proof -
    let ?k = "c_operation_id c" and ?s = "s\<lparr>ticks := Suc (ticks s)\<rparr>"
    have k: "o_operation_id op = ?k" using prems(3) by (simp add: op_inv_def)
    have op: "map_of (operations ?s) ?k = Some op" using prems(2) by simp
    have "steps E ?s t"
      using prems(5) k
      by (intro steps_finish[OF op _ ch_uncertain[OF prems(4)]]) (simp add: bnd_now Let_def)
    then show ?thesis by simp
  qed
  done

lemma refines_mark_dead_letter: "refines E (mark_dead_letter E c reason)"
  unfolding mark_dead_letter_def
  apply (rule refines_with_claim)
  subgoal premises prems for s op r t
  proof -
    let ?k = "c_operation_id c" and ?s = "s\<lparr>ticks := Suc (ticks s)\<rparr>"
    have k: "o_operation_id op = ?k" using prems(3) by (simp add: op_inv_def)
    have op: "map_of (operations ?s) ?k = Some op" using prems(2) by simp
    have same: "op\<lparr>o_failure_category := o_failure_category op, o_failure_code := o_failure_code op\<rparr> = op"
      by simp
    have "dead_letter ?k op (clock E (ticks s)) reason ?s = (r, t)"
      using prems(5) by (simp add: bnd_now)
    then have "steps E ?s t"
      using steps_dead_letter[OF op prems(4) k, where cat = "o_failure_category op" and c = "o_failure_code op"] same
      by metis
    then show ?thesis by simp
  qed
  done

subsection \<open>Recovery and selection\<close>

lemma recover_expired_at_run:
  "recover_expired_at t s =
     (Inr (length (filter (claim_expired t) (dvals (operations s)))),
      s\<lparr>operations := dmap (recover_one t) (operations s)\<rparr>)"
  by (simp add: recover_expired_at_def run_defs)

lemma steps_recover:
  "steps E s (s\<lparr>operations := dmap (recover_one t) (operations s)\<rparr>)"
proof -
  have "abs_repo (s\<lparr>operations := dmap (recover_one t) (operations s)\<rparr>)
      = (abs_repo s)\<lparr>a_ops := (\<lambda>k. map_option (recover_one t) (a_ops (abs_repo s) k))\<rparr>"
    by (simp add: abs_repo_def fun_eq_iff)
  then have "spec_step (sha E) (abs_repo s)
      (abs_repo (s\<lparr>operations := dmap (recover_one t) (operations s)\<rparr>))"
    by (simp only: sp_recover)
  then show ?thesis by (simp add: steps_def)
qed

lemma refines_recover_expired: "refines E (recover_expired E)"
proof (rule refinesI)
  fix s r t
  assume "recover_expired E s = (r, t)"
  then show "steps E s t"
    using steps_recover[of E "s\<lparr>ticks := Suc (ticks s)\<rparr>"]
    by (auto simp: recover_expired_def bnd_now recover_expired_at_run)
qed

lemma recover_keeps_inv:
  assumes "repo_inv E s"
  shows "repo_inv E (s\<lparr>operations := dmap (recover_one t) (operations s)\<rparr>)"
proof -
  have "abs_repo (s\<lparr>operations := dmap (recover_one t) (operations s)\<rparr>)
      = (abs_repo s)\<lparr>a_ops := (\<lambda>k. map_option (recover_one t) (a_ops (abs_repo s) k))\<rparr>"
    by (simp add: abs_repo_def fun_eq_iff)
  then show ?thesis
    using assms spec_inv_recover[of "sha E" "abs_repo s" t] by (simp add: repo_inv_def)
qed

lemma claim_run:
  "claim E op owner t ttl s =
     (Inr \<lparr>c_operation_id = o_operation_id op, c_owner_id = owner, c_token = tokens E (draws s),
         c_claimed_at = Some t, c_expires_at = t + seconds ttl,
         c_fencing_token = o_fencing_token op + 1\<rparr>,
      s\<lparr>draws := Suc (draws s),
        operations := dset (o_operation_id op)
          (claimed op owner (sha E (tokens E (draws s))) t (t + seconds ttl)) (operations s)\<rparr>)"
  by (simp add: claim_def run_defs Let_def claimed_def)

lemma bnd_claim: "bnd (claim E op owner t ttl) f s =
    f (projr (fst (claim E op owner t ttl s))) (snd (claim E op owner t ttl s))"
  by (simp add: bnd_def claim_run)

lemma set_eligible: "op \<in> set (eligible t s) \<longleftrightarrow> op \<in> set (dvals (operations s)) \<and> is_eligible t s op"
  by (auto simp: eligible_def)

lemma set_reconciliation_candidates: "op \<in> set (reconciliation_candidates s) \<longleftrightarrow>
    op \<in> set (dvals (operations s)) \<and> o_status op = RECONCILIATION_REQUIRED"
  by (auto simp: reconciliation_candidates_def)

lemma bnd_recover: "bnd (recover_expired_at t) f s =
    f (length (filter (claim_expired t) (dvals (operations s))))
      (s\<lparr>operations := dmap (recover_one t) (operations s)\<rparr>)"
  by (simp add: bnd_def recover_expired_at_run)

text \<open>What \<open>claim_next\<close> does: recover, then claim the first eligible operation, if there is one.\<close>

definition recovered :: "env \<Rightarrow> repo \<Rightarrow> repo" where
  "recovered E s = s\<lparr>ticks := Suc (ticks s),
     operations := dmap (recover_one (clock E (ticks s))) (operations s)\<rparr>"

lemma claim_next_run:
  "claim_next E owner ttl s =
     (case eligible (clock E (ticks s)) (recovered E s) of
        [] \<Rightarrow> (Inr None, recovered E s)
      | op # _ \<Rightarrow> (Inr (Some (projr (fst (claim E op owner (clock E (ticks s)) ttl (recovered E s))))),
          snd (claim E op owner (clock E (ticks s)) ttl (recovered E s))))"
  by (simp add: claim_next_def bnd_now bnd_gets bnd_recover recovered_def ok_def split: list.splits)
    (simp add: bnd_def claim_run ok_def)

lemma recovered_inv: "repo_inv E s \<Longrightarrow> repo_inv E (recovered E s)"
  using recover_keeps_inv[of E "s\<lparr>ticks := Suc (ticks s)\<rparr>"]
  by (simp add: recovered_def repo_inv_def abs_repo_def)

lemma steps_recovered: "steps E s (recovered E s)"
  using steps_recover[of E "s\<lparr>ticks := Suc (ticks s)\<rparr>"] by (simp add: recovered_def)

lemma steps_claim:
  assumes inv: "repo_inv E s" and mem: "op \<in> set (dvals (operations s))"
    and "op_change op (attempts_of s (o_operation_id op))
      (claimed op' owner (sha E (tokens E (draws s))) t (t + seconds ttl)) (attempts_of s (o_operation_id op))"
    and "o_operation_id op' = o_operation_id op"
    and run: "claim E op' owner t ttl s = (r, u)"
  shows "steps E s u"
  using run assms(4)
  by (intro steps_change[OF repo_inv_vals[OF inv mem] assms(3)]) (auto simp: claim_run)

lemma refines_claim_next: "refines E (claim_next E owner ttl)"
proof (rule refinesI)
  fix s r u
  assume inv: "repo_inv E s" and run: "claim_next E owner ttl s = (r, u)"
  let ?t = "clock E (ticks s)" and ?s = "recovered E s"
  note inv' = recovered_inv[OF inv] and st = steps_recovered[of E s]
  show "steps E s u"
  proof (cases "eligible ?t ?s")
    case Nil
    then show ?thesis using run st by (simp add: claim_next_run)
  next
    case (Cons op ops)
    then have mem: "op \<in> set (dvals (operations ?s))" and "is_eligible ?t ?s op"
      using set_eligible[of op ?t ?s] by simp_all
    then have "o_status op \<in> {PENDING, RETRY_WAIT}" by (simp add: is_eligible_def)
    then have ch: "op_change op xs (claimed op owner h ?t (?t + seconds ttl)) xs" for xs h
      by (rule ch_claim)
    have "claim E op owner ?t ttl ?s = (fst (claim E op owner ?t ttl ?s), u)"
      using run Cons by (simp add: claim_next_run prod_eq_iff)
    then have "steps E ?s u" using steps_claim[OF inv' mem ch] by simp
    with st show ?thesis by (rule steps_trans)
  qed
qed

lemma refines_claim_reconciliation: "refines E (claim_reconciliation E owner ttl)"
proof (rule refinesI)
  fix s r u
  assume inv: "repo_inv E s" and run: "claim_reconciliation E owner ttl s = (r, u)"
  let ?t = "clock E (ticks s)" and ?s = "s\<lparr>ticks := Suc (ticks s)\<rparr>"
  have inv': "repo_inv E ?s" using inv by (simp add: repo_inv_def abs_repo_def)
  show "steps E s u"
  proof (cases "reconciliation_candidates ?s")
    case Nil
    then show ?thesis
      using run by (auto simp: claim_reconciliation_def bnd_now bnd_gets ok_def)
  next
    case (Cons op ops)
    let ?op = "op\<lparr>o_reconciliation_state := IN_PROGRESS\<rparr>"
    have mem: "op \<in> set (dvals (operations ?s))" and st: "o_status op = RECONCILIATION_REQUIRED"
      using set_reconciliation_candidates[of op ?s] Cons by simp_all
    have ch: "op_change op xs (claimed ?op owner h ?t (?t + seconds ttl)) xs" for xs h
      by (rule ch_claim_reconciliation[OF st])
    have "claim E ?op owner ?t ttl ?s = (fst (claim E ?op owner ?t ttl ?s), u)"
      using run Cons by (simp add: claim_reconciliation_def bnd_now bnd_gets bnd_claim ok_def claim_run)
    then have "steps E ?s u" using steps_claim[OF inv' mem ch] by simp
    then show ?thesis by simp
  qed
qed

subsection \<open>Methods without a claim\<close>

lemma refines_on_operation:
  assumes "\<And>s op r t. map_of (operations s) k = Some op \<Longrightarrow> f op s = (r, t) \<Longrightarrow> steps E s t"
  shows "refines E (bnd (get_operation k) f)"
proof (rule refinesI)
  fix s r t
  assume "bnd (get_operation k) f s = (r, t)"
  then show "steps E s t"
    using assms by (cases "map_of (operations s) k") (simp_all add: bnd_def get_operation_run)
qed

lemma steps_put:
  assumes "map_of (operations s) k = Some op" and "op_change op (attempts_of s k) op' (attempts_of s k)"
    and "bnd (put_operation k op') (\<lambda>_. ok x) s = (r, t)"
  shows "steps E s t"
  using assms(3) by (intro steps_change[OF assms(1,2)]) (auto simp: run_defs)

lemma refines_cancel: "refines E (cancel_operation E k)"
  unfolding cancel_operation_def
  apply (rule refines_on_operation)
  subgoal for s op r t
    by (cases "o_status op \<in> {PENDING, RETRY_WAIT}")
      (auto simp: bnd_require bnd_now Let_def
        dest!: steps_put[where s = "s\<lparr>ticks := _\<rparr>" and E = E, OF _ ch_cancel, rotated 2])
  done

lemma refines_abandon: "refines E (abandon_operation E k reason)"
  unfolding abandon_operation_def
  apply (rule refines_on_operation)
  subgoal for s op r t
    by (cases "o_status op \<notin> {CLAIMED, DISPATCHING, SUCCEEDED}")
      (auto simp: bnd_require bnd_now Let_def
        dest!: steps_put[where s = "s\<lparr>ticks := _\<rparr>" and E = E, OF _ ch_abandon, rotated 2])
  done

lemma refines_retry_dead_letter: "refines E (retry_dead_letter E k)"
  unfolding retry_dead_letter_def
  apply (rule refines_on_operation)
  subgoal for s op r t
    by (cases "o_status op = DEAD_LETTER")
      (auto simp: bnd_require bnd_now Let_def
        dest!: steps_put[where s = "s\<lparr>ticks := _\<rparr>" and E = E, OF _ ch_requeue, rotated 2])
  done

lemma add_operation_run:
  "add_operation E op s =
     (let fp = request_fingerprint (sha E) op; old = map_of (idempotency s) (o_idempotency_key op) in
      if map_of (operations s) (o_operation_id op) \<noteq> None
        then (Inl (DuplicateOutboxOperationError (o_operation_id op)), s)
      else if truthy old \<and> old \<noteq> Some fp
        then (Inl (IdempotencyConflictError ''Idempotency key payload changed''), s)
      else if truthy old
        then (Inl (DuplicateOutboxOperationError ''Idempotent operation exists''), s)
      else (Inr op, s\<lparr>operations := dset (o_operation_id op) op (operations s),
              idempotency := dset (o_idempotency_key op) fp (idempotency s)\<rparr>))"
  unfolding add_operation_def Let_def
  by (cases "map_of (idempotency s) (o_idempotency_key op)")
    (auto simp: bnd_gets bnd_require bnd_upd ok_def)

lemma refines_add:
  assumes "fresh op"
  shows "refines E (add_operation E op)"
proof (rule refinesI)
  fix s r t
  assume run: "add_operation E op s = (r, t)"
  let ?fp = "request_fingerprint (sha E) op"
  let ?old = "map_of (idempotency s) (o_idempotency_key op)"
  show "steps E s t"
  proof (cases "map_of (operations s) (o_operation_id op) = None \<and> \<not> truthy ?old")
    case True
    then have t: "t = s\<lparr>operations := dset (o_operation_id op) op (operations s),
        idempotency := dset (o_idempotency_key op) ?fp (idempotency s)\<rparr>"
      using run by (simp add: add_operation_run)
    have "attempts_of t = attempts_of s" by (simp add: t attempts_of_def[abs_def])
    then have "abs_repo t = (abs_repo s)\<lparr>
        a_ops := (a_ops (abs_repo s))(o_operation_id op \<mapsto> op),
        a_keys := (a_keys (abs_repo s))(o_idempotency_key op \<mapsto> ?fp)\<rparr>"
      by (simp add: abs_repo_def t)
    then have "spec_step (sha E) (abs_repo s) (abs_repo t)"
      using sp_add[of "abs_repo s" op "sha E"] True assms by simp
    then show ?thesis by (simp add: steps_def t)
  next
    case False
    then have "t = s" using run by (auto simp: add_operation_run Let_def split: if_splits)
    then show ?thesis by simp
  qed
qed

subsection \<open>Histories\<close>

text \<open>The mutating methods of the class, as commands, and running one.\<close>

datatype command =
    Add_Operation outbox_operation
  | Claim_Next string int
  | Claim_Reconciliation string int
  | Renew_Claim outbox_claim int
  | Release_Claim outbox_claim
  | Mark_Dispatching outbox_claim
  | Mark_Succeeded outbox_claim string
  | Mark_Retry_Wait outbox_claim failure_category string datetime
  | Mark_Reconciliation_Required outbox_claim string
  | Mark_Dead_Letter outbox_claim string
  | Cancel_Operation string
  | Abandon_Operation string string
  | Retry_Dead_Letter string
  | Recover_Expired
  | Pause_Provider string
  | Resume_Provider string

fun exec :: "env \<Rightarrow> command \<Rightarrow> repo \<Rightarrow> repo" where
  "exec E (Add_Operation op) s = snd (add_operation E op s)"
| "exec E (Claim_Next w ttl) s = snd (claim_next E w ttl s)"
| "exec E (Claim_Reconciliation w ttl) s = snd (claim_reconciliation E w ttl s)"
| "exec E (Renew_Claim c ttl) s = snd (renew_claim E c ttl s)"
| "exec E (Release_Claim c) s = snd (release_claim E c s)"
| "exec E (Mark_Dispatching c) s = snd (mark_dispatching E c s)"
| "exec E (Mark_Succeeded c ref) s = snd (mark_succeeded E c ref s)"
| "exec E (Mark_Retry_Wait c cat x a) s = snd (mark_retry_wait E c cat x a s)"
| "exec E (Mark_Reconciliation_Required c x) s = snd (mark_reconciliation_required E c x s)"
| "exec E (Mark_Dead_Letter c why) s = snd (mark_dead_letter E c why s)"
| "exec E (Cancel_Operation k) s = snd (cancel_operation E k s)"
| "exec E (Abandon_Operation k why) s = snd (abandon_operation E k why s)"
| "exec E (Retry_Dead_Letter k) s = snd (retry_dead_letter E k s)"
| "exec E Recover_Expired s = snd (recover_expired E s)"
| "exec E (Pause_Provider p) s = snd (pause_provider p s)"
| "exec E (Resume_Provider p) s = snd (resume_provider p s)"

text \<open>Only new operations are added: pending, never attempted, without a claim.\<close>

fun admissible :: "command \<Rightarrow> bool" where
  "admissible (Add_Operation op) = fresh op"
| "admissible _ = True"

lemma refines_snd: "refines E m \<Longrightarrow> repo_inv E s \<Longrightarrow> steps E s (snd (m s))"
  by (cases "m s") (simp add: refinesD)

lemmas refines_all = refines_add refines_claim_next refines_claim_reconciliation refines_renew
  refines_release refines_mark_dispatching refines_mark_succeeded refines_mark_retry_wait
  refines_mark_reconciliation_required refines_mark_dead_letter refines_cancel refines_abandon
  refines_retry_dead_letter refines_recover_expired

lemma exec_steps: "repo_inv E s \<Longrightarrow> admissible c \<Longrightarrow> steps E s (exec E c s)"
  by (cases c) (simp_all add: refines_all[THEN refines_snd] pause_provider_def
    resume_provider_def upd_def steps_idle)

inductive call :: "env \<Rightarrow> repo \<Rightarrow> repo \<Rightarrow> bool" for E where
  call: "admissible c \<Longrightarrow> call E s (exec E c s)"

inductive_cases callE: "call E s t"

inductive reachable :: "env \<Rightarrow> repo \<Rightarrow> bool" for E where
  init: "reachable E empty_repo"
| step: "reachable E s \<Longrightarrow> call E s t \<Longrightarrow> reachable E t"

definition hashes :: "env \<Rightarrow> bool" where
  "hashes E \<longleftrightarrow> (\<forall>x. sha E x \<noteq> [])"

lemma steps_inv: "hashes E \<Longrightarrow> steps E s t \<Longrightarrow> repo_inv E s \<Longrightarrow> repo_inv E t"
  using spec_steps_inv[of "sha E"] by (auto simp: steps_def repo_inv_def hashes_def)

lemma empty_inv: "repo_inv E empty_repo"
  by (simp add: repo_inv_def abs_repo_def empty_repo_def spec_inv_def attempts_of_def)

lemma call_steps: "call E s t \<Longrightarrow> repo_inv E s \<Longrightarrow> steps E s t"
  by (auto elim!: callE intro: exec_steps)

lemma call_inv: "call E s t \<Longrightarrow> hashes E \<Longrightarrow> repo_inv E s \<Longrightarrow> repo_inv E t"
  using call_steps steps_inv by blast

lemma reachable_inv: "reachable E s \<Longrightarrow> hashes E \<Longrightarrow> repo_inv E s"
  by (induction rule: reachable.induct) (auto simp: empty_inv intro: call_inv)

lemma reachable_calls: "(call E)\<^sup>*\<^sup>* s t \<Longrightarrow> reachable E s \<Longrightarrow> reachable E t"
  by (induction rule: rtranclp_induct) (auto intro: reachable.step)

lemma calls_steps:
  "(call E)\<^sup>*\<^sup>* s t \<Longrightarrow> hashes E \<Longrightarrow> repo_inv E s \<Longrightarrow> steps E s t \<and> repo_inv E t"
  by (induction rule: rtranclp_induct) (auto intro: call_inv call_steps steps_trans)

lemma steps_op_le:
  assumes "steps E s t" and "map_of (operations s) k = Some op"
  shows "\<exists>op'. map_of (operations t) k = Some op' \<and> op_le op op'"
  using assms spec_steps_le[of "sha E" "abs_repo s" "abs_repo t" k op] by (simp add: steps_def)

lemma calls_op_le:
  assumes "(call E)\<^sup>*\<^sup>* s t" and "hashes E" and "repo_inv E s" and "map_of (operations s) k = Some op"
  shows "\<exists>op'. map_of (operations t) k = Some op' \<and> op_le op op'"
  using steps_op_le calls_steps[OF assms(1-3)] assms(4) by blast

subsection \<open>Claims are fenced\<close>

definition fencing_of :: "repo \<Rightarrow> string \<Rightarrow> int option" where
  "fencing_of s k = map_option o_fencing_token (map_of (operations s) k)"

definition claim_accepted :: "env \<Rightarrow> repo \<Rightarrow> outbox_claim \<Rightarrow> bool" where
  "claim_accepted E s c \<longleftrightarrow> (\<exists>op. fst (validate_claim E c s) = Inr op)"

lemma claim_accepted_iff:
  "claim_accepted E s c \<longleftrightarrow> (\<exists>op. map_of (operations s) (c_operation_id c) = Some op
     \<and> claim_error E (clock E (ticks s)) c op = None)"
  using with_claim_run[of E c ok s]
  by (auto simp: claim_accepted_def validate_claim_def bnd_now get_operation_def bnd_def now_def
      sx_defs split: option.splits)

lemma claim_error_None_fence: "claim_error E t c op = None \<Longrightarrow> o_fencing_token op = c_fencing_token c"
  by (simp add: claim_error_def split: if_splits)

definition op_token_inv :: "env \<Rightarrow> repo \<Rightarrow> bool" where
  "op_token_inv E s \<longleftrightarrow> hashes E \<and> repo_inv E s"

interpretation claims: fenced "call E" "op_token_inv E" fencing_of "claim_accepted E"
  c_operation_id c_fencing_token for E
proof
  show "op_token_inv E s \<Longrightarrow> call E s t \<Longrightarrow> op_token_inv E t" for s t
    by (auto simp: op_token_inv_def intro: call_inv)
  show "op_token_inv E s \<Longrightarrow> call E s t \<Longrightarrow> fencing_of s k = Some n
      \<Longrightarrow> \<exists>m\<ge>n. fencing_of t k = Some m" for s t k n
    using steps_op_le[OF call_steps] by (fastforce simp: op_token_inv_def fencing_of_def op_le_def)
  show "op_token_inv E s \<Longrightarrow> claim_accepted E s c
      \<Longrightarrow> fencing_of s (c_operation_id c) = Some (c_fencing_token c)" for s c
    by (auto simp: claim_accepted_iff fencing_of_def claim_error_None_fence)
qed

lemma reachable_token_inv: "reachable E s \<Longrightarrow> hashes E \<Longrightarrow> op_token_inv E s"
  by (simp add: op_token_inv_def reachable_inv)

end
