(* ===== verification/Outbox_Safety.thy ===== *)
theory Outbox_Safety
  imports Outbox_Refinement
begin

section \<open>What holds of every history of the outbox\<close>

text \<open>
  The properties of the outbox repository that its clients rely on, over every reachable state
  and every sequence of calls: the refinement of the abstract outbox, the invariant of a
  stored operation, the exclusion of superseded claims, the choice \<open>claim_next\<close> makes,
  idempotency keys, the finality of success, the recovery of expired claims and the bound on
  retries. The example environment at the end makes the hypotheses concrete.
\<close>

subsection \<open>A concrete environment\<close>

text \<open>The clock advances a second at each reading; the hash marks its argument.\<close>

definition demo_env :: env where
  "demo_env = \<lparr>clock = (\<lambda>n. 1000000 * int n), tokens = (\<lambda>n. ''t'' @ nat_str n),
     sha = (\<lambda>x. CHR ''#'' # x)\<rparr>"

definition demo_payload :: json where
  "demo_payload = JObj [(''branch'', JStr ''main'')]"

definition demo_op :: "string \<Rightarrow> string \<Rightarrow> outbox_operation" where
  "demo_op k key =
     \<lparr>o_operation_id = k, o_runtime_id = ''r'', o_project_id = ''p'', o_task_id = ''t'',
      o_work_item_id = ''w'', o_operation_type = ''PUSH'', o_provider_id = ''gh'',
      o_aggregate_id = ''a'', o_aggregate_version = 0, o_idempotency_key = key,
      o_correlation_id = None, o_causation_id = None, o_payload = demo_payload,
      o_payload_schema_version = 1, o_status = PENDING, o_priority = 0, o_available_at = 0,
      o_created_at = 0, o_first_attempted_at = None, o_last_attempted_at = None,
      o_completed_at = None, o_attempt_count = 0, o_maximum_attempts = 3, o_claim_owner = None,
      o_claim_token_hash = None, o_claimed_at = None, o_claim_expires_at = None,
      o_fencing_token = 0, o_failure_code = None, o_failure_category = None,
      o_retry_after = None, o_result_reference = None, o_reconciliation_state = RS_NONE,
      o_dead_letter_reason = None\<rparr>"

lemma demo_payload_valid: "validate_payload demo_payload = Inr demo_payload"
proof -
  have "length (dumps demo_payload) = 17" by code_simp
  moreover have "freezable demo_payload" and "inspect demo_payload [] = None" by code_simp+
  ultimately show ?thesis by (simp add: validate_payload_Inr max_payload_bytes_def)
qed

lemma demo_op_valid: "validate_operation (demo_op k key) = Inr (demo_op k key)"
proof -
  have "re_identifier ''PUSH''" and "re_provider ''gh''" by code_simp+
  then show ?thesis by (simp add: validate_operation_def demo_op_def demo_payload_valid)
qed

lemma demo_op_fresh: "fresh (demo_op k key)"
  by (simp add: fresh_def demo_op_def)

lemma demo_hashes: "hashes demo_env"
  by (simp add: hashes_def demo_env_def)

text \<open>Three states of a history: one operation added, claimed, and put in dispatch.\<close>

definition demo_1 :: repo where
  "demo_1 = exec demo_env (Add_Operation (demo_op ''op'' ''key'')) empty_repo"

definition demo_claim :: outbox_claim where
  "demo_claim = \<lparr>c_operation_id = ''op'', c_owner_id = ''w1'', c_token = ''t0'',
     c_claimed_at = Some 0, c_expires_at = 30000000, c_fencing_token = 1\<rparr>"

definition demo_2 :: repo where
  "demo_2 = snd (claim_next demo_env ''w1'' 30 demo_1)"

definition demo_3 :: repo where
  "demo_3 = exec demo_env (Mark_Dispatching demo_claim) demo_2"

lemma demo_1_run: "demo_1 = empty_repo\<lparr>operations := [(''op'', demo_op ''op'' ''key'')],
    idempotency := [(''key'', request_fingerprint (sha demo_env) (demo_op ''op'' ''key''))]\<rparr>"
  by (simp add: demo_1_def add_operation_run Let_def empty_repo_def truthy_def demo_op_def)

lemmas demo_env_simps = demo_env_def seconds_def

lemma demo_2_run: "claim_next demo_env ''w1'' 30 demo_1 = (Inr (Some demo_claim), demo_2)"
  and demo_2_ops: "operations demo_2 =
    [(''op'', claimed (demo_op ''op'' ''key'') ''w1'' ''#t0'' 0 30000000)]"
proof -
  have rec: "recovered demo_env demo_1 = demo_1\<lparr>ticks := 1\<rparr>"
    by (simp add: recovered_def demo_1_run dmap_def recover_one_def claim_expired_def demo_op_def
        empty_repo_def)
  have el: "eligible 0 (demo_1\<lparr>ticks := 1\<rparr>) = [demo_op ''op'' ''key'']"
    by (simp add: eligible_def demo_1_run is_eligible_def is_provider_paused_def demo_op_def
        empty_repo_def)
  have t: "clock demo_env (ticks demo_1) = 0" by (simp add: demo_env_def demo_1_run empty_repo_def)
  have "nat_str 0 = ''0''" by code_simp
  then have "tokens demo_env (draws demo_1) = ''t0''"
    by (simp add: demo_env_def demo_1_run empty_repo_def)
  then show "claim_next demo_env ''w1'' 30 demo_1 = (Inr (Some demo_claim), demo_2)"
    and "operations demo_2 = [(''op'', claimed (demo_op ''op'' ''key'') ''w1'' ''#t0'' 0 30000000)]"
    using t rec el
    by (simp_all add: demo_2_def claim_next_run claim_run demo_claim_def demo_op_def seconds_def)
      (simp_all add: demo_1_run demo_env_def)
qed

lemma demo_1_reachable: "reachable demo_env demo_1"
  unfolding demo_1_def
  by (rule reachable.step[OF reachable.init call.call]) (simp add: demo_op_fresh)

lemma demo_2_reachable: "reachable demo_env demo_2"
  using reachable.step[OF demo_1_reachable call.call[of "Claim_Next ''w1'' 30"]]
  by (simp add: demo_2_def)

lemma demo_3_reachable: "reachable demo_env demo_3"
  using reachable.step[OF demo_2_reachable call.call[of "Mark_Dispatching demo_claim"]]
  by (simp add: demo_3_def)

subsection \<open>Refinement and invariant\<close>

text \<open>C2: every call of a mutating repository method, on returning and on raising paths, moves the
  abstract outbox by steps of its specification only: life-cycle changes of single operations,
  additions of fresh operations under a free idempotency key, recoveries of expired claims.\<close>

theorem exec_refines_spec:
  assumes "repo_inv E s" and "admissible c"
  shows "(spec_step (sha E))\<^sup>*\<^sup>* (abs_repo s) (abs_repo (exec E c s))"
  using exec_steps[OF assms] by (simp add: steps_def)

lemma exec_refines_spec_witness:
  "(spec_step (sha demo_env))\<^sup>*\<^sup>* (abs_repo demo_2) (abs_repo (exec demo_env (Mark_Dispatching demo_claim) demo_2))"
  by (rule exec_refines_spec)
    (simp_all add: reachable_inv[OF demo_2_reachable demo_hashes])

text \<open>C3: in every reachable state every stored operation is well formed: a claim is held exactly in
  CLAIMED and DISPATCHING, the attempts are numbered 1..attempt_count, each was made under a
  claim of its own (attempt_count at most the fencing token), an operation in dispatch has an
  open attempt, a finished one its completion time and a successful one its result.\<close>

theorem stored_operations_well_formed:
  assumes "reachable E s" and "hashes E" and "map_of (operations s) k = Some op"
  shows "op_inv k op (attempts_of s k)"
  using repo_invD(1)[OF reachable_inv[OF assms(1,2)] assms(3)] .

lemma stored_operations_well_formed_witness:
  "op_inv ''op'' (claimed (demo_op ''op'' ''key'') ''w1'' ''#t0'' 0 30000000) (attempts_of demo_2 ''op'')"
  by (rule stored_operations_well_formed[OF demo_2_reachable demo_hashes]) (simp add: demo_2_ops)

subsection \<open>Claims\<close>

text \<open>The two ways a worker obtains a claim.\<close>

inductive grant :: "env \<Rightarrow> repo \<Rightarrow> outbox_claim \<Rightarrow> repo \<Rightarrow> bool" for E where
  next_one: "claim_next E w ttl s = (Inr (Some c), t) \<Longrightarrow> grant E s c t"
| reconciliation: "claim_reconciliation E w ttl s = (Inr (Some c), t) \<Longrightarrow> grant E s c t"

lemma grant_call: "grant E s c t \<Longrightarrow> call E s t"
  using call.call[of "Claim_Next _ _" E s] call.call[of "Claim_Reconciliation _ _" E s]
  by (elim grant.cases) (metis admissible.simps(2,3) exec.simps(2,3) snd_conv)+

lemma claim_next_SomeE:
  assumes "claim_next E w ttl s = (Inr (Some c), t)"
  obtains op ops where "eligible (clock E (ticks s)) (recovered E s) = op # ops"
    and "c = projr (fst (claim E op w (clock E (ticks s)) ttl (recovered E s)))"
    and "t = snd (claim E op w (clock E (ticks s)) ttl (recovered E s))"
  using assms by (auto simp: claim_next_run split: list.splits)

lemma claim_reconciliation_SomeE:
  assumes "claim_reconciliation E w ttl s = (Inr (Some c), t)"
  obtains op ops where "reconciliation_candidates (s\<lparr>ticks := Suc (ticks s)\<rparr>) = op # ops"
    and "c = projr (fst (claim E (op\<lparr>o_reconciliation_state := IN_PROGRESS\<rparr>) w
               (clock E (ticks s)) ttl (s\<lparr>ticks := Suc (ticks s)\<rparr>)))"
    and "t = snd (claim E (op\<lparr>o_reconciliation_state := IN_PROGRESS\<rparr>) w
               (clock E (ticks s)) ttl (s\<lparr>ticks := Suc (ticks s)\<rparr>))"
  using assms
  by (auto simp: claim_reconciliation_def bnd_now bnd_gets bnd_claim ok_def split: list.splits)

lemma fencing_recovered: "fencing_of (recovered E s) k = fencing_of s k"
  by (simp add: fencing_of_def recovered_def option.map_comp comp_def)

text \<open>A grant raises the fencing token of its operation by one and hands it out.\<close>

lemma grant_fencing:
  assumes "grant E s c t" and "repo_inv E s"
  shows "\<exists>n. fencing_of s (c_operation_id c) = Some n \<and> c_fencing_token c = n + 1
    \<and> fencing_of t (c_operation_id c) = Some (n + 1)"
  using assms(1)
proof cases
  case (next_one w ttl)
  then obtain op ops where el: "eligible (clock E (ticks s)) (recovered E s) = op # ops"
    and ct: "c = projr (fst (claim E op w (clock E (ticks s)) ttl (recovered E s)))"
    "t = snd (claim E op w (clock E (ticks s)) ttl (recovered E s))"
    by (rule claim_next_SomeE)
  have "op \<in> set (dvals (operations (recovered E s)))"
    using el set_eligible[of op "clock E (ticks s)" "recovered E s"] by simp
  then have "fencing_of (recovered E s) (o_operation_id op) = Some (o_fencing_token op)"
    using repo_inv_vals[OF recovered_inv[OF assms(2)]] by (simp add: fencing_of_def)
  then have "fencing_of s (o_operation_id op) = Some (o_fencing_token op)"
    by (simp only: fencing_recovered)
  then show ?thesis by (simp add: ct claim_run fencing_of_def claimed_def)
next
  case (reconciliation w ttl)
  let ?s = "s\<lparr>ticks := Suc (ticks s)\<rparr>"
  from reconciliation obtain op ops where el: "reconciliation_candidates ?s = op # ops"
    and ct: "c = projr (fst (claim E (op\<lparr>o_reconciliation_state := IN_PROGRESS\<rparr>) w
               (clock E (ticks s)) ttl ?s))"
    "t = snd (claim E (op\<lparr>o_reconciliation_state := IN_PROGRESS\<rparr>) w (clock E (ticks s)) ttl ?s)"
    by (rule claim_reconciliation_SomeE)
  have "op \<in> set (dvals (operations s))"
    using el set_reconciliation_candidates[of op ?s] by simp
  then have "fencing_of s (o_operation_id op) = Some (o_fencing_token op)"
    using repo_inv_vals[OF assms(2)] by (simp add: fencing_of_def)
  then show ?thesis by (simp add: ct claim_run fencing_of_def claimed_def)
qed

text \<open>C1: workers exclude each other: once an operation has been granted again, by claim_next or by
  claim_reconciliation, the earlier claim on it is refused in every later state, whatever
  calls were made in between and whatever the clock says.\<close>

theorem later_grant_retires_earlier:
  assumes "hashes E" and "reachable E s"
    and "grant E s c s1" and "(call E)\<^sup>*\<^sup>* s1 s2"
    and "grant E s2 d s3" and "c_operation_id d = c_operation_id c" and "(call E)\<^sup>*\<^sup>* s3 s4"
  shows "\<not> claim_accepted E s4 c"
proof -
  have i: "op_token_inv E s1"
    using reachable_token_inv[OF reachable.step[OF assms(2) grant_call[OF assms(3)]] assms(1)] .
  have i2: "repo_inv E s2"
    using claims.steps_keep_inv[OF assms(4) i] by (simp add: op_token_inv_def)
  have f1: "fencing_of s1 (c_operation_id c) = Some (c_fencing_token c)"
    using grant_fencing[OF assms(3) reachable_inv[OF assms(2,1)]] by auto
  obtain n where n: "fencing_of s2 (c_operation_id c) = Some n"
    "fencing_of s3 (c_operation_id c) = Some (n + 1)"
    using grant_fencing[OF assms(5) i2] assms(6) by auto
  have "(call E)\<^sup>*\<^sup>* s2 s3" using grant_call[OF assms(5)] by simp
  then show ?thesis
    using claims.later_grant_retires[OF i f1 assms(4) n(1) _ n(2) _ assms(7)] by simp
qed

text \<open>The commands that present a claim.\<close>

fun presents :: "command \<Rightarrow> outbox_claim option" where
  "presents (Renew_Claim c _) = Some c"
| "presents (Release_Claim c) = Some c"
| "presents (Mark_Dispatching c) = Some c"
| "presents (Mark_Succeeded c _) = Some c"
| "presents (Mark_Retry_Wait c _ _ _) = Some c"
| "presents (Mark_Reconciliation_Required c _) = Some c"
| "presents (Mark_Dead_Letter c _) = Some c"
| "presents _ = None"

lemma refused_run:
  assumes "\<not> claim_accepted E s c"
  shows "snd (bnd (validate_claim E c) f s) \<in> {s, s\<lparr>ticks := Suc (ticks s)\<rparr>}"
  using assms by (auto simp: with_claim_run claim_accepted_iff split: option.splits)

lemma refused_exec: "\<not> claim_accepted E s c \<Longrightarrow> presents cmd = Some c \<Longrightarrow>
    exec E cmd s \<in> {s, s\<lparr>ticks := Suc (ticks s)\<rparr>}"
  by (cases cmd)
    (simp_all only: presents.simps option.inject exec.simps renew_claim_def release_claim_def
      mark_dispatching_def mark_succeeded_def mark_retry_wait_def mark_dead_letter_def
      mark_reconciliation_required_def refused_run option.distinct simp_thms)


definition demo_4 :: repo where
  "demo_4 = exec demo_env (Release_Claim demo_claim) demo_2"

definition demo_claim_2 :: outbox_claim where
  "demo_claim_2 = \<lparr>c_operation_id = ''op'', c_owner_id = ''w2'', c_token = ''t1'',
     c_claimed_at = Some 2000000, c_expires_at = 32000000, c_fencing_token = 2\<rparr>"

definition demo_5 :: repo where
  "demo_5 = snd (claim_next demo_env ''w2'' 30 demo_4)"

lemma demo_5_run: "claim_next demo_env ''w2'' 30 demo_4 = (Inr (Some demo_claim_2), demo_5)"
proof -
  have "fst (claim_next demo_env ''w2'' 30 demo_4) = Inr (Some demo_claim_2)" by code_simp
  then show ?thesis by (simp add: demo_5_def prod_eq_iff)
qed

lemma demo_4_call: "call demo_env demo_2 demo_4"
  using call.call[of "Release_Claim demo_claim" demo_env demo_2] by (simp add: demo_4_def)

lemma later_grant_retires_earlier_witness: "\<not> claim_accepted demo_env demo_5 demo_claim"
  by (rule later_grant_retires_earlier[OF demo_hashes demo_1_reachable
        grant.next_one[OF demo_2_run] r_into_rtranclp[of "call demo_env", OF demo_4_call]
        grant.next_one[OF demo_5_run] _ rtranclp.rtrancl_refl])
    (simp add: demo_claim_def demo_claim_2_def)


subsection \<open>Selection\<close>

lemma sort_key_hd_least:
  assumes "sort_key f xs = y # ys"
  shows "y \<in> set xs" and "\<forall>x\<in>set xs. f y \<le> f x"
proof -
  have "set xs = set (y # ys)" using assms by (metis set_sort)
  moreover have "sorted (map f (y # ys))" using assms by (metis sorted_sort_key)
  ultimately show "y \<in> set xs" and "\<forall>x\<in>set xs. f y \<le> f x" by auto
qed

text \<open>C5: \<open>claim_next\<close> never raises; after recovering expired claims it grants the eligible operation
  that is least by priority, availability, creation and identifier, marks it claimed with a
  raised fencing token and the claim's expiry, and changes no other operation; it returns
  nothing exactly when no operation is eligible.\<close>

theorem claim_next_selects_least:
  assumes "claim_next E w ttl s = (r, t)"
  shows "(r = Inr None \<and> t = recovered E s
          \<and> (\<forall>op\<in>set (dvals (operations (recovered E s))). \<not> is_eligible (clock E (ticks s)) (recovered E s) op))
    \<or> (\<exists>op c. r = Inr (Some c) \<and> op \<in> set (dvals (operations (recovered E s)))
          \<and> is_eligible (clock E (ticks s)) (recovered E s) op
          \<and> (\<forall>op'\<in>set (dvals (operations (recovered E s))).
               is_eligible (clock E (ticks s)) (recovered E s) op' \<longrightarrow> claim_key op \<le> claim_key op')
          \<and> operations t = dset (o_operation_id op)
              (claimed op w (sha E (c_token c)) (clock E (ticks s)) (clock E (ticks s) + seconds ttl))
              (operations (recovered E s))
          \<and> c_fencing_token c = o_fencing_token op + 1 \<and> c_owner_id c = w
          \<and> c_expires_at c = clock E (ticks s) + seconds ttl)"
proof (cases "eligible (clock E (ticks s)) (recovered E s)")
  case Nil
  then have "\<forall>op\<in>set (dvals (operations (recovered E s))).
      \<not> is_eligible (clock E (ticks s)) (recovered E s) op"
    using set_eligible[of _ "clock E (ticks s)" "recovered E s"] by auto
  with assms Nil show ?thesis by (simp add: claim_next_run)
next
  case (Cons op ops)
  note least = sort_key_hd_least[OF Cons[unfolded eligible_def]]
  have "\<exists>c. r = Inr (Some c) \<and> operations t = dset (o_operation_id op)
              (claimed op w (sha E (c_token c)) (clock E (ticks s)) (clock E (ticks s) + seconds ttl))
              (operations (recovered E s))
          \<and> c_fencing_token c = o_fencing_token op + 1 \<and> c_owner_id c = w
          \<and> c_expires_at c = clock E (ticks s) + seconds ttl"
    using assms Cons by (auto simp: claim_next_run claim_run recovered_def)
  moreover have "op \<in> set (dvals (operations (recovered E s)))"
    and "is_eligible (clock E (ticks s)) (recovered E s) op"
    and "\<forall>op'\<in>set (dvals (operations (recovered E s))).
      is_eligible (clock E (ticks s)) (recovered E s) op' \<longrightarrow> claim_key op \<le> claim_key op'"
    using least by simp_all
  ultimately show ?thesis by blast
qed

lemma claim_next_selects_least_witness:
  "operations demo_2 = [(''op'', claimed (demo_op ''op'' ''key'') ''w1'' ''#t0'' 0 30000000)]
   \<and> (\<exists>op. is_eligible 0 (recovered demo_env demo_1) op)"
proof -
  have "clock demo_env (ticks demo_1) = 0"
    by (simp add: demo_env_def demo_1_run empty_repo_def)
  then show ?thesis using claim_next_selects_least[OF demo_2_run] demo_2_ops by auto
qed

subsection \<open>Idempotency keys\<close>

text \<open>C6: an idempotency key is used once: adding a further operation under the key of a stored one is
  refused and changes nothing, as a duplicate when the request fingerprint is the same and as a
  conflict when the request differs, whatever became of the stored operation since.\<close>

theorem idempotency_key_guards:
  assumes "reachable E s" and "hashes E" and "map_of (operations s) k = Some old"
    and "o_idempotency_key op = o_idempotency_key old"
    and "map_of (operations s) (o_operation_id op) = None"
  shows "add_operation E op s =
    (Inl (if request_fingerprint (sha E) op = request_fingerprint (sha E) old
          then DuplicateOutboxOperationError ''Idempotent operation exists''
          else IdempotencyConflictError ''Idempotency key payload changed''), s)"
proof -
  have "map_of (idempotency s) (o_idempotency_key old) = Some (request_fingerprint (sha E) old)"
    using spec_invD(2)[of "sha E" "abs_repo s" k old] reachable_inv[OF assms(1,2)] assms(3)
    by (simp add: repo_inv_def)
  moreover have "request_fingerprint (sha E) old \<noteq> []"
    using assms(2) by (simp add: hashes_def request_fingerprint_def)
  ultimately show ?thesis
    using assms(4,5) by (simp add: add_operation_run Let_def truthy_def)
qed

lemma idempotency_key_guards_witness:
  "add_operation demo_env ((demo_op ''op2'' ''key'')\<lparr>o_aggregate_version := 2\<rparr>) demo_1 =
     (Inl (if request_fingerprint (sha demo_env) ((demo_op ''op2'' ''key'')\<lparr>o_aggregate_version := 2\<rparr>)
             = request_fingerprint (sha demo_env) (demo_op ''op'' ''key'')
           then DuplicateOutboxOperationError ''Idempotent operation exists''
           else IdempotencyConflictError ''Idempotency key payload changed''), demo_1)"
  by (rule idempotency_key_guards[OF demo_1_reachable demo_hashes, of "''op''"])
    (simp_all add: demo_1_run demo_op_def)

text \<open>No two stored operations share an idempotency key.\<close>

theorem idempotency_keys_distinct:
  assumes "reachable E s" and "hashes E"
    and "map_of (operations s) k = Some op" and "map_of (operations s) k' = Some op'"
    and "o_idempotency_key op = o_idempotency_key op'"
  shows "k = k'"
  using spec_inv_uniq[of "sha E" "abs_repo s" k op k' op'] reachable_inv[OF assms(1,2)] assms(3-5)
  by (simp add: repo_inv_def)

subsection \<open>Outcomes\<close>

text \<open>C7: success is final: once an operation is SUCCEEDED, no later call changes its status, its
  result reference or its completion time, and it stays in the repository.\<close>

theorem success_is_final:
  assumes "reachable E s" and "hashes E" and "map_of (operations s) k = Some op"
    and "o_status op = SUCCEEDED" and "(call E)\<^sup>*\<^sup>* s t"
  shows "\<exists>op'. map_of (operations t) k = Some op' \<and> o_status op' = SUCCEEDED
    \<and> o_result_reference op' = o_result_reference op \<and> o_completed_at op' = o_completed_at op"
  using calls_op_le[OF assms(5,2) reachable_inv[OF assms(1,2)] assms(3)] assms(4)
  by (auto simp: op_le_def)

definition demo_6 :: repo where
  "demo_6 = exec demo_env (Mark_Succeeded demo_claim ''ref'') demo_3"

definition demo_done :: outbox_operation where
  "demo_done = the (map_of (operations demo_6) ''op'')"

lemma demo_6_reachable: "reachable demo_env demo_6"
  using reachable.step[OF demo_3_reachable call.call[of "Mark_Succeeded demo_claim ''ref''"]]
  by (simp add: demo_6_def)

lemma demo_6_done: "map_of (operations demo_6) ''op'' = Some demo_done" "o_status demo_done = SUCCEEDED"
proof -
  have "map_option o_status (map_of (operations demo_6) ''op'') = Some SUCCEEDED" by code_simp
  then show "map_of (operations demo_6) ''op'' = Some demo_done" "o_status demo_done = SUCCEEDED"
    by (auto simp: demo_done_def)
qed

lemma idempotency_keys_distinct_witness: "''op'' = ''op'' \<and> map_of (operations demo_6) ''op'' = Some demo_done"
  using idempotency_keys_distinct[OF demo_6_reachable demo_hashes demo_6_done(1) demo_6_done(1) refl]
    demo_6_done(1) by blast

lemma success_is_final_witness:
  "\<exists>op'. map_of (operations (exec demo_env (Abandon_Operation ''op'' ''why'') demo_6)) ''op'' = Some op'
     \<and> o_status op' = SUCCEEDED \<and> o_result_reference op' = o_result_reference demo_done
     \<and> o_completed_at op' = o_completed_at demo_done"
  by (rule success_is_final[OF demo_6_reachable demo_hashes demo_6_done])
    (rule r_into_rtranclp[of "call demo_env", OF call.call], simp)

text \<open>Recovery of expired claims is exact: an operation whose claim has expired goes back to PENDING
  if it had not been dispatched and to RECONCILIATION_REQUIRED if it had (the provider may have
  acted), and loses its claim; any other operation is untouched, and the number returned is that
  of the expired claims.\<close>

theorem recover_expired_exact:
  "recover_expired E s = (r, t) \<Longrightarrow>
     r = Inr (length (filter (claim_expired (clock E (ticks s))) (dvals (operations s))))
     \<and> map_of (operations t) k =
       (case map_of (operations s) k of
          None \<Rightarrow> None
        | Some op \<Rightarrow> Some
            (if \<not> claim_expired (clock E (ticks s)) op then op
             else if o_status op = DISPATCHING
             then (clear_claim op)\<lparr>o_status := RECONCILIATION_REQUIRED, o_reconciliation_state := REQUIRED\<rparr>
             else (clear_claim op)\<lparr>o_status := PENDING\<rparr>))"
proof -
  assume "recover_expired E s = (r, t)"
  moreover have "recover_one u op = (if \<not> claim_expired u op then op
     else if o_status op = DISPATCHING
     then (clear_claim op)\<lparr>o_status := RECONCILIATION_REQUIRED, o_reconciliation_state := REQUIRED\<rparr>
     else (clear_claim op)\<lparr>o_status := PENDING\<rparr>)" for u op
    by (simp add: recover_one_def clear_claim_def)
  ultimately show ?thesis
    by (cases "map_of (operations s) k")
      (auto simp: recover_expired_def bnd_now recover_expired_at_run)
qed

lemma recover_expired_exact_witness:
  "recover_expired demo_env empty_repo = (Inr 0, empty_repo\<lparr>ticks := 1\<rparr>)
   \<and> map_of (operations (empty_repo\<lparr>ticks := 1\<rparr>)) ''op'' = None"
proof -
  have run: "recover_expired demo_env empty_repo = (Inr 0, empty_repo\<lparr>ticks := 1\<rparr>)"
    by (simp add: recover_expired_def bnd_now recover_expired_at_run empty_repo_def dmap_def)
  have "map_of (operations empty_repo) ''op'' = None" by (simp add: empty_repo_def)
  with run conjunct2[OF recover_expired_exact[OF run, of "''op''"]] show ?thesis
    by (simp only: option.case)
qed

text \<open>Retries are bounded: reporting a retryable failure under an accepted claim puts an operation
  that has used its attempts into DEAD_LETTER with the reason recorded, and any other one into
  RETRY_WAIT until the given time; either way the claim is released and the failure recorded.\<close>

theorem mark_retry_wait_bounded:
  assumes "map_of (operations s) (c_operation_id c) = Some op" and "claim_accepted E s c"
  shows "\<exists>op'. fst (mark_retry_wait E c cat code at s) = Inr op'
    \<and> map_of (operations (snd (mark_retry_wait E c cat code at s))) (c_operation_id c) = Some op'
    \<and> claim_free op' \<and> o_failure_code op' = Some code \<and> o_failure_category op' = Some cat
    \<and> (if o_maximum_attempts op \<le> o_attempt_count op
       then o_status op' = DEAD_LETTER
         \<and> o_dead_letter_reason op' = Some (''Maximum attempts exhausted: '' @ code)
       else o_status op' = RETRY_WAIT \<and> o_available_at op' = at \<and> o_retry_after op' = Some at)"
proof -
  have ok: "claim_error E (clock E (ticks s)) c op = None"
    using assms by (simp add: claim_accepted_iff)
  show ?thesis
    unfolding mark_retry_wait_def with_claim_run assms(1) option.case ok bnd_now Let_def dead_letter_def
    by (simp add: finish_put_run Let_def claim_free_def clear_claim_def)
qed

lemma demo_3_accepted: "claim_accepted demo_env demo_3 demo_claim"
proof -
  have "case fst (validate_claim demo_env demo_claim demo_3) of Inl _ \<Rightarrow> False | Inr _ \<Rightarrow> True"
    by code_simp
  then show ?thesis by (auto simp: claim_accepted_def split: sum.splits)
qed

lemma mark_retry_wait_bounded_witness:
  "\<exists>op'. fst (mark_retry_wait demo_env demo_claim RATE_LIMITED ''R'' 9 demo_3) = Inr op'"
proof -
  from demo_3_accepted obtain op where "map_of (operations demo_3) (c_operation_id demo_claim) = Some op"
    by (auto simp: claim_accepted_iff)
  from mark_retry_wait_bounded[OF this demo_3_accepted] show ?thesis by blast
qed

text \<open>C8: a reconciliation claim that expires takes its operation back to PENDING, where \<open>claim_next\<close>
  offers it for dispatch again although its outcome is still unknown: the recovered operation is
  eligible with its reconciliation still marked in progress.\<close>

theorem expired_reconciliation_is_offered_again:
  assumes "map_of (operations s) k = Some op" and "o_status op = CLAIMED"
    and "o_reconciliation_state op = IN_PROGRESS"
    and "o_claim_expires_at op = Some e" and "e \<le> clock E (ticks s)"
    and "o_available_at op \<le> clock E (ticks s)" and "\<not> is_provider_paused (o_provider_id op) s"
  shows "\<exists>op'. map_of (operations (recovered E s)) k = Some op' \<and> o_status op' = PENDING
    \<and> o_reconciliation_state op' = IN_PROGRESS \<and> op' \<in> set (eligible (clock E (ticks s)) (recovered E s))"
proof -
  let ?op = "recover_one (clock E (ticks s)) op"
  have "?op = (clear_claim op)\<lparr>o_status := PENDING\<rparr>"
    using assms(2,4,5) by (simp add: recover_one_def claim_expired_def clear_claim_def)
  moreover have m: "map_of (operations (recovered E s)) k = Some ?op"
    using assms(1) by (simp add: recovered_def)
  ultimately have "is_eligible (clock E (ticks s)) (recovered E s) ?op" "o_status ?op = PENDING"
    "o_reconciliation_state ?op = IN_PROGRESS"
    using assms(3,6,7)
    by (simp_all add: is_eligible_def is_provider_paused_def clear_claim_def recovered_def)
  then show ?thesis using m map_of_vals[OF m] by (simp add: set_eligible)
qed

lemma expired_reconciliation_is_offered_again_witness:
  "\<exists>op'. map_of (operations (recovered demo_env (empty_repo\<lparr>ticks := 40,
        operations := [(''op'', claimed ((demo_op ''op'' ''key'')\<lparr>o_reconciliation_state := IN_PROGRESS\<rparr>)
          ''w'' ''h'' 0 30000000)]\<rparr>))) ''op'' = Some op' \<and> o_status op' = PENDING"
  using expired_reconciliation_is_offered_again[of "empty_repo\<lparr>ticks := 40,
        operations := [(''op'', claimed ((demo_op ''op'' ''key'')\<lparr>o_reconciliation_state := IN_PROGRESS\<rparr>)
          ''w'' ''h'' 0 30000000)]\<rparr>" "''op''"
      "claimed ((demo_op ''op'' ''key'')\<lparr>o_reconciliation_state := IN_PROGRESS\<rparr>) ''w'' ''h'' 0 30000000"
      30000000 demo_env]
  by (auto simp: claimed_def demo_env_def demo_op_def is_provider_paused_def empty_repo_def)

end
