(* ===== verification/Result_Application.thy ===== *)
theory Result_Application
  imports Operations Outbox_Safety
begin

section \<open>Results are applied exactly once\<close>

text \<open>
  What \<^verbatim>\<open>runtime/operations\<close> guarantees whatever order results arrive in: an idempotency key is
  applied at most once and to the version of the aggregate it was made for, an aggregate's
  version counts the results applied to it, and a provider that keeps the contract of the
  locale \<open>dispatch_provider\<close> executes a key once however often it is dispatched.
\<close>

subsection \<open>Running the application of a result\<close>

definition recorded_success :: "results \<Rightarrow> string \<Rightarrow> bool" where
  "recorded_success s key \<longleftrightarrow>
     (case map_of (rs_records s) key of None \<Rightarrow> False | Some rec \<Rightarrow> ir_status rec = ''SUCCEEDED'')"

definition version_of :: "results \<Rightarrow> string \<Rightarrow> int" where
  "version_of s a = (case map_of (rs_versions s) a of None \<Rightarrow> 0 | Some v \<Rightarrow> v)"

definition applied_value :: "outbox_operation \<Rightarrow> dispatch_result \<Rightarrow> applied_result" where
  "applied_value op r = \<lparr>ap_operation_id = o_operation_id op, ap_aggregate_id = o_aggregate_id op,
     ap_aggregate_version = o_aggregate_version op,
     ap_result_reference = dr_result_reference r, ap_result = dr_result_payload r\<rparr>"

lemma begin_run:
  "begin_idempotent sh W op s =
     (case map_of (rs_records s) (o_idempotency_key op) of
        Some rec \<Rightarrow>
          if ir_request_fingerprint rec \<noteq> request_fingerprint sh op
          then (Inl (IdempotencyConflictError ''Idempotency fingerprint changed''), s) else (Inr rec, s)
      | None \<Rightarrow>
          (let rec = \<lparr>ir_idempotency_key = o_idempotency_key op, ir_operation_id = o_operation_id op,
               ir_provider_id = o_provider_id op, ir_request_fingerprint = request_fingerprint sh op,
               ir_first_dispatch_at = W (rs_ticks s), ir_provider_reference = None,
               ir_result_fingerprint = None, ir_completion_time = None, ir_status = ''DISPATCHING''\<rparr> in
           (Inr rec, s\<lparr>rs_ticks := Suc (rs_ticks s),
               rs_records := dset (o_idempotency_key op) rec (rs_records s)\<rparr>)))"
  by (simp add: begin_idempotent_def bnd_gets Let_def split: option.split)
    (simp add: bnd_def wall_def upd_def ok_def fail_def)

text \<open>A key already recorded as succeeded: nothing is applied again.\<close>

lemma apply_again:
  assumes "recorded_success s (o_idempotency_key op)" and "apply_result sh W op r s = (x, t)"
  shows "rs_applied t = rs_applied s" and "rs_versions t = rs_versions s" and "rs_records t = rs_records s"
    and "(\<exists>e. x = Inl (IdempotencyConflictError e)) \<or> x = Inr (map_of (rs_applied s) (o_idempotency_key op), False)"
proof -
  obtain rec where rec: "map_of (rs_records s) (o_idempotency_key op) = Some rec"
    and st: "ir_status rec = ''SUCCEEDED''"
    using assms(1) by (auto simp: recorded_success_def split: option.splits)
  have "complete_idempotent sh W op r s =
      (if ir_request_fingerprint rec \<noteq> request_fingerprint sh op
       then (Inl (IdempotencyConflictError ''Idempotency fingerprint changed''), s)
       else if ir_result_fingerprint rec \<noteq> Some (result_fingerprint sh r)
       then (Inl (IdempotencyConflictError ''Provider result changed''), s)
       else (Inr (rec, False), s))"
    using rec st by (simp add: complete_idempotent_def bnd_def begin_run Let_def fail_def ok_def)
  then have run: "apply_result sh W op r s =
      (if ir_request_fingerprint rec \<noteq> request_fingerprint sh op
       then (Inl (IdempotencyConflictError ''Idempotency fingerprint changed''), s)
       else if ir_result_fingerprint rec \<noteq> Some (result_fingerprint sh r)
       then (Inl (IdempotencyConflictError ''Provider result changed''), s)
       else (Inr (map_of (rs_applied s) (o_idempotency_key op), False),
             s\<lparr>rs_suppressions := rs_suppressions s + 1\<rparr>))"
    using rec st by (simp add: apply_result_def bnd_def gets_def count_suppression_def upd_def)
  show "rs_applied t = rs_applied s" "rs_versions t = rs_versions s" "rs_records t = rs_records s"
    using assms(2) run by (auto split: if_splits)
  show "(\<exists>e. x = Inl (IdempotencyConflictError e)) \<or> x = Inr (map_of (rs_applied s) (o_idempotency_key op), False)"
    using assms(2) run by (auto split: if_splits)
qed

text \<open>A key not yet recorded as succeeded: a stale version or a changed request is refused, else the
  result is applied.\<close>

lemma apply_first:
  assumes "\<not> recorded_success s (o_idempotency_key op)"
  shows "(\<exists>t. apply_result sh W op r s = (Inr (Some (applied_value op r), True), t)
        \<and> version_of s (aggregate_key op) = o_aggregate_version op
        \<and> rs_applied t = dset (o_idempotency_key op) (applied_value op r) (rs_applied s)
        \<and> rs_versions t = dset (aggregate_key op) (o_aggregate_version op + 1) (rs_versions s)
        \<and> (\<forall>k. recorded_success t k \<longleftrightarrow> k = o_idempotency_key op \<or> recorded_success s k))
    \<or> (apply_result sh W op r s = (Inl (ValueError ''Aggregate version is stale''), s)
        \<and> version_of s (aggregate_key op) \<noteq> o_aggregate_version op)
    \<or> apply_result sh W op r s = (Inl (IdempotencyConflictError ''Idempotency fingerprint changed''), s)"
proof (cases "version_of s (aggregate_key op) = o_aggregate_version op")
  case False
  then have "apply_result sh W op r s = (Inl (ValueError ''Aggregate version is stale''), s)"
    using assms
    by (simp add: apply_result_def bnd_gets bnd_require version_of_def recorded_success_def)
  with False show ?thesis by blast
next
  case True
  define u where "u = snd (begin_idempotent sh W op s)"
  have start: "apply_result sh W op r s =
      bnd (complete_idempotent sh W op r) (\<lambda>(rec, first).
       if \<not> first
       then bnd count_suppression (\<lambda>_.
            gets (\<lambda>s. (map_of (rs_applied s) (o_idempotency_key op), False)))
       else
         bnd (upd (\<lambda>s. s\<lparr>rs_applied := dset (o_idempotency_key op) (applied_value op r) (rs_applied s)\<rparr>)) (\<lambda>_.
         bnd (upd (\<lambda>s. s\<lparr>rs_versions := dset (aggregate_key op) (o_aggregate_version op + 1)
                (rs_versions s)\<rparr>)) (\<lambda>_.
         ok (Some (applied_value op r), True)))) s"
    using assms True unfolding apply_result_def Let_def applied_value_def
    by (simp add: bnd_gets bnd_require version_of_def recorded_success_def)
  show ?thesis
  proof (cases "fst (begin_idempotent sh W op s)")
    case (Inl e)
    then have "begin_idempotent sh W op s = (Inl (IdempotencyConflictError ''Idempotency fingerprint changed''), s)"
      by (auto simp: begin_run Let_def split: option.splits if_splits)
    then have "complete_idempotent sh W op r s = (Inl (IdempotencyConflictError ''Idempotency fingerprint changed''), s)"
      by (simp add: complete_idempotent_def bnd_def)
    then show ?thesis by (simp add: start bnd_def)
  next
    case (Inr rec)
    then have b: "begin_idempotent sh W op s = (Inr rec, u)" by (simp add: u_def prod_eq_iff)
    then have u: "ir_status rec \<noteq> ''SUCCEEDED''" "rs_applied u = rs_applied s" "rs_versions u = rs_versions s"
      and ur: "\<And>k. k \<noteq> o_idempotency_key op \<Longrightarrow> map_of (rs_records u) k = map_of (rs_records s) k"
      using assms
      by (auto simp: begin_run Let_def recorded_success_def split: option.splits if_splits)
    let ?rec = "rec\<lparr>ir_provider_reference := Some (ref_text (dr_result_reference r)),
             ir_result_fingerprint := Some (result_fingerprint sh r),
             ir_completion_time := Some (W (rs_ticks u)), ir_status := ''SUCCEEDED''\<rparr>"
    have "complete_idempotent sh W op r s = (Inr (?rec, True),
        u\<lparr>rs_ticks := Suc (rs_ticks u), rs_records := dset (o_idempotency_key op) ?rec (rs_records u)\<rparr>)"
      using b u(1) by (simp add: complete_idempotent_def bnd_def wall_def upd_def ok_def Let_def)
    then show ?thesis
      using u(2,3) ur True
      by (simp add: start bnd_def upd_def ok_def recorded_success_def)
  qed
qed

subsection \<open>Exactly once\<close>

text \<open>A sequence of results offered for application, each result tagged with its operation.\<close>

fun apply_all :: "(string \<Rightarrow> string) \<Rightarrow> (nat \<Rightarrow> datetime) \<Rightarrow> (outbox_operation \<times> dispatch_result) list \<Rightarrow>
    results \<Rightarrow> results" where
  "apply_all sh W [] s = s"
| "apply_all sh W ((op, r) # xs) s = apply_all sh W xs (snd (apply_result sh W op r s))"

lemma recorded_success_stays:
  "recorded_success s k \<Longrightarrow> recorded_success (snd (apply_result sh W op r s)) k"
proof (cases "recorded_success s (o_idempotency_key op)")
  case True
  obtain x t where run: "apply_result sh W op r s = (x, t)" by fastforce
  assume "recorded_success s k"
  then show ?thesis using apply_again(3)[OF True run] run by (simp add: recorded_success_def)
next
  case False
  assume "recorded_success s k"
  then show ?thesis using apply_first[OF False, of sh W r] by auto
qed

lemma apply_keeps_other:
  assumes "recorded_success s k"
  shows "map_of (rs_applied (snd (apply_result sh W op r s))) k = map_of (rs_applied s) k"
proof (cases "recorded_success s (o_idempotency_key op)")
  case True
  obtain x t where "apply_result sh W op r s = (x, t)" by fastforce
  then show ?thesis using apply_again(1)[OF True] by auto
next
  case False
  then have "k \<noteq> o_idempotency_key op" using assms by auto
  then show ?thesis using apply_first[OF False, of sh W r] by auto
qed

text \<open>C9: a provider result is applied exactly once: after the first application of an idempotency key,
  no sequence of further results, for this or other keys, changes the value applied for it, and
  offering the key again is either suppressed (the stored value is returned, flagged as not
  first) or refused as a conflict when request or result differ, without any change of the
  applied values and aggregate versions.\<close>

theorem result_applied_once:
  assumes "apply_result sh W op r s = (Inr (Some v, True), t)"
    and "u = apply_all sh W later t"
  shows "map_of (rs_applied u) (o_idempotency_key op) = Some v
    \<and> (case apply_result sh W op r' u of (x, w) \<Rightarrow>
         rs_applied w = rs_applied u \<and> rs_versions w = rs_versions u
         \<and> (x = Inr (Some v, False) \<or> (\<exists>e. x = Inl (IdempotencyConflictError e))))"
proof -
  have new: "\<not> recorded_success s (o_idempotency_key op)"
  proof
    assume "recorded_success s (o_idempotency_key op)"
    from apply_again(4)[OF this assms(1)] show False by auto
  qed
  have "recorded_success t (o_idempotency_key op) \<and> map_of (rs_applied t) (o_idempotency_key op) = Some v"
    using apply_first[OF new, of sh W r] assms(1) by auto
  moreover have "recorded_success t k \<and> map_of (rs_applied t) k = Some v \<Longrightarrow>
      recorded_success (apply_all sh W later t) k \<and> map_of (rs_applied (apply_all sh W later t)) k = Some v"
    for k t
    by (induction later arbitrary: t)
      (auto simp: recorded_success_stays apply_keeps_other)
  ultimately have k: "recorded_success u (o_idempotency_key op)"
    "map_of (rs_applied u) (o_idempotency_key op) = Some v"
    using assms(2) by blast+
  obtain x w where run: "apply_result sh W op r' u = (x, w)" by fastforce
  show ?thesis using apply_again[OF k(1) run] k(2) run by auto
qed

text \<open>The number of first applications for an aggregate in a sequence of results.\<close>

fun accepted_for :: "(string \<Rightarrow> string) \<Rightarrow> (nat \<Rightarrow> datetime) \<Rightarrow> string \<Rightarrow>
    (outbox_operation \<times> dispatch_result) list \<Rightarrow> results \<Rightarrow> int" where
  "accepted_for sh W a [] s = 0"
| "accepted_for sh W a ((op, r) # xs) s =
     (case fst (apply_result sh W op r s) of
        Inr (_, True) \<Rightarrow> if aggregate_key op = a then 1 else 0
      | _ \<Rightarrow> 0) + accepted_for sh W a xs (snd (apply_result sh W op r s))"

lemma version_step:
  "version_of (snd (apply_result sh W op r s)) a = version_of s a
     + (case fst (apply_result sh W op r s) of
          Inr (_, True) \<Rightarrow> if aggregate_key op = a then 1 else 0 | _ \<Rightarrow> 0)"
proof (cases "recorded_success s (o_idempotency_key op)")
  case True
  obtain x t where run: "apply_result sh W op r s = (x, t)" by fastforce
  show ?thesis using apply_again(2,4)[OF True run] run by (auto simp: version_of_def)
next
  case False
  then show ?thesis using apply_first[OF False, of sh W r] by (auto simp: version_of_def)
qed

text \<open>An aggregate's version counts the results applied to it: over any sequence of results, with
  duplicates, conflicts and stale ones in any order, it grows by exactly the number of first
  applications for that aggregate, so no update is lost and none is counted twice.\<close>

theorem aggregate_version_counts_applications:
  "version_of (apply_all sh W xs s) a = version_of s a + accepted_for sh W a xs s"
  by (induction sh W a xs s rule: accepted_for.induct) (simp_all add: version_step)

subsection \<open>Providers that execute a key once\<close>

locale dispatch_provider =
  fixes dispatch_op :: "string \<Rightarrow> (string \<times> json) list \<Rightarrow> string \<Rightarrow> 'p \<Rightarrow> (exn + dispatch_value) \<times> 'p"
    and executed :: "'p \<Rightarrow> string \<Rightarrow> dispatch_result option"
  assumes replay: "executed p key = Some r \<Longrightarrow> dispatch_op ty pl key p = (Inr (Dispatch_Result r), p)"
    and records: "dispatch_op ty pl key p = (Inr v, q) \<Longrightarrow> \<exists>r. v = Dispatch_Result r \<and> executed q key = Some r"
    and persists: "executed p k = Some r \<Longrightarrow> executed (snd (dispatch_op ty pl key p)) k = Some r"
begin

lemma executed_stays:
  "executed p k = Some r \<Longrightarrow>
     executed (fold (\<lambda>(ty, pl, key) p. snd (dispatch_op ty pl key p)) ds p) k = Some r"
  by (induction ds arbitrary: p) (auto simp: persists)

text \<open>However often and with whatever payload a key is dispatched again, the answer is the first
  one and the provider does nothing.\<close>

lemma executes_once:
  assumes "dispatch_op ty pl key p = (Inr v, q)"
  shows "dispatch_op ty' pl' key (fold (\<lambda>(ty, pl, key) p. snd (dispatch_op ty pl key p)) ds q)
    = (Inr v, fold (\<lambda>(ty, pl, key) p. snd (dispatch_op ty pl key p)) ds q)"
  using records[OF assms] executed_stays replay by blast

end

lemma det_dispatch_run:
  "det_dispatch ty pl key p =
     (case map_of (dp_results p) key of
        Some r \<Rightarrow> (Inr (Dispatch_Result r), p)
      | None \<Rightarrow>
          (let q = p\<lparr>dp_calls := dp_calls p @ [(ty, key)], dp_outcomes := tl (dp_outcomes p)\<rparr>;
               r = det_result (dp_provider_id p) pl key in
           case dp_outcomes p of
             Some e # _ \<Rightarrow> (Inl e, q)
           | _ \<Rightarrow> (Inr (Dispatch_Result r), q\<lparr>dp_results := dset key r (dp_results p)\<rparr>)))"
proof (cases "map_of (dp_results p) key")
  case None
  then show ?thesis
    by (cases "dp_outcomes p"; cases "hd (dp_outcomes p)")
      (auto simp: det_dispatch_def bnd_runs bnd_assoc Let_def ok_def fail_def)
next
  case (Some r)
  then show ?thesis by (simp add: det_dispatch_def bnd_gets ok_def)
qed

interpretation det: dispatch_provider det_dispatch "\<lambda>p. map_of (dp_results p)"
  by unfold_locales
    (auto simp: det_dispatch_run Let_def split: option.splits list.splits)

text \<open>The deterministic provider executes an idempotency key once: after a successful dispatch,
  dispatching the key again, after any other dispatches and with any payload, returns the same
  result and leaves the provider, its list of calls included, unchanged.\<close>

theorem deterministic_provider_executes_once:
  assumes "det_dispatch ty pl key p = (Inr v, q)"
    and "q' = fold (\<lambda>(ty, pl, key) p. snd (det_dispatch ty pl key p)) ds q"
  shows "det_dispatch ty' pl' key q' = (Inr v, q')"
  unfolding assms(2) by (rule det.executes_once[OF assms(1)])

definition demo_provider :: det_provider where
  "demo_provider = \<lparr>dp_provider_id = ''gh'', dp_outcomes = [None, Some TimeoutError], dp_calls = [],
     dp_results = [], dp_reconciliation = []\<rparr>"

definition demo_payload_op :: "(string \<times> json) list" where
  "demo_payload_op = [(''operation_id'', JStr ''op'')]"

lemma deterministic_provider_executes_once_witness:
  "fst (det_dispatch ''PUSH'' [] ''key''
      (snd (det_dispatch ''PUSH'' [] ''other'' (snd (det_dispatch ''PUSH'' demo_payload_op ''key'' demo_provider)))))
   = Inr (Dispatch_Result (det_result ''gh'' demo_payload_op ''key''))"
proof -
  have run: "det_dispatch ''PUSH'' demo_payload_op ''key'' demo_provider =
      (Inr (Dispatch_Result (det_result ''gh'' demo_payload_op ''key'')),
       snd (det_dispatch ''PUSH'' demo_payload_op ''key'' demo_provider))"
    by (simp add: det_dispatch_run demo_provider_def Let_def)
  show ?thesis
    using deterministic_provider_executes_once[OF run refl, of "''PUSH''" "[]" "[(''PUSH'', [], ''other'')]"]
    by simp
qed

definition demo_result :: dispatch_result where
  "demo_result = det_result ''gh'' demo_payload_op ''key''"

lemma demo_apply:
  "\<exists>t. apply_result sh W (demo_op ''op'' ''key'') demo_result empty_results
     = (Inr (Some (applied_value (demo_op ''op'' ''key'') demo_result), True), t)"
proof -
  have "\<not> recorded_success empty_results (o_idempotency_key (demo_op ''op'' ''key''))"
    by (simp add: recorded_success_def empty_results_def)
  moreover have "version_of empty_results (aggregate_key (demo_op ''op'' ''key'')) = o_aggregate_version (demo_op ''op'' ''key'')"
    by (simp add: version_of_def empty_results_def demo_op_def)
  moreover have "fst (apply_result sh W (demo_op ''op'' ''key'') demo_result empty_results)
      \<noteq> Inl (IdempotencyConflictError ''Idempotency fingerprint changed'')"
    by (simp add: apply_result_def complete_idempotent_def bnd_runs bnd_def begin_run empty_results_def
        demo_op_def wall_def ok_def gets_def require_def upd_def Let_def)
  ultimately show ?thesis using apply_first[of empty_results "demo_op ''op'' ''key''" sh W demo_result] by auto
qed

lemma result_applied_once_witness:
  "\<exists>t. apply_result (sha demo_env) (clock demo_env) (demo_op ''op'' ''key'') demo_result empty_results
       = (Inr (Some (applied_value (demo_op ''op'' ''key'') demo_result), True), t)
     \<and> map_of (rs_applied (apply_all (sha demo_env) (clock demo_env) [((demo_op ''op'' ''key''), demo_result)] t)) ''key''
       = Some (applied_value (demo_op ''op'' ''key'') demo_result)"
proof -
  obtain t where t: "apply_result (sha demo_env) (clock demo_env) (demo_op ''op'' ''key'') demo_result empty_results
       = (Inr (Some (applied_value (demo_op ''op'' ''key'') demo_result), True), t)"
    using demo_apply by blast
  have "o_idempotency_key (demo_op ''op'' ''key'') = ''key''" by (simp add: demo_op_def)
  then show ?thesis
    using t result_applied_once[OF t refl, of "[((demo_op ''op'' ''key''), demo_result)]" demo_result] by auto
qed

end
