(* ===== verification/Outbox_Worker.thy ===== *)
theory Outbox_Worker
  imports Result_Application
begin

section \<open>Outbox workers\<close>

text \<open>
  \<^verbatim>\<open>runtime/outbox/worker.py\<close> (\<open>OutboxWorker\<close>), \<^verbatim>\<open>runtime/outbox/retry.py\<close>,
  \<^verbatim>\<open>runtime/outbox/reconciliation.py\<close>, \<^verbatim>\<open>runtime/outbox/dead_letter.py\<close> and
  \<^verbatim>\<open>runtime/outbox/metrics.py\<close>, for workers built without an event publisher (the default
  argument): \<open>_emit\<close> returns at once and the result is applied outside a transaction. The
  worker's state is the world it acts on: the repository, the results, the providers and
  handlers, its own counters. \<open>V\<close> is the worker's clock, \<open>W\<close> the wall clock of the results,
  \<open>P\<close> the methods of the providers, \<open>guard\<close> the optional \<open>result_guard\<close>.
\<close>

record 'p world =
  w_repo :: repo
  w_results :: results
  w_providers :: "(string, 'p) dict"
  w_handlers :: "(string, handler) dict"
  w_stopped :: bool
  w_dispatch_count :: int
  w_ticks :: nat

record worker_config =
  wk_id :: string
  wk_ttl :: int
  wk_base_seconds :: int
  wk_maximum_seconds :: int

type_synonym ('p, 'a) wop = "('p world, exn, 'a) sx"

definition on_repo :: "'a rop \<Rightarrow> ('p, 'a) wop" where
  "on_repo m = zoom w_repo (\<lambda>r w. w\<lparr>w_repo := r\<rparr>) m"

definition on_results :: "(results, exn, 'a) sx \<Rightarrow> ('p, 'a) wop" where
  "on_results m = zoom w_results (\<lambda>r w. w\<lparr>w_results := r\<rparr>) m"

definition worker_now :: "(nat \<Rightarrow> datetime) \<Rightarrow> ('p, datetime) wop" where
  "worker_now V w = (Inr (V (w_ticks w)), w\<lparr>w_ticks := Suc (w_ticks w)\<rparr>)"

text \<open>A method called on the provider object registered under an identifier.\<close>

definition on_provider :: "string \<Rightarrow> ('p, exn, 'a) sx \<Rightarrow> ('p, 'a) wop" where
  "on_provider pid m w =
     (case map_of (w_providers w) pid of
        None \<Rightarrow> (Inl (KeyError ''Dispatch provider not found''), w)
      | Some p \<Rightarrow> (case m p of (r, p') \<Rightarrow> (r, w\<lparr>w_providers := dset pid p' (w_providers w)\<rparr>)))"

subsection \<open>Classification of failures\<close>

record retry_decision =
  rd_category :: failure_category
  rd_retry_at :: "datetime option"
  rd_code :: string

definition classify :: "worker_config \<Rightarrow> exn \<Rightarrow> outbox_operation \<Rightarrow> datetime \<Rightarrow> retry_decision" where
  "classify cfg e op t =
     (case e of
        GitHubAuthenticationError \<Rightarrow>
          \<lparr>rd_category = NON_RETRYABLE, rd_retry_at = None, rd_code = ''AUTHENTICATION''\<rparr>
      | GitHubRateLimitError after \<Rightarrow>
          \<lparr>rd_category = RATE_LIMITED,
           rd_retry_at = Some (t + seconds (case after of None \<Rightarrow> wk_base_seconds cfg | Some n \<Rightarrow> n)),
           rd_code = ''RATE_LIMIT''\<rparr>
      | TimeoutError \<Rightarrow>
          \<lparr>rd_category = FC_RECONCILIATION_REQUIRED, rd_retry_at = None, rd_code = ''TIMEOUT_UNCERTAIN''\<rparr>
      | ExternalProviderUnavailableError \<Rightarrow>
          \<lparr>rd_category = RETRYABLE_BACKOFF,
           rd_retry_at = Some (t + seconds (min (wk_maximum_seconds cfg)
             (wk_base_seconds cfg * 2 ^ nat (max (o_attempt_count op - 1) 0)))),
           rd_code = ''PROVIDER_UNAVAILABLE''\<rparr>
      | _ \<Rightarrow>
          \<lparr>rd_category = NON_RETRYABLE, rd_retry_at = None, rd_code = map upper (exn_name e)\<rparr>)"

subsection \<open>OutboxWorker\<close>

definition note_failure :: "string \<Rightarrow> retry_decision \<Rightarrow> unit rop" where
  "note_failure k d =
     bnd (get_operation k) (\<lambda>op.
     put_operation k (op\<lparr>o_failure_category := Some (rd_category d), o_failure_code := Some (rd_code d)\<rparr>))"

text \<open>The handler of the outer \<open>except\<close> clause of \<open>run_one\<close>.\<close>

definition handle_failure ::
    "env \<Rightarrow> (nat \<Rightarrow> datetime) \<Rightarrow> worker_config \<Rightarrow> outbox_claim \<Rightarrow> exn \<Rightarrow> ('p, outbox_operation) wop" where
  "handle_failure E V cfg c e =
     bnd (on_repo (get_operation (c_operation_id c))) (\<lambda>op.
     bnd (worker_now V) (\<lambda>t.
     let d = classify cfg e op t in
     if rd_category d = FC_RECONCILIATION_REQUIRED
     then on_repo (mark_reconciliation_required E c (rd_code d))
     else if rd_category d \<in> {RETRYABLE_IMMEDIATE, RETRYABLE_BACKOFF, RATE_LIMITED}
     then
       bnd (case rd_retry_at d of Some a \<Rightarrow> ok a | None \<Rightarrow> worker_now V) (\<lambda>a.
       on_repo (mark_retry_wait E c (rd_category d) (rd_code d) a))
     else
       bnd (on_repo (note_failure (c_operation_id c) d)) (\<lambda>_.
       on_repo (mark_dead_letter E c (rd_code d)))))"

text \<open>The inner \<open>try\<close>: apply the result and mark the operation, else its outcome is uncertain.\<close>

definition confirm_result ::
    "env \<Rightarrow> (nat \<Rightarrow> datetime) \<Rightarrow> (outbox_operation \<Rightarrow> outbox_claim \<Rightarrow> ('p, unit) wop) \<Rightarrow>
     outbox_claim \<Rightarrow> outbox_operation \<Rightarrow> dispatch_result \<Rightarrow> ('p, outbox_operation) wop" where
  "confirm_result E W guard c op r =
     catch
       (bnd (guard op c) (\<lambda>_.
        bnd (on_results (apply_result (sha E) W op r)) (\<lambda>_.
        on_repo (mark_succeeded E c (ref_text (dr_result_reference r))))))
       (\<lambda>_. on_repo (mark_reconciliation_required E c ''LOCAL_RESULT_UNCONFIRMED''))"

definition dispatch_claimed ::
    "env \<Rightarrow> (nat \<Rightarrow> datetime) \<Rightarrow> 'p provider_methods \<Rightarrow>
     (outbox_operation \<Rightarrow> outbox_claim \<Rightarrow> ('p, unit) wop) \<Rightarrow> outbox_claim \<Rightarrow> outbox_operation \<Rightarrow>
     ('p, outbox_operation) wop" where
  "dispatch_claimed E W P guard c op =
     bnd (zoom w_handlers (\<lambda>h w. w\<lparr>w_handlers := h\<rparr>) (get_handler (o_operation_type op))) (\<lambda>h.
     bnd (on_provider (o_provider_id op) (gets (supports P (h_required_capability h)))) (\<lambda>sup.
     bnd (require sup (ValueError ''Provider capability is incompatible'')) (\<lambda>_.
     bnd (on_repo (mark_dispatching E c)) (\<lambda>op'.
     bnd (upd (\<lambda>w. w\<lparr>w_dispatch_count := w_dispatch_count w + 1\<rparr>)) (\<lambda>_.
     bnd (on_provider (o_provider_id op) (handler_dispatch P h op')) (\<lambda>r.
     confirm_result E W guard c op' r))))))"

definition run_one ::
    "env \<Rightarrow> (nat \<Rightarrow> datetime) \<Rightarrow> (nat \<Rightarrow> datetime) \<Rightarrow> 'p provider_methods \<Rightarrow>
     (outbox_operation \<Rightarrow> outbox_claim \<Rightarrow> ('p, unit) wop) \<Rightarrow> worker_config \<Rightarrow>
     ('p, outbox_operation option) wop" where
  "run_one E V W P guard cfg =
     bnd (gets w_stopped) (\<lambda>stopped.
     if stopped then ok None
     else
       bnd (on_repo (claim_next E (wk_id cfg) (wk_ttl cfg))) (\<lambda>claimed.
       case claimed of
         None \<Rightarrow> ok None
       | Some c \<Rightarrow>
           bnd (on_repo (get_operation (c_operation_id c))) (\<lambda>op.
           bnd (catch (dispatch_claimed E W P guard c op) (handle_failure E V cfg c))
             (\<lambda>op'. ok (Some op')))))"

text \<open>\<open>run_batch\<close>: at most \<open>n\<close> operations, until one run finds nothing.\<close>

fun run_batch ::
    "env \<Rightarrow> (nat \<Rightarrow> datetime) \<Rightarrow> (nat \<Rightarrow> datetime) \<Rightarrow> 'p provider_methods \<Rightarrow>
     (outbox_operation \<Rightarrow> outbox_claim \<Rightarrow> ('p, unit) wop) \<Rightarrow> worker_config \<Rightarrow> nat \<Rightarrow>
     ('p, outbox_operation list) wop" where
  "run_batch E V W P guard cfg 0 = ok []"
| "run_batch E V W P guard cfg (Suc n) =
     bnd (run_one E V W P guard cfg) (\<lambda>r.
     case r of
       None \<Rightarrow> ok []
     | Some op \<Rightarrow> bnd (run_batch E V W P guard cfg n) (\<lambda>ops. ok (op # ops)))"

definition stop_worker :: "('p, unit) wop" where
  "stop_worker = upd (\<lambda>w. w\<lparr>w_stopped := True\<rparr>)"

text \<open>A worker without a \<open>result_guard\<close>.\<close>

definition no_guard :: "outbox_operation \<Rightarrow> outbox_claim \<Rightarrow> ('p, unit) wop" where
  "no_guard op c = ok ()"

subsection \<open>ReconciliationWorker\<close>

definition set_reconciliation_state :: "string \<Rightarrow> reconciliation_state \<Rightarrow> unit rop" where
  "set_reconciliation_state k st =
     bnd (get_operation k) (\<lambda>op. put_operation k (op\<lparr>o_reconciliation_state := st\<rparr>))"

text \<open>The default claim of \<open>claim_reconciliation\<close> lasts 30 seconds.\<close>

definition reconcile_one ::
    "env \<Rightarrow> (nat \<Rightarrow> datetime) \<Rightarrow> 'p provider_methods \<Rightarrow> string \<Rightarrow> ('p, outbox_operation option) wop" where
  "reconcile_one E W P wid =
     bnd (on_repo (claim_reconciliation E wid 30)) (\<lambda>claimed.
     case claimed of
       None \<Rightarrow> ok None
     | Some c \<Rightarrow>
         bnd (on_repo (get_operation (c_operation_id c))) (\<lambda>op.
         bnd (on_provider (o_provider_id op) (reconcile P (o_idempotency_key op))) (\<lambda>v.
         let st = (case v of Reconciled_Dispatch _ \<Rightarrow> RC_SUCCEEDED | Reconciled r \<Rightarrow> rr_status r);
             res = (case v of Reconciled_Dispatch d \<Rightarrow> Some d | Reconciled r \<Rightarrow> rr_dispatch_result r) in
         if st = NOT_EXECUTED then
           bnd (on_repo (set_reconciliation_state (c_operation_id c) RESOLVED)) (\<lambda>_.
           bnd (on_repo (release_claim E c)) (\<lambda>_.
           bnd (on_repo (get_operation (c_operation_id c))) (\<lambda>op'. ok (Some op'))))
         else if st = RC_IN_PROGRESS then
           bnd (on_repo (mark_reconciliation_required E c ''PROVIDER_IN_PROGRESS'')) (\<lambda>op'. ok (Some op'))
         else if st \<in> {FAILED, RC_UNVERIFIABLE} then
           bnd (on_repo (set_reconciliation_state (c_operation_id c) UNVERIFIABLE)) (\<lambda>_.
           bnd (on_repo (mark_dead_letter E c
             (if st = FAILED then ''Provider confirmed failure'' else ''Provider outcome unverifiable'')))
             (\<lambda>op'. ok (Some op')))
         else
           case res of
             None \<Rightarrow> bnd (on_results (apply_missing (sha E) W op)) (\<lambda>_. ok None)
           | Some r \<Rightarrow>
               bnd (on_results (apply_result (sha E) W op r)) (\<lambda>_.
               bnd (on_repo (mark_succeeded E c (ref_text (dr_result_reference r)))) (\<lambda>op'. ok (Some op'))))))"

end
