(* ===== verification/Outbox_Worker_Safety.thy ===== *)
theory Outbox_Worker_Safety
  imports Outbox_Worker
begin

section \<open>What workers do to the outbox\<close>

text \<open>
  A worker's run, whatever its provider does and wherever it raises, is a sequence of steps of
  the abstract outbox; the outcome of a claimed operation is one of four statuses, decided by
  what the provider did; success is recorded only after the result was applied.
\<close>

subsection \<open>Runs refine the specification of the outbox\<close>

definition wsafe :: "env \<Rightarrow> ('p, 'a) wop \<Rightarrow> bool" where
  "wsafe E m \<longleftrightarrow> (\<forall>w r w'. repo_inv E (w_repo w) \<longrightarrow> m w = (r, w') \<longrightarrow>
     steps E (w_repo w) (w_repo w') \<and> repo_inv E (w_repo w'))"

named_theorems wsafe_intros \<open>rules that build the safety of a worker's run\<close>

lemma wsafe_still:
  "(\<And>w r w'. m w = (r, w') \<Longrightarrow> w_repo w' = w_repo w) \<Longrightarrow> wsafe E m"
  by (auto simp: wsafe_def)

lemma wsafe_pure [wsafe_intros]:
  "wsafe E (ok x)" "wsafe E (fail e)" "wsafe E (gets f)" "wsafe E (require b e)" "wsafe E (worker_now V)"
  by (auto simp: wsafe_def sx_defs worker_now_def)

lemma wsafe_bnd [wsafe_intros]:
  assumes "wsafe E m" and "\<And>x. wsafe E (f x)"
  shows "wsafe E (bnd m f)"
  unfolding wsafe_def
proof (intro allI impI)
  fix w r w'
  assume inv: "repo_inv E (w_repo w)" and run: "bnd m f w = (r, w')"
  obtain x u where m: "m w = (x, u)" by fastforce
  with assms(1) inv have "steps E (w_repo w) (w_repo u)" "repo_inv E (w_repo u)"
    by (auto simp: wsafe_def)
  with assms(2) run m show "steps E (w_repo w) (w_repo w') \<and> repo_inv E (w_repo w')"
    by (cases x) (auto simp: bnd_def wsafe_def intro: steps_trans)
qed

lemma wsafe_catch [wsafe_intros]:
  assumes "wsafe E m" and "\<And>e. wsafe E (h e)"
  shows "wsafe E (catch m h)"
  unfolding wsafe_def
proof (intro allI impI)
  fix w r w'
  assume inv: "repo_inv E (w_repo w)" and run: "catch m h w = (r, w')"
  obtain x u where m: "m w = (x, u)" by fastforce
  with assms(1) inv have "steps E (w_repo w) (w_repo u)" "repo_inv E (w_repo u)"
    by (auto simp: wsafe_def)
  with assms(2) run m show "steps E (w_repo w) (w_repo w') \<and> repo_inv E (w_repo w')"
    by (cases x) (auto simp: catch_def wsafe_def intro: steps_trans)
qed

lemma wsafe_cases [wsafe_intros]:
  "(b \<Longrightarrow> wsafe E m) \<Longrightarrow> (\<not> b \<Longrightarrow> wsafe E n) \<Longrightarrow> wsafe E (if b then m else n)"
  "wsafe E m1 \<Longrightarrow> (\<And>y. wsafe E (m2 y)) \<Longrightarrow> wsafe E (case x of None \<Rightarrow> m1 | Some y \<Rightarrow> m2 y)"
  by (auto split: option.split)

lemma wsafe_on_repo: "hashes E \<Longrightarrow> refines E m \<Longrightarrow> wsafe E (on_repo m)"
  unfolding wsafe_def on_repo_def zoom_def
  by (auto split: prod.splits intro: steps_inv dest: refinesD)

lemma wsafe_elsewhere [wsafe_intros]:
  "wsafe E (on_results m)" "wsafe E (on_provider pid n)"
  "wsafe E (zoom w_handlers (\<lambda>h w. w\<lparr>w_handlers := h\<rparr>) k)"
  "wsafe E (upd (\<lambda>w. w\<lparr>w_dispatch_count := w_dispatch_count w + 1\<rparr>))"
  by (rule wsafe_still; auto simp: on_results_def on_provider_def zoom_def upd_def
      split: prod.splits option.splits)+

lemma refines_get: "refines E (get_operation k)"
  by (rule refinesI) (auto simp: get_operation_def split: option.splits)

lemma refines_note_failure: "refines E (note_failure k d)"
  unfolding note_failure_def
  by (rule refines_on_operation, rule steps_change[OF _ ch_note]) (auto simp: run_defs)

lemma refines_set_reconciliation_state: "refines E (set_reconciliation_state k st)"
  unfolding set_reconciliation_state_def
  by (rule refines_on_operation, rule steps_change[OF _ ch_resolved]) (auto simp: run_defs)

lemmas refines_worker = refines_get refines_note_failure refines_set_reconciliation_state
  refines_claim_next refines_claim_reconciliation refines_release refines_mark_dispatching
  refines_mark_succeeded refines_mark_retry_wait refines_mark_reconciliation_required
  refines_mark_dead_letter

lemma wsafe_handle_failure: "hashes E \<Longrightarrow> wsafe E (handle_failure E V cfg c e)"
  unfolding handle_failure_def Let_def
  by (intro wsafe_intros wsafe_on_repo refines_worker)

lemma wsafe_dispatch_claimed:
  "hashes E \<Longrightarrow> (\<And>op c. wsafe E (guard op c)) \<Longrightarrow> wsafe E (dispatch_claimed E W P guard c op)"
  unfolding dispatch_claimed_def confirm_result_def
  by (intro wsafe_intros wsafe_on_repo refines_worker) assumption+

lemma wsafe_run_one:
  "hashes E \<Longrightarrow> (\<And>op c. wsafe E (guard op c)) \<Longrightarrow> wsafe E (run_one E V W P guard cfg)"
  unfolding run_one_def
  by (intro wsafe_intros wsafe_on_repo refines_worker wsafe_dispatch_claimed wsafe_handle_failure)
    assumption+

lemma wsafe_run_batch:
  "hashes E \<Longrightarrow> (\<And>op c. wsafe E (guard op c)) \<Longrightarrow> wsafe E (run_batch E V W P guard cfg n)"
  by (induction n) (simp_all add: wsafe_intros wsafe_run_one)

lemma wsafe_reconcile_one: "hashes E \<Longrightarrow> wsafe E (reconcile_one E W P wid)"
  unfolding reconcile_one_def Let_def
  by (intro wsafe_intros wsafe_on_repo refines_worker) assumption+

lemma wsafe_no_guard: "wsafe E (no_guard op c)"
  unfolding no_guard_def by (rule wsafe_intros)


text \<open>The same of a run of the reconciliation worker.\<close>

theorem reconciliation_refines_outbox:
  assumes "hashes E" and "repo_inv E (w_repo w)" and "reconcile_one E W P wid w = (r, w')"
  shows "(spec_step (sha E))\<^sup>*\<^sup>* (abs_repo (w_repo w)) (abs_repo (w_repo w')) \<and> repo_inv E (w_repo w')"
  using wsafe_reconcile_one[OF assms(1), of W P wid] assms(2,3)
  by (auto simp: wsafe_def steps_def)

subsection \<open>Outcomes\<close>

text \<open>The operation a marking method returns is the one it stored, in the status it is named for.\<close>

definition stored :: "repo \<Rightarrow> outbox_claim \<Rightarrow> outbox_operation \<Rightarrow> bool" where
  "stored t c op \<longleftrightarrow> map_of (operations t) (c_operation_id c) = Some op"

lemma claim_body_run:
  assumes "bnd (validate_claim E c) f s = (Inr x, t)"
  obtains op where "map_of (operations s) (c_operation_id c) = Some op"
    and "f op (s\<lparr>ticks := Suc (ticks s)\<rparr>) = (Inr x, t)"
  using assms by (auto simp: with_claim_run split: option.splits)

lemma mark_succeeded_result:
  assumes "mark_succeeded E c ref s = (Inr op, t)"
  shows "o_status op = SUCCEEDED \<and> stored t c op"
  using assms unfolding mark_succeeded_def
  by (rule claim_body_run)
    (auto simp: bnd_require bnd_now Let_def finish_put_run ok_def stored_def clear_claim_def split: if_splits)

lemma mark_reconciliation_required_result:
  assumes "mark_reconciliation_required E c code s = (Inr op, t)"
  shows "o_status op = RECONCILIATION_REQUIRED \<and> stored t c op"
  using assms unfolding mark_reconciliation_required_def
  by (rule claim_body_run) (auto simp: bnd_now Let_def finish_put_run stored_def clear_claim_def)

lemma mark_dead_letter_result:
  assumes "mark_dead_letter E c reason s = (Inr op, t)"
  shows "o_status op = DEAD_LETTER \<and> stored t c op"
  using assms unfolding mark_dead_letter_def dead_letter_def
  by (rule claim_body_run) (auto simp: bnd_now Let_def finish_put_run stored_def clear_claim_def)

lemma mark_retry_wait_result:
  assumes "mark_retry_wait E c cat code a s = (Inr op, t)"
  shows "stored t c op
    \<and> o_status op = (if o_maximum_attempts op \<le> o_attempt_count op then DEAD_LETTER else RETRY_WAIT)"
  using assms unfolding mark_retry_wait_def dead_letter_def
  by (rule claim_body_run)
    (auto simp: bnd_now Let_def finish_put_run stored_def clear_claim_def split: if_splits)

lemmas mark_results = mark_succeeded_result mark_reconciliation_required_result
  mark_dead_letter_result mark_retry_wait_result

lemma on_repo_run: "on_repo m w = (r, w') \<longleftrightarrow> (\<exists>t. m (w_repo w) = (r, t) \<and> w' = w\<lparr>w_repo := t\<rparr>)"
  by (auto simp: on_repo_def zoom_def split: prod.splits)

text \<open>What a failure leads to: the class of the exception decides.\<close>

datatype verdict = Uncertain | Retryable | Permanent

fun verdict_of :: "exn \<Rightarrow> verdict" where
  "verdict_of TimeoutError = Uncertain"
| "verdict_of (GitHubRateLimitError _) = Retryable"
| "verdict_of ExternalProviderUnavailableError = Retryable"
| "verdict_of _ = Permanent"

lemma classify_verdict:
  "rd_category (classify cfg e op t) = FC_RECONCILIATION_REQUIRED \<longleftrightarrow> verdict_of e = Uncertain"
  "rd_category (classify cfg e op t) \<in> {RETRYABLE_IMMEDIATE, RETRYABLE_BACKOFF, RATE_LIMITED}
     \<longleftrightarrow> verdict_of e = Retryable"
  by (cases e; simp add: classify_def)+

lemma handle_failure_settles:
  assumes "handle_failure E V cfg c e w = (Inr op, w')"
  shows "stored (w_repo w') c op
    \<and> o_status op =
       (case verdict_of e of
          Uncertain \<Rightarrow> RECONCILIATION_REQUIRED
        | Retryable \<Rightarrow> (if o_maximum_attempts op \<le> o_attempt_count op then DEAD_LETTER else RETRY_WAIT)
        | Permanent \<Rightarrow> DEAD_LETTER)"
proof -
  from assms obtain op0 u t v where
    "(let d = classify cfg e op0 t in
     if rd_category d = FC_RECONCILIATION_REQUIRED
     then on_repo (mark_reconciliation_required E c (rd_code d))
     else if rd_category d \<in> {RETRYABLE_IMMEDIATE, RETRYABLE_BACKOFF, RATE_LIMITED}
     then
       bnd (case rd_retry_at d of Some a \<Rightarrow> ok a | None \<Rightarrow> worker_now V) (\<lambda>a.
       on_repo (mark_retry_wait E c (rd_category d) (rd_code d) a))
     else
       bnd (on_repo (note_failure (c_operation_id c) d)) (\<lambda>_.
       on_repo (mark_dead_letter E c (rd_code d)))) v = (Inr op, w')"
    unfolding handle_failure_def by (elim bnd_InrE)
  then show ?thesis
    unfolding Let_def classify_verdict
    by (cases "verdict_of e") (auto simp: on_repo_run elim!: bnd_InrE dest!: mark_results)
qed


lemma dispatch_claimed_outcome:
  assumes "dispatch_claimed E W P guard c op w = (Inr op', w')"
  shows "stored (w_repo w') c op' \<and> o_status op' \<in> {SUCCEEDED, RECONCILIATION_REQUIRED}"
proof -
  from assms obtain r w1 where "confirm_result E W guard c (fst r) (snd r) w1 = (Inr op', w')"
    unfolding dispatch_claimed_def by (elim bnd_InrE) (metis fst_conv snd_conv)
  then show ?thesis
    unfolding confirm_result_def catch_def
    by (auto simp: on_repo_run split: prod.splits sum.splits elim!: bnd_InrE dest!: mark_results)
qed


subsection \<open>Success is recorded after application\<close>

lemma mark_dispatching_result:
  assumes "mark_dispatching E c s = (Inr op, t)"
  shows "o_status op = DISPATCHING \<and> stored t c op"
  using assms unfolding mark_dispatching_def
  by (rule claim_body_run)
    (auto simp: bnd_require bnd_now Let_def stored_def run_defs split: if_splits)

lemma mark_succeeded_identity:
  assumes "mark_succeeded E c ref s = (Inr op, t)"
  shows "\<exists>op0. map_of (operations s) (c_operation_id c) = Some op0 \<and> identity op = identity op0"
  using assms unfolding mark_succeeded_def
  by (rule claim_body_run)
    (auto simp: bnd_require bnd_now Let_def finish_put_run ok_def clear_claim_def identity_def
      split: if_splits)

lemma apply_result_recorded:
  assumes "apply_result sh W op r s = (Inr x, t)"
  shows "recorded_success t (o_idempotency_key op)"
proof (cases "recorded_success s (o_idempotency_key op)")
  case True
  then show ?thesis using apply_again(3)[OF True assms] by (simp add: recorded_success_def)
next
  case False
  then show ?thesis using apply_first[OF False, of sh W r] assms by auto
qed

lemma on_results_run: "on_results m w = (r, w') \<longleftrightarrow>
    (\<exists>t. m (w_results w) = (r, t) \<and> w' = w\<lparr>w_results := t\<rparr>)"
  by (auto simp: on_results_def zoom_def split: prod.splits)

lemma on_provider_repo: "on_provider pid m w = (r, w') \<Longrightarrow> w_repo w' = w_repo w"
  by (auto simp: on_provider_def split: option.splits prod.splits)

lemma confirm_result_recorded:
  assumes "confirm_result E W guard c op r w = (Inr op', w')" and "o_status op' = SUCCEEDED"
    and "wsafe E (guard op c)" and "repo_inv E (w_repo w)" and "stored (w_repo w) c op"
  shows "recorded_success (w_results w') (o_idempotency_key op')"
proof -
  let ?body = "bnd (guard op c) (\<lambda>_. bnd (on_results (apply_result (sha E) W op r)) (\<lambda>_.
        on_repo (mark_succeeded E c (ref_text (dr_result_reference r)))))"
  have body: "?body w = (Inr op', w')"
    using assms(1,2) unfolding confirm_result_def catch_def
    by (auto simp: on_repo_run split: prod.splits sum.splits dest!: mark_reconciliation_required_result)
  then obtain g u where g: "guard op c w = (Inr g, u)"
    and rest: "bnd (on_results (apply_result (sha E) W op r)) (\<lambda>_.
        on_repo (mark_succeeded E c (ref_text (dr_result_reference r)))) u = (Inr op', w')"
    by (rule bnd_InrE)
  from rest obtain x t s' where a: "apply_result (sha E) W op r (w_results u) = (Inr x, t)"
    and m: "mark_succeeded E c (ref_text (dr_result_reference r)) (w_repo u) = (Inr op', s')"
    and w': "w' = u\<lparr>w_results := t, w_repo := s'\<rparr>"
    by (rule bnd_InrE) (auto simp: on_results_run on_repo_run)
  obtain op1 where op1: "map_of (operations (w_repo u)) (c_operation_id c) = Some op1" "identity op' = identity op1"
    using mark_succeeded_identity[OF m] by blast
  have "steps E (w_repo w) (w_repo u)" using assms(3,4) g by (auto simp: wsafe_def)
  then have "identity op1 = identity op"
    using steps_op_le[of E "w_repo w" "w_repo u"] assms(5) op1(1)
    by (force simp: stored_def op_le_def)
  then have "o_idempotency_key op' = o_idempotency_key op" using op1(2) identity_key(1) by metis
  then show ?thesis using apply_result_recorded[OF a] w' by simp
qed


subsection \<open>Backoff\<close>

text \<open>The delay before retrying an unavailable provider doubles with the attempts and never exceeds
  the configured maximum.\<close>

theorem backoff_bounded:
  assumes "0 \<le> wk_base_seconds cfg" and "o_attempt_count op \<le> o_attempt_count op'"
  shows "\<exists>d d'. rd_retry_at (classify cfg ExternalProviderUnavailableError op t) = Some (t + seconds d)
    \<and> rd_retry_at (classify cfg ExternalProviderUnavailableError op' t) = Some (t + seconds d')
    \<and> d \<le> d' \<and> d' \<le> wk_maximum_seconds cfg
    \<and> (1 \<le> o_attempt_count op \<longrightarrow> d = min (wk_maximum_seconds cfg)
         (wk_base_seconds cfg * 2 ^ nat (o_attempt_count op - 1)))"
proof -
  let ?n = "\<lambda>op. nat (max (o_attempt_count op - 1) 0)"
  have "?n op \<le> ?n op'" using assms(2) by simp
  then have "(2::int) ^ ?n op \<le> 2 ^ ?n op'" by (rule power_increasing) simp
  then have "wk_base_seconds cfg * 2 ^ ?n op \<le> wk_base_seconds cfg * 2 ^ ?n op'"
    using assms(1) by (rule mult_left_mono)
  then have "min (wk_maximum_seconds cfg) (wk_base_seconds cfg * 2 ^ ?n op)
      \<le> min (wk_maximum_seconds cfg) (wk_base_seconds cfg * 2 ^ ?n op')"
    by (rule min.mono[OF order_refl])
  then show ?thesis
    by (intro exI[of _ "min (wk_maximum_seconds cfg) (wk_base_seconds cfg * 2 ^ ?n op)"]
        exI[of _ "min (wk_maximum_seconds cfg) (wk_base_seconds cfg * 2 ^ ?n op')"])
      (simp add: classify_def)
qed

subsection \<open>A worker whose claim was superseded\<close>

text \<open>C27: a worker whose claim was superseded still writes to the operation: when its dispatch fails
  with an exception that is not retried, \<open>run_one\<close> stores the failure category and code on the
  operation before \<open>mark_dead_letter\<close> refuses the stale claim, so the record of an operation now
  held by another worker is overwritten; every other field stays.\<close>

theorem superseded_worker_overwrites_failure:
  assumes "map_of (operations (w_repo w)) (c_operation_id c) = Some op"
    and "o_fencing_token op \<noteq> c_fencing_token c" and "verdict_of e = Permanent"
  shows "\<exists>err w'. handle_failure E V cfg c e w = (Inl err, w')
    \<and> map_of (operations (w_repo w')) (c_operation_id c) =
        Some (op\<lparr>o_failure_category := Some NON_RETRYABLE,
                 o_failure_code := Some (rd_code (classify cfg e op (V (w_ticks w))))\<rparr>)"
proof -
  let ?d = "classify cfg e op (V (w_ticks w))" and ?k = "c_operation_id c"
  let ?op = "op\<lparr>o_failure_category := Some (rd_category ?d), o_failure_code := Some (rd_code ?d)\<rparr>"
  have cat: "rd_category ?d = NON_RETRYABLE"
    using assms(3) by (cases e) (simp_all add: classify_def)
  let ?s = "(w_repo w)\<lparr>operations := dset ?k ?op (operations (w_repo w))\<rparr>"
  have "claim_error E (clock E (ticks ?s)) c ?op \<noteq> None"
    using assms(2) by (simp add: claim_error_def split: option.splits)
  then obtain err where "claim_error E (clock E (ticks ?s)) c ?op = Some err" by blast
  then have md: "mark_dead_letter E c (rd_code ?d) ?s = (Inl err, ?s\<lparr>ticks := Suc (ticks ?s)\<rparr>)"
    unfolding mark_dead_letter_def with_claim_run by simp
  have "handle_failure E V cfg c e w =
      on_repo (mark_dead_letter E c (rd_code ?d))
        (w\<lparr>w_ticks := Suc (w_ticks w),
           w_repo := (w_repo w)\<lparr>operations := dset ?k ?op (operations (w_repo w))\<rparr>\<rparr>)"
    using assms(1) cat
    by (simp add: handle_failure_def bnd_def on_repo_def zoom_def get_operation_def worker_now_def
        Let_def note_failure_def put_operation_def upd_def)
  then show ?thesis using md cat by (simp add: on_repo_def zoom_def)
qed

end
