(* ===== verification/Outbox_Worker_Demo.thy ===== *)
theory Outbox_Worker_Demo
  imports Outbox_Worker_Safety
begin

section \<open>Runs of the outbox worker\<close>

text \<open>
  Concrete runs of the worker on one pending operation: what the hypotheses of the properties of
  \<^verbatim>\<open>Outbox_Worker_Safety\<close> look like when they hold.
\<close>

subsection \<open>A worker at work\<close>

definition demo_config :: worker_config where
  "demo_config = \<lparr>wk_id = ''w1'', wk_ttl = 30, wk_base_seconds = 1, wk_maximum_seconds = 60\<rparr>"

definition demo_world :: "exn option list \<Rightarrow> det_provider world" where
  "demo_world outs = \<lparr>w_repo = demo_1, w_results = empty_results,
     w_providers = [(''gh'', demo_provider\<lparr>dp_outcomes := outs\<rparr>)],
     w_handlers = [(''PUSH'', deterministic_handler ''PUSH'')], w_stopped = False,
     w_dispatch_count = 0, w_ticks = 0\<rparr>"

text \<open>
  A world with one pending operation and the deterministic provider, which answers with the given
  outcomes.
\<close>

definition demo_run :: "exn option list \<Rightarrow> (exn + outbox_operation option) \<times> det_provider world" where
  "demo_run outs = run_one demo_env (\<lambda>_. 0) (\<lambda>_. 0) det_methods no_guard demo_config (demo_world outs)"

definition demo_status :: "exn option list \<Rightarrow> outbox_status option" where
  "demo_status outs = (case fst (demo_run outs) of Inr (Some op) \<Rightarrow> Some (o_status op) | _ \<Rightarrow> None)"

lemma demo_run_ok: "demo_status [] = Some SUCCEEDED"
  by code_simp

lemma demo_run_timeout: "demo_status [Some TimeoutError] = Some RECONCILIATION_REQUIRED"
  by code_simp

definition demo_failure :: "exn \<Rightarrow> (exn + outbox_operation) \<times> det_provider world" where
  "demo_failure e = handle_failure demo_env (\<lambda>_. 0) demo_config demo_claim e
     ((demo_world [])\<lparr>w_repo := demo_3\<rparr>)"

lemma demo_failure_run: "\<exists>op w'. handle_failure demo_env (\<lambda>_. 0) demo_config demo_claim TimeoutError
     ((demo_world [])\<lparr>w_repo := demo_3\<rparr>) = (Inr op, w')"
proof -
  have "case fst (demo_failure TimeoutError) of Inl _ \<Rightarrow> False | Inr _ \<Rightarrow> True" by code_simp
  then show ?thesis by (cases "demo_failure TimeoutError") (auto simp: demo_failure_def split: sum.splits)
qed


lemma demo_settled: "\<exists>op w'. run_one demo_env (\<lambda>_. 0) (\<lambda>_. 0) det_methods no_guard demo_config (demo_world [])
     = (Inr (Some op), w') \<and> o_status op = SUCCEEDED"
  using demo_run_ok
  by (cases "demo_run []") (auto simp: demo_status_def demo_run_def split: sum.splits option.splits)


lemma demo_world_inv: "repo_inv demo_env (w_repo (demo_world outs))"
  using reachable_inv[OF demo_1_reachable demo_hashes] by (simp add: demo_world_def)



lemma reconciliation_refines_outbox_witness:
  "repo_inv demo_env (w_repo (snd (reconcile_one demo_env (\<lambda>_. 0) det_methods ''w1'' (demo_world []))))"
proof -
  obtain r w' where "reconcile_one demo_env (\<lambda>_. 0) det_methods ''w1'' (demo_world []) = (r, w')" by fastforce
  from reconciliation_refines_outbox[OF demo_hashes demo_world_inv this] this show ?thesis by simp
qed

lemma backoff_bounded_witness:
  "\<exists>d'. rd_retry_at (classify demo_config ExternalProviderUnavailableError
     ((demo_op ''op'' ''key'')\<lparr>o_attempt_count := 9\<rparr>) 0) = Some (seconds d') \<and> d' \<le> 60"
  using backoff_bounded[of demo_config "demo_op ''op'' ''key''" "(demo_op ''op'' ''key'')\<lparr>o_attempt_count := 9\<rparr>" 0]
  by (auto simp: demo_config_def demo_op_def)

lemma superseded_worker_overwrites_failure_witness:
  "\<exists>err w'. handle_failure demo_env (\<lambda>_. 0) demo_config (demo_claim\<lparr>c_fencing_token := 7\<rparr>) (KeyError ''k'')
     ((demo_world [])\<lparr>w_repo := demo_2\<rparr>) = (Inl err, w')"
proof -
  have "map_of (operations (w_repo ((demo_world [])\<lparr>w_repo := demo_2\<rparr>)))
      (c_operation_id (demo_claim\<lparr>c_fencing_token := 7\<rparr>))
      = Some (claimed (demo_op ''op'' ''key'') ''w1'' ''#t0'' 0 30000000)"
    by (simp add: demo_2_ops demo_claim_def)
  from superseded_worker_overwrites_failure[OF this, of "KeyError ''k''" demo_env "\<lambda>_. 0" demo_config]
  show ?thesis by (auto simp: claimed_def demo_op_def)
qed

end
