(* ===== verification/Outbox_Service.thy ===== *)
theory Outbox_Service
  imports Outbox_Safety
begin

section \<open>Operators, creation of operations, metrics\<close>

text \<open>
  \<^verbatim>\<open>runtime/outbox/service.py\<close> (\<open>create_operation\<close>, for a service without an event publisher, which
  the decorator \<open>atomic_domain_operation\<close> runs directly), \<^verbatim>\<open>runtime/outbox/dead_letter.py\<close> (the
  operator's controls with their audit entries), \<^verbatim>\<open>runtime/outbox/metrics.py\<close> and the counts of
  \<^verbatim>\<open>runtime/workers/supervisor.py\<close>. \<open>W\<close> is the wall clock \<open>datetime.now\<close>.
\<close>

subsection \<open>OutboxService\<close>

text \<open>The keyword arguments of \<open>create_operation\<close>; absent timestamps take their defaults.\<close>

record creation =
  cr_operation :: outbox_operation
  cr_available_at :: "datetime option"
  cr_created_at :: "datetime option"

definition create_operation :: "env \<Rightarrow> datetime \<Rightarrow> creation \<Rightarrow> outbox_operation rop" where
  "create_operation E wall v =
     (let t = (case cr_created_at v of None \<Rightarrow> wall | Some t \<Rightarrow> t);
          a = (case cr_available_at v of None \<Rightarrow> t | Some a \<Rightarrow> a);
          op = (cr_operation v)\<lparr>o_status := PENDING, o_available_at := a, o_created_at := t\<rparr> in
      bnd (of_sum (validate_operation op)) (\<lambda>op.
      bnd (add_operation E op) (\<lambda>_. ok op)))"



subsection \<open>OutboxOperatorService\<close>

record operator_audit =
  oa_actor_id :: string
  oa_operation_id :: string
  oa_action :: string
  oa_reason :: string
  oa_timestamp :: datetime

record operator =
  os_repo :: repo
  os_audit :: "operator_audit list"
  os_ticks :: nat

type_synonym 'a oop = "(operator, exn, 'a) sx"

definition in_repo :: "'a rop \<Rightarrow> 'a oop" where
  "in_repo m = zoom os_repo (\<lambda>r s. s\<lparr>os_repo := r\<rparr>) m"

definition authorize :: "string \<Rightarrow> string \<Rightarrow> unit oop" where
  "authorize actor reason =
     require (actor \<noteq> [] \<and> reason \<noteq> [])
       (OutboxAuthorizationError ''Operator identity and reason are required'')"

definition record_audit ::
    "(nat \<Rightarrow> datetime) \<Rightarrow> string \<Rightarrow> string \<Rightarrow> string \<Rightarrow> string \<Rightarrow> unit oop" where
  "record_audit W actor k action reason =
     upd (\<lambda>s. s\<lparr>os_audit := os_audit s @ [\<lparr>oa_actor_id = actor, oa_operation_id = k,
         oa_action = action, oa_reason = reason, oa_timestamp = W (os_ticks s)\<rparr>],
       os_ticks := Suc (os_ticks s)\<rparr>)"

text \<open>The shape every control has: authorise, act, record.\<close>

definition controlled ::
    "(nat \<Rightarrow> datetime) \<Rightarrow> string \<Rightarrow> string \<Rightarrow> string \<Rightarrow> string \<Rightarrow> 'a rop \<Rightarrow> 'a oop" where
  "controlled W actor k action reason m =
     bnd (authorize actor reason) (\<lambda>_.
     bnd (in_repo m) (\<lambda>x.
     bnd (record_audit W actor k action reason) (\<lambda>_. ok x)))"

definition operator_retry_dead_letter ::
    "env \<Rightarrow> (nat \<Rightarrow> datetime) \<Rightarrow> string \<Rightarrow> string \<Rightarrow> string \<Rightarrow> outbox_operation oop" where
  "operator_retry_dead_letter E W k actor reason =
     controlled W actor k ''RETRY'' reason (retry_dead_letter E k)"

definition operator_abandon ::
    "env \<Rightarrow> (nat \<Rightarrow> datetime) \<Rightarrow> string \<Rightarrow> string \<Rightarrow> string \<Rightarrow> outbox_operation oop" where
  "operator_abandon E W k actor reason =
     controlled W actor k ''ABANDON'' reason (abandon_operation E k reason)"

definition replacement_of ::
    "outbox_operation \<Rightarrow> string \<Rightarrow> json \<Rightarrow> datetime \<Rightarrow> datetime \<Rightarrow> exn + outbox_operation" where
  "replacement_of src rid payload available created =
     new_operation rid (o_runtime_id src) (o_project_id src) (o_task_id src) (o_work_item_id src)
       (o_operation_type src) (o_provider_id src) (o_aggregate_id src) (o_aggregate_version src)
       (o_idempotency_key src @ '':replacement:'' @ rid) (o_correlation_id src) (o_causation_id src)
       payload (o_payload_schema_version src) PENDING (o_priority src) available created
       (o_maximum_attempts src)"

definition operator_clone_corrected ::
    "env \<Rightarrow> (nat \<Rightarrow> datetime) \<Rightarrow> string \<Rightarrow> string \<Rightarrow> json \<Rightarrow> string \<Rightarrow> string \<Rightarrow> outbox_operation oop" where
  "operator_clone_corrected E W k rid payload actor reason =
     controlled W actor k ''CLONE'' reason
       (bnd (get_operation k) (\<lambda>src.
        bnd (now E) (\<lambda>a.
        bnd (now E) (\<lambda>c.
        bnd (of_sum (replacement_of src rid payload a c)) (\<lambda>op.
        bnd (add_operation E op) (\<lambda>_. ok op))))))"

definition operator_pause_provider ::
    "(nat \<Rightarrow> datetime) \<Rightarrow> string \<Rightarrow> string \<Rightarrow> string \<Rightarrow> unit oop" where
  "operator_pause_provider W p actor reason =
     controlled W actor p ''PAUSE_PROVIDER'' reason (pause_provider p)"

definition operator_resume_provider ::
    "(nat \<Rightarrow> datetime) \<Rightarrow> string \<Rightarrow> string \<Rightarrow> string \<Rightarrow> unit oop" where
  "operator_resume_provider W p actor reason =
     controlled W actor p ''RESUME_PROVIDER'' reason (resume_provider p)"

definition list_dead_letters :: "operator \<Rightarrow> outbox_operation list" where
  "list_dead_letters s = list_operations (Some DEAD_LETTER) (os_repo s)"

text \<open>The five controls, as requests.\<close>

datatype control = Retry string | Abandon string | Clone string string json | Pause string | Resume string

fun control_subject :: "control \<Rightarrow> string" where
  "control_subject (Retry k) = k"
| "control_subject (Abandon k) = k"
| "control_subject (Clone k _ _) = k"
| "control_subject (Pause p) = p"
| "control_subject (Resume p) = p"

definition void :: "('s, 'e, 'a) sx \<Rightarrow> ('s, 'e, unit) sx" where
  "void m = bnd m (\<lambda>_. ok ())"

fun operate :: "env \<Rightarrow> (nat \<Rightarrow> datetime) \<Rightarrow> control \<Rightarrow> string \<Rightarrow> string \<Rightarrow> unit oop" where
  "operate E W (Retry k) actor reason = void (operator_retry_dead_letter E W k actor reason)"
| "operate E W (Abandon k) actor reason = void (operator_abandon E W k actor reason)"
| "operate E W (Clone k rid pl) actor reason = void (operator_clone_corrected E W k rid pl actor reason)"
| "operate E W (Pause p) actor reason = operator_pause_provider W p actor reason"
| "operate E W (Resume p) actor reason = operator_resume_provider W p actor reason"

lemma controlled_cases:
  assumes "controlled W actor k action reason m s = (r, t)"
  shows "(actor = [] \<or> reason = []) \<and> (\<exists>e. r = Inl e) \<and> t = s
    \<or> actor \<noteq> [] \<and> reason \<noteq> [] \<and> os_repo t = snd (m (os_repo s))
      \<and> (case r of
           Inl e \<Rightarrow> os_audit t = os_audit s
         | Inr _ \<Rightarrow> os_audit t = os_audit s @ [\<lparr>oa_actor_id = actor, oa_operation_id = k,
             oa_action = action, oa_reason = reason, oa_timestamp = W (os_ticks s)\<rparr>])"
  using assms
  by (auto simp: controlled_def authorize_def require_def in_repo_def zoom_def bnd_def record_audit_def
      upd_def ok_def split: if_splits prod.splits sum.splits)

lemma void_cases: "void m s = (r, t) \<Longrightarrow> \<exists>r'. m s = (r', t) \<and> (case r' of Inl e \<Rightarrow> r = Inl e | Inr _ \<Rightarrow> r = Inr ())"
  by (auto simp: void_def bnd_def ok_def split: prod.splits sum.splits)



subsection \<open>Metrics\<close>

record outbox_metrics =
  mx_depth :: nat
  mx_claimed :: nat
  mx_succeeded :: nat
  mx_retry :: nat
  mx_reconciliation_required :: nat
  mx_dead_letter :: nat
  mx_oldest_pending_age :: timedelta
  mx_duplicate_result_suppressions :: int

definition count_status :: "outbox_status \<Rightarrow> outbox_operation list \<Rightarrow> nat" where
  "count_status st ops = length (filter (\<lambda>op. o_status op = st) ops)"

definition collect_metrics :: "repo \<Rightarrow> datetime \<Rightarrow> int \<Rightarrow> outbox_metrics" where
  "collect_metrics s t dups =
     (let ops = list_operations None s;
          pending = filter (\<lambda>op. o_status op \<in> {PENDING, RETRY_WAIT}) ops;
          ages = map (\<lambda>op. t - o_created_at op) pending in
      \<lparr>mx_depth = length pending, mx_claimed = count_status CLAIMED ops,
       mx_succeeded = count_status SUCCEEDED ops, mx_retry = count_status RETRY_WAIT ops,
       mx_reconciliation_required = count_status RECONCILIATION_REQUIRED ops,
       mx_dead_letter = count_status DEAD_LETTER ops,
       mx_oldest_pending_age = (case ages of [] \<Rightarrow> 0 | a # as \<Rightarrow> foldl max a as),
       mx_duplicate_result_suppressions = dups\<rparr>)"

end
