(* ===== verification/Provider_Health.thy ===== *)
theory Provider_Health
  imports Payload
begin

section \<open>Provider health and the circuit breaker\<close>

text \<open>
  The package \<^verbatim>\<open>runtime/providers/health\<close>: \<open>models.py\<close>, \<open>InMemoryProviderHealthRepository\<close>,
  \<open>circuit_breaker.py\<close>, \<open>routing.py\<close>, \<open>probes.py\<close> and \<open>service.py\<close>. The repository hands out
  deep copies, so states are values; the clock is read through a counter as in the outbox.
\<close>

subsection \<open>State\<close>

datatype health_status = UNKNOWN | HEALTHY | DEGRADED | OPEN | HALF_OPEN | DISABLED

record health_state =
  hs_provider_id :: string
  hs_capability :: string
  hs_status :: health_status
  hs_successes :: int
  hs_failures :: int
  hs_last_success_at :: "datetime option"
  hs_last_failure_at :: "datetime option"
  hs_last_failure_category :: "string option"
  hs_last_failure_code :: "string option"
  hs_open_until :: "datetime option"
  hs_half_open_probes :: int
  hs_in_flight :: int
  hs_maximum_in_flight :: int
  hs_updated_at :: datetime
  hs_version :: int
  hs_operator_disabled :: bool

datatype health_error =
    ProviderHealthNotFoundError
  | ProviderHealthVersionConflictError string
  | ProviderUnavailableError string
  | OperatorAuthorizationError string
  | HealthValueError string
  | ProbeKeyError

text \<open>\<open>ProviderHealthState.__post_init__\<close>; timestamps are timezone-aware by type.\<close>

definition validate_health :: "health_state \<Rightarrow> health_error + health_state" where
  "validate_health h =
     (if \<not> re_provider (hs_provider_id h) \<or> \<not> re_provider (hs_capability h)
      then Inl (HealthValueError ''Invalid provider identity'')
      else if hs_successes h < 0 \<or> hs_failures h < 0 \<or> hs_half_open_probes h < 0 \<or> hs_in_flight h < 0
        \<or> hs_maximum_in_flight h < 1
      then Inl (HealthValueError ''Invalid provider health counters'')
      else Inr h)"

type_synonym health_key = "string \<times> string"

record health =
  he_states :: "(health_key, health_state) dict"
  he_ticks :: nat

type_synonym 'a hop = "(health, health_error, 'a) sx"

definition health_now :: "(nat \<Rightarrow> datetime) \<Rightarrow> datetime hop" where
  "health_now C s = (Inr (C (he_ticks s)), s\<lparr>he_ticks := Suc (he_ticks s)\<rparr>)"

subsection \<open>The repository: optimistic versioning\<close>

definition health_key :: "health_state \<Rightarrow> health_key" where
  "health_key h = (hs_provider_id h, hs_capability h)"

definition add_health :: "health_state \<Rightarrow> health_state hop" where
  "add_health h =
     bnd (gets (\<lambda>s. map_of (he_states s) (health_key h))) (\<lambda>old.
     bnd (require (old = None) (ProviderHealthVersionConflictError ''Provider health already exists'')) (\<lambda>_.
     bnd (upd (\<lambda>s. s\<lparr>he_states := dset (health_key h) h (he_states s)\<rparr>)) (\<lambda>_. ok h)))"

definition get_health :: "string \<Rightarrow> string \<Rightarrow> health_state hop" where
  "get_health p c s =
     (case map_of (he_states s) (p, c) of
        None \<Rightarrow> (Inl ProviderHealthNotFoundError, s) | Some h \<Rightarrow> (Inr h, s))"

definition list_health :: "health \<Rightarrow> health_state list" where
  "list_health s = map (\<lambda>k. the (map_of (he_states s) k)) (sort (dkeys (he_states s)))"

definition save_health :: "health_state \<Rightarrow> int \<Rightarrow> health_state hop" where
  "save_health h expected =
     bnd (get_health (hs_provider_id h) (hs_capability h)) (\<lambda>current.
     bnd (require (hs_version current = expected)
       (ProviderHealthVersionConflictError ''Provider health version conflict'')) (\<lambda>_.
     let h' = h\<lparr>hs_version := expected + 1\<rparr> in
     bnd (upd (\<lambda>s. s\<lparr>he_states := dset (health_key h) h' (he_states s)\<rparr>)) (\<lambda>_. ok h')))"

definition snapshot_health :: "health \<Rightarrow> health_state list" where
  "snapshot_health s = list_health s"

text \<open>Decoding builds the states again, so it validates them; the first invalid one raises.\<close>

fun decode_all :: "health_state list \<Rightarrow> health_error + health_state list" where
  "decode_all [] = Inr []"
| "decode_all (h # hs) =
     (case validate_health h of
        Inl e \<Rightarrow> Inl e
      | Inr h' \<Rightarrow> (case decode_all hs of Inl e \<Rightarrow> Inl e | Inr hs' \<Rightarrow> Inr (h' # hs')))"

definition restore_health :: "health_state list \<Rightarrow> unit hop" where
  "restore_health hs =
     bnd (of_sum (decode_all hs)) (\<lambda>hs'.
     upd (\<lambda>s. s\<lparr>he_states := fold (\<lambda>h d. dset (health_key h) h d) hs' []\<rparr>))"

subsection \<open>The circuit breaker\<close>

record breaker =
  cb_failure_threshold :: int
  cb_success_threshold :: int
  cb_open_seconds :: int
  cb_maximum_half_open_probes :: int

definition circuit_breaker :: "int \<Rightarrow> int \<Rightarrow> int \<Rightarrow> int \<Rightarrow> health_error + breaker" where
  "circuit_breaker ft st os mp =
     (if min ft (min st mp) < 1 then Inl (HealthValueError ''Circuit breaker thresholds must be positive'')
      else Inr \<lparr>cb_failure_threshold = ft, cb_success_threshold = st, cb_open_seconds = os,
                cb_maximum_half_open_probes = mp\<rparr>)"

definition allow :: "(nat \<Rightarrow> datetime) \<Rightarrow> breaker \<Rightarrow> string \<Rightarrow> string \<Rightarrow> health_state hop" where
  "allow C b p c =
     bnd (get_health p c) (\<lambda>h.
     bnd (health_now C) (\<lambda>t.
     bnd (require (hs_status h \<noteq> DISABLED) (ProviderUnavailableError ''Provider is disabled'')) (\<lambda>_.
     bnd (if hs_status h = OPEN then
            bnd (require (case hs_open_until h of None \<Rightarrow> False | Some u \<Rightarrow> u \<le> t)
              (ProviderUnavailableError ''Provider circuit is open'')) (\<lambda>_.
            save_health (h\<lparr>hs_status := HALF_OPEN, hs_half_open_probes := 0, hs_updated_at := t\<rparr>)
              (hs_version h))
          else ok h) (\<lambda>h.
     if hs_status h = HALF_OPEN then
       bnd (require (hs_half_open_probes h < cb_maximum_half_open_probes b)
         (ProviderUnavailableError ''Provider half-open probe is occupied'')) (\<lambda>_.
       save_health (h\<lparr>hs_half_open_probes := hs_half_open_probes h + 1,
         hs_in_flight := hs_in_flight h + 1, hs_updated_at := t\<rparr>) (hs_version h))
     else
       bnd (require (hs_in_flight h < hs_maximum_in_flight h)
         (ProviderUnavailableError ''Provider is saturated'')) (\<lambda>_.
       save_health (h\<lparr>hs_in_flight := hs_in_flight h + 1, hs_updated_at := t\<rparr>) (hs_version h))))))"

text \<open>What \<open>success\<close> and \<open>failure\<close> write, before the save.\<close>

definition succeeded :: "breaker \<Rightarrow> datetime \<Rightarrow> health_state \<Rightarrow> health_state" where
  "succeeded b t h =
     (let h1 = h\<lparr>hs_in_flight := max 0 (hs_in_flight h - 1), hs_successes := hs_successes h + 1,
                 hs_failures := 0, hs_last_success_at := Some t\<rparr>;
          h2 = (if hs_status h1 \<noteq> DISABLED \<and> cb_success_threshold b \<le> hs_successes h1
                then h1\<lparr>hs_status := HEALTHY, hs_open_until := None, hs_half_open_probes := 0\<rparr> else h1)
      in h2\<lparr>hs_updated_at := t\<rparr>)"

definition failed :: "breaker \<Rightarrow> datetime \<Rightarrow> string \<Rightarrow> string \<Rightarrow> health_state \<Rightarrow> health_state" where
  "failed b t category code h =
     (let h1 = h\<lparr>hs_in_flight := max 0 (hs_in_flight h - 1), hs_failures := hs_failures h + 1,
                 hs_successes := 0, hs_last_failure_at := Some t,
                 hs_last_failure_category := Some (take 64 category),
                 hs_last_failure_code := Some (take 128 code)\<rparr>;
          h2 = (if hs_status h1 \<noteq> DISABLED \<and> cb_failure_threshold b \<le> hs_failures h1
                then h1\<lparr>hs_status := OPEN, hs_open_until := Some (t + seconds (cb_open_seconds b)),
                        hs_half_open_probes := 0\<rparr>
                else if hs_status h1 \<noteq> DISABLED then h1\<lparr>hs_status := DEGRADED\<rparr> else h1)
      in h2\<lparr>hs_updated_at := t\<rparr>)"

definition success :: "(nat \<Rightarrow> datetime) \<Rightarrow> breaker \<Rightarrow> string \<Rightarrow> string \<Rightarrow> health_state hop" where
  "success C b p c =
     bnd (get_health p c) (\<lambda>h.
     bnd (health_now C) (\<lambda>t. save_health (succeeded b t h) (hs_version h)))"

definition failure ::
    "(nat \<Rightarrow> datetime) \<Rightarrow> breaker \<Rightarrow> string \<Rightarrow> string \<Rightarrow> string \<Rightarrow> string \<Rightarrow> health_state hop" where
  "failure C b p c category code =
     bnd (get_health p c) (\<lambda>h.
     bnd (health_now C) (\<lambda>t. save_health (failed b t category code h) (hs_version h)))"

subsection \<open>Routing\<close>

record route =
  rt_provider_id :: string
  rt_capability :: string
  rt_priority :: int

definition routable :: "health_state \<Rightarrow> bool" where
  "routable h \<longleftrightarrow> hs_status h \<notin> {OPEN, DISABLED} \<and> hs_in_flight h < hs_maximum_in_flight h"

fun eligible_routes :: "string \<Rightarrow> route list \<Rightarrow> (route list) hop" where
  "eligible_routes cap [] = ok []"
| "eligible_routes cap (r # rs) =
     (if rt_capability r \<noteq> cap then eligible_routes cap rs
      else
        bnd (get_health (rt_provider_id r) cap) (\<lambda>h.
        bnd (eligible_routes cap rs) (\<lambda>es.
        ok (if routable h then r # es else es))))"

definition select_route :: "route list \<Rightarrow> string \<Rightarrow> string option \<Rightarrow> route hop" where
  "select_route routes cap affinity =
     bnd (eligible_routes cap routes) (\<lambda>es.
     case (case affinity of None \<Rightarrow> None | Some p \<Rightarrow> find (\<lambda>r. rt_provider_id r = p) es) of
       Some r \<Rightarrow> ok r
     | None \<Rightarrow>
         (case sort_key (\<lambda>r. (rt_priority r, rt_provider_id r)) es of
            [] \<Rightarrow> fail (ProviderUnavailableError ''No healthy provider supports capability'')
          | r # _ \<Rightarrow> ok r))"

subsection \<open>Probes\<close>

text \<open>A probe is a function registered for a provider; it answers or raises (\<open>None\<close>).\<close>

definition probe ::
    "(nat \<Rightarrow> datetime) \<Rightarrow> breaker \<Rightarrow> (string, bool option) dict \<Rightarrow> string \<Rightarrow> string \<Rightarrow> bool hop" where
  "probe C b probes p c =
     bnd (allow C b p c) (\<lambda>_.
     case (case map_of probes p of None \<Rightarrow> None | Some answer \<Rightarrow> answer) of
       None \<Rightarrow> bnd (failure C b p c ''PROBE'' ''PROBE_FAILED'') (\<lambda>_. ok False)
     | Some True \<Rightarrow> bnd (success C b p c) (\<lambda>_. ok True)
     | Some False \<Rightarrow> bnd (failure C b p c ''PROBE'' ''UNHEALTHY'') (\<lambda>_. ok False))"

subsection \<open>Operators\<close>

record health_audit =
  ha_action :: string
  ha_provider_id :: string
  ha_capability :: string
  ha_actor :: string
  ha_reason :: string
  ha_timestamp :: datetime

record health_service =
  sv_health :: health
  sv_audit :: "health_audit list"

type_synonym 'a vop = "(health_service, health_error, 'a) sx"

definition in_health :: "'a hop \<Rightarrow> 'a vop" where
  "in_health m = zoom sv_health (\<lambda>h s. s\<lparr>sv_health := h\<rparr>) m"

definition authorize_operator :: "string \<Rightarrow> string \<Rightarrow> unit vop" where
  "authorize_operator actor reason =
     require (actor \<noteq> [] \<and> reason \<noteq> [] \<and> length actor \<le> 128 \<and> length reason \<le> 512)
       (OperatorAuthorizationError ''Operator identity and reason are required'')"

definition audit_health ::
    "(nat \<Rightarrow> datetime) \<Rightarrow> string \<Rightarrow> string \<Rightarrow> string \<Rightarrow> string \<Rightarrow> string \<Rightarrow> unit vop" where
  "audit_health C action p c actor reason =
     bnd (in_health (health_now C)) (\<lambda>t.
     upd (\<lambda>s. s\<lparr>sv_audit := sv_audit s @ [\<lparr>ha_action = action, ha_provider_id = p,
       ha_capability = c, ha_actor = actor, ha_reason = reason, ha_timestamp = t\<rparr>]\<rparr>))"

definition disable :: "(nat \<Rightarrow> datetime) \<Rightarrow> string \<Rightarrow> string \<Rightarrow> string \<Rightarrow> string \<Rightarrow> health_state vop" where
  "disable C p c actor reason =
     bnd (authorize_operator actor reason) (\<lambda>_.
     bnd (in_health (get_health p c)) (\<lambda>h.
     bnd (in_health (health_now C)) (\<lambda>t.
     bnd (in_health (save_health (h\<lparr>hs_status := DISABLED, hs_operator_disabled := True,
       hs_updated_at := t\<rparr>) (hs_version h))) (\<lambda>r.
     bnd (audit_health C ''DISABLE'' p c actor reason) (\<lambda>_. ok r)))))"

definition enable :: "(nat \<Rightarrow> datetime) \<Rightarrow> string \<Rightarrow> string \<Rightarrow> string \<Rightarrow> string \<Rightarrow> health_state vop" where
  "enable C p c actor reason =
     bnd (authorize_operator actor reason) (\<lambda>_.
     bnd (in_health (get_health p c)) (\<lambda>h.
     bnd (in_health (health_now C)) (\<lambda>t.
     bnd (in_health (save_health (h\<lparr>hs_status := UNKNOWN, hs_operator_disabled := False,
       hs_updated_at := t\<rparr>) (hs_version h))) (\<lambda>r.
     bnd (audit_health C ''ENABLE'' p c actor reason) (\<lambda>_. ok r)))))"

definition reset_circuit :: "(nat \<Rightarrow> datetime) \<Rightarrow> string \<Rightarrow> string \<Rightarrow> string \<Rightarrow> string \<Rightarrow> health_state vop" where
  "reset_circuit C p c actor reason =
     bnd (authorize_operator actor reason) (\<lambda>_.
     bnd (in_health (get_health p c)) (\<lambda>h.
     bnd (require (\<not> hs_operator_disabled h)
       (OperatorAuthorizationError ''Disabled provider must be enabled explicitly'')) (\<lambda>_.
     bnd (in_health (health_now C)) (\<lambda>t.
     bnd (in_health (save_health (h\<lparr>hs_status := UNKNOWN, hs_failures := 0, hs_successes := 0,
       hs_open_until := None, hs_half_open_probes := 0, hs_updated_at := t\<rparr>) (hs_version h))) (\<lambda>r.
     bnd (audit_health C ''RESET_CIRCUIT'' p c actor reason) (\<lambda>_. ok r))))))"

end
