(* ===== verification/Versioned.thy ===== *)
theory Versioned
  imports Prelude
begin

section \<open>The contract of optimistic versioning\<close>

text \<open>
  A store that keeps a version with each value and saves a value only when its writer names the
  current version, which it then raises by one. The locale states this contract and proves once
  that no update is lost: of two writers that read the same version at most one is accepted, and
  a version counts the saves accepted for its key.
\<close>

locale versioned_store =
  fixes version :: "'s \<Rightarrow> 'k \<Rightarrow> int option"
    and save :: "'v \<Rightarrow> int \<Rightarrow> 's \<Rightarrow> ('e + 'r) \<times> 's"
    and key :: "'v \<Rightarrow> 'k"
  assumes save_accepted: "save v n s = (Inr r, t) \<Longrightarrow> version s (key v) = Some n
      \<and> version t (key v) = Some (n + 1) \<and> (\<forall>k. k \<noteq> key v \<longrightarrow> version t k = version s k)"
    and save_refused: "save v n s = (Inl e, t) \<Longrightarrow> version t = version s"
begin

fun saves :: "('v \<times> int) list \<Rightarrow> 's \<Rightarrow> 's" where
  "saves [] s = s"
| "saves ((v, n) # ws) s = saves ws (snd (save v n s))"

lemma version_grows:
  assumes "version s k = Some n"
  shows "\<exists>m\<ge>n. version (snd (save v i s)) k = Some m"
proof (cases "save v i s")
  case (Pair r t)
  then show ?thesis
    using assms save_refused[of v i s _ t] save_accepted[of v i s _ t]
    by (cases r; cases "k = key v") auto
qed

lemma versions_grow:
  "version s k = Some n \<Longrightarrow> \<exists>m\<ge>n. version (saves ws s) k = Some m"
proof (induction ws arbitrary: s n)
  case Nil
  then show ?case by auto
next
  case (Cons w ws)
  obtain v i where w: "w = (v, i)" by fastforce
  obtain m where "m \<ge> n" "version (snd (save v i s)) k = Some m"
    using version_grows[OF Cons.prems] by blast
  with Cons.IH[of "snd (save v i s)" m] show ?case by (auto simp: w intro: order_trans)
qed

text \<open>No lost update: after an accepted save every further save for the same read version is
  refused, whatever happened in between.\<close>

lemma stale_writer_refused:
  assumes "save v n s = (Inr r, t)" and "key w = key v" and "m \<le> n"
  shows "\<exists>e. fst (save w m (saves ws t)) = Inl e"
proof -
  obtain i where i: "i \<ge> n + 1" "version (saves ws t) (key v) = Some i"
    using save_accepted[OF assms(1)] versions_grow by blast
  show ?thesis
  proof (cases "save w m (saves ws t)")
    case (Pair x u)
    then show ?thesis using save_accepted[of w m "saves ws t" _ u] assms(2,3) i by (cases x) auto
  qed
qed

end

end
