(* ===== verification/Provider_Health_Safety.thy ===== *)
theory Provider_Health_Safety
  imports Provider_Health Versioned
begin

section \<open>What the circuit breaker guarantees\<close>

text \<open>
  Over any sequence of calls of the breaker: a provider an operator disabled stays disabled, an
  open circuit refuses until its time has come, half-open probes stay within their bound,
  failures open the circuit; concurrent writers of a health state do not overwrite each other;
  routing never picks an unavailable provider.
\<close>

subsection \<open>Running the breaker\<close>

definition health_of :: "health \<Rightarrow> health_key \<Rightarrow> health_state option" where
  "health_of s k = map_of (he_states s) k"

lemma save_health_run:
  "save_health h n s =
     (case map_of (he_states s) (health_key h) of
        None \<Rightarrow> (Inl ProviderHealthNotFoundError, s)
      | Some cur \<Rightarrow>
          if hs_version cur \<noteq> n
          then (Inl (ProviderHealthVersionConflictError ''Provider health version conflict''), s)
          else (Inr (h\<lparr>hs_version := n + 1\<rparr>),
                s\<lparr>he_states := dset (health_key h) (h\<lparr>hs_version := n + 1\<rparr>) (he_states s)\<rparr>))"
  by (simp add: save_health_def bnd_def get_health_def health_key_def require_def upd_def ok_def
      Let_def split: option.split)

definition version_at :: "health \<Rightarrow> health_key \<Rightarrow> int option" where
  "version_at s k = map_option hs_version (map_of (he_states s) k)"

interpretation hv: versioned_store version_at save_health health_key
proof
  show "save_health v n s = (Inr r, t) \<Longrightarrow> version_at s (health_key v) = Some n
      \<and> version_at t (health_key v) = Some (n + 1)
      \<and> (\<forall>k. k \<noteq> health_key v \<longrightarrow> version_at t k = version_at s k)" for v n s r t
    by (auto simp: save_health_run version_at_def split: option.splits if_splits)
  show "save_health v n s = (Inl e, t) \<Longrightarrow> version_at t = version_at s" for v n s e t
    by (auto simp: save_health_run split: option.splits if_splits)
qed

text \<open>C35: health updates are never lost: once a writer's save was accepted, every other writer that
  read the same or an earlier version is refused, whatever saves came in between.\<close>

theorem stale_health_save_refused:
  assumes "save_health v n s = (Inr r, t)" and "health_key w = health_key v" and "m \<le> n"
    and "u = fold (\<lambda>(v, n) s. snd (save_health v n s)) ws t"
  shows "\<exists>e. fst (save_health w m u) = Inl e"
proof -
  have "hv.saves ws t = fold (\<lambda>(v, n) s. snd (save_health v n s)) ws t" for t
    by (induction ws arbitrary: t) auto
  then show ?thesis using hv.stale_writer_refused[OF assms(1-3)] assms(4) by metis
qed

text \<open>The calls of a breaker, and what a call does to the state of its provider.\<close>

datatype breaker_call = Allow | Success | Failure string string

fun breaker_step :: "(nat \<Rightarrow> datetime) \<Rightarrow> breaker \<Rightarrow> string \<Rightarrow> string \<Rightarrow> breaker_call \<Rightarrow> health \<Rightarrow> health" where
  "breaker_step C b p c Allow s = snd (allow C b p c s)"
| "breaker_step C b p c Success s = snd (success C b p c s)"
| "breaker_step C b p c (Failure cat code) s = snd (failure C b p c cat code s)"

definition keyed :: "health \<Rightarrow> bool" where
  "keyed s \<longleftrightarrow> (\<forall>k h. map_of (he_states s) k = Some h \<longrightarrow> health_key h = k)"

lemma bnd_get_health: "bnd (get_health p c) f s =
    (case map_of (he_states s) (p, c) of
       None \<Rightarrow> (Inl ProviderHealthNotFoundError, s) | Some h \<Rightarrow> f h s)"
  by (simp add: bnd_def get_health_def split: option.split)

lemma bnd_health_now: "bnd (health_now C) f s = f (C (he_ticks s)) (s\<lparr>he_ticks := Suc (he_ticks s)\<rparr>)"
  by (simp add: bnd_def health_now_def)

text \<open>A save with the version just read is accepted.\<close>

lemma save_after_read:
  assumes "map_of (he_states s) k = Some h" and "health_key h' = k" and "n = hs_version h"
  shows "save_health h' n s = (Inr (h'\<lparr>hs_version := n + 1\<rparr>),
    s\<lparr>he_states := dset k (h'\<lparr>hs_version := n + 1\<rparr>) (he_states s)\<rparr>)"
  using assms by (simp add: save_health_run)

text \<open>What \<open>allow\<close> admits: the state it leaves, or \<open>None\<close> when it refuses.\<close>

definition half_open :: "datetime \<Rightarrow> health_state \<Rightarrow> health_state" where
  "half_open t h = h\<lparr>hs_status := HALF_OPEN, hs_half_open_probes := 0, hs_updated_at := t,
     hs_version := hs_version h + 1\<rparr>"

definition probing :: "datetime \<Rightarrow> health_state \<Rightarrow> health_state" where
  "probing t h = h\<lparr>hs_half_open_probes := hs_half_open_probes h + 1,
     hs_in_flight := hs_in_flight h + 1, hs_updated_at := t, hs_version := hs_version h + 1\<rparr>"

definition admitted :: "datetime \<Rightarrow> health_state \<Rightarrow> health_state" where
  "admitted t h = h\<lparr>hs_in_flight := hs_in_flight h + 1, hs_updated_at := t,
     hs_version := hs_version h + 1\<rparr>"

fun allowed_state :: "breaker \<Rightarrow> datetime \<Rightarrow> health_state \<Rightarrow> health_state \<times> bool" where
  "allowed_state b t h =
     (if hs_status h = DISABLED then (h, False)
      else if hs_status h = OPEN \<and> \<not> (case hs_open_until h of None \<Rightarrow> False | Some u \<Rightarrow> u \<le> t)
      then (h, False)
      else
        let h1 = (if hs_status h = OPEN then half_open t h else h) in
        if hs_status h1 = HALF_OPEN
        then (if hs_half_open_probes h1 < cb_maximum_half_open_probes b then (probing t h1, True) else (h1, False))
        else if hs_in_flight h1 < hs_maximum_in_flight h1 then (admitted t h1, True) else (h1, False))"

text \<open>The second half of \<open>allow\<close>.\<close>

definition enter :: "(nat \<Rightarrow> datetime) \<Rightarrow> breaker \<Rightarrow> datetime \<Rightarrow> health_state \<Rightarrow> health_state hop" where
  "enter C b t h =
     (if hs_status h = HALF_OPEN then
       bnd (require (hs_half_open_probes h < cb_maximum_half_open_probes b)
         (ProviderUnavailableError ''Provider half-open probe is occupied'')) (\<lambda>_.
       save_health (h\<lparr>hs_half_open_probes := hs_half_open_probes h + 1,
         hs_in_flight := hs_in_flight h + 1, hs_updated_at := t\<rparr>) (hs_version h))
     else
       bnd (require (hs_in_flight h < hs_maximum_in_flight h)
         (ProviderUnavailableError ''Provider is saturated'')) (\<lambda>_.
       save_health (h\<lparr>hs_in_flight := hs_in_flight h + 1, hs_updated_at := t\<rparr>) (hs_version h)))"

lemma bnd_save: "bnd (save_health h n) f s =
     (case map_of (he_states s) (health_key h) of
        None \<Rightarrow> (Inl ProviderHealthNotFoundError, s)
      | Some cur \<Rightarrow>
          if hs_version cur \<noteq> n
          then (Inl (ProviderHealthVersionConflictError ''Provider health version conflict''), s)
          else f (h\<lparr>hs_version := n + 1\<rparr>)
                (s\<lparr>he_states := dset (health_key h) (h\<lparr>hs_version := n + 1\<rparr>) (he_states s)\<rparr>))"
  by (simp add: bnd_def save_health_run split: option.split)

lemma enter_run:
  assumes "map_of (he_states s) (health_key h) = Some h"
  shows "enter C b t h s =
    (if hs_status h = HALF_OPEN
     then (if hs_half_open_probes h < cb_maximum_half_open_probes b
           then (Inr (probing t h), s\<lparr>he_states := dset (health_key h) (probing t h) (he_states s)\<rparr>)
           else (Inl (ProviderUnavailableError ''Provider half-open probe is occupied''), s))
     else (if hs_in_flight h < hs_maximum_in_flight h
           then (Inr (admitted t h), s\<lparr>he_states := dset (health_key h) (admitted t h) (he_states s)\<rparr>)
           else (Inl (ProviderUnavailableError ''Provider is saturated''), s)))"
  using assms
  by (simp add: enter_def bnd_require save_health_run probing_def admitted_def health_key_def)

lemma allow_run:
  assumes "map_of (he_states s) (p, c) = Some h" and "health_key h = (p, c)"
  shows "\<exists>r t. allow C b p c s = (r, t)
    \<and> map_of (he_states t) = (map_of (he_states s))((p, c) \<mapsto> fst (allowed_state b (C (he_ticks s)) h))
    \<and> (snd (allowed_state b (C (he_ticks s)) h) \<longleftrightarrow> (\<exists>x. r = Inr x))"
proof -
  have key: "hs_provider_id h = p" "hs_capability h = c" using assms(2) by (auto simp: health_key_def)
  have same: "(map_of (he_states s))((p, c) \<mapsto> h) = map_of (he_states s)"
    using assms(1) by (simp add: fun_upd_idem)
  have start: "allow C b p c s =
      bnd (require (hs_status h \<noteq> DISABLED) (ProviderUnavailableError ''Provider is disabled'')) (\<lambda>_.
      bnd (if hs_status h = OPEN then
            bnd (require (case hs_open_until h of None \<Rightarrow> False | Some u \<Rightarrow> u \<le> C (he_ticks s))
              (ProviderUnavailableError ''Provider circuit is open'')) (\<lambda>_.
            save_health (h\<lparr>hs_status := HALF_OPEN, hs_half_open_probes := 0, hs_updated_at := C (he_ticks s)\<rparr>)
              (hs_version h))
          else ok h) (enter C b (C (he_ticks s)))) (s\<lparr>he_ticks := Suc (he_ticks s)\<rparr>)"
    using assms(1) unfolding allow_def enter_def by (simp add: bnd_get_health bnd_health_now)
  show ?thesis
  proof (cases "hs_status h = OPEN")
    case True
    then show ?thesis
      using assms key same
      by (auto simp: start bnd_runs bnd_assoc bnd_save enter_run half_open_def health_key_def
          split: option.splits)
  next
    case False
    then show ?thesis
      using assms key same by (auto simp: start bnd_runs bnd_assoc enter_run health_key_def)
  qed
qed

fun call_state :: "breaker \<Rightarrow> datetime \<Rightarrow> breaker_call \<Rightarrow> health_state \<Rightarrow> health_state" where
  "call_state b t Allow h = fst (allowed_state b t h)"
| "call_state b t Success h = (succeeded b t h)\<lparr>hs_version := hs_version h + 1\<rparr>"
| "call_state b t (Failure cat code) h = (failed b t cat code h)\<lparr>hs_version := hs_version h + 1\<rparr>"

lemma key_updates [simp]:
  "health_key (succeeded b t h) = health_key h" "health_key (failed b t cat code h) = health_key h"
  "health_key (h\<lparr>hs_version := n\<rparr>) = health_key h" "health_key (half_open t h) = health_key h"
  "health_key (probing t h) = health_key h" "health_key (admitted t h) = health_key h"
  by (simp_all add: health_key_def succeeded_def failed_def half_open_def probing_def admitted_def Let_def)

lemma call_state_key [simp]: "health_key (call_state b t call h) = health_key h"
  by (cases call) (simp_all add: Let_def)

lemma breaker_step_run:
  assumes "map_of (he_states s) (p, c) = Some h" and "health_key h = (p, c)"
  shows "map_of (he_states (breaker_step C b p c call s)) (p, c) = Some (call_state b (C (he_ticks s)) call h)"
proof (cases call)
  case Allow
  then show ?thesis using allow_run[OF assms, of C b] by auto
qed (use assms in \<open>simp_all add: success_def failure_def bnd_get_health bnd_health_now save_health_run\<close>)

text \<open>A property of a state that every call keeps is kept by every sequence of calls.\<close>

definition breaker_run :: "(nat \<Rightarrow> datetime) \<Rightarrow> breaker \<Rightarrow> string \<Rightarrow> string \<Rightarrow> breaker_call list \<Rightarrow> health \<Rightarrow> health" where
  "breaker_run C b p c calls s = fold (breaker_step C b p c) calls s"

lemma breaker_run_keeps:
  assumes "map_of (he_states s) (p, c) = Some h" and "health_key h = (p, c)" and "Q h"
    and "\<And>t call h. call \<in> set calls \<Longrightarrow> Q h \<Longrightarrow> Q (call_state b t call h)"
  shows "\<exists>h'. map_of (he_states (breaker_run C b p c calls s)) (p, c) = Some h' \<and> health_key h' = (p, c) \<and> Q h'"
  using assms unfolding breaker_run_def
proof (induction calls arbitrary: s h)
  case Nil
  then show ?case by auto
next
  case (Cons call calls)
  note step = breaker_step_run[OF Cons.prems(1,2), of C b call]
  show ?case
    using Cons.IH[OF step] Cons.prems(2,3) Cons.prems(4) by simp
qed

subsection \<open>An operator's decision stands\<close>

text \<open>A provider an operator disabled stays disabled under any sequence of breaker calls, successes
  and failures included, and every request for it is refused without a change.\<close>

theorem disabled_provider_stays_disabled:
  assumes "map_of (he_states s) (p, c) = Some h" and "health_key h = (p, c)" and "hs_status h = DISABLED"
    and "u = breaker_run C b p c calls s"
  shows "\<exists>h'. map_of (he_states u) (p, c) = Some h' \<and> hs_status h' = DISABLED
    \<and> hs_operator_disabled h' = hs_operator_disabled h
    \<and> fst (allow C b p c u) = Inl (ProviderUnavailableError ''Provider is disabled'')"
proof -
  let ?Q = "\<lambda>x. hs_status x = DISABLED \<and> hs_operator_disabled x = hs_operator_disabled h"
  have "?Q (call_state b t call x)" if "?Q x" for t call x
    using that by (cases call) (simp_all add: succeeded_def failed_def Let_def)
  then obtain h' where "map_of (he_states u) (p, c) = Some h'" "?Q h'"
    using breaker_run_keeps[where Q = ?Q and calls = calls and C = C and b = b, OF assms(1,2)] assms(3,4) by auto
  then show ?thesis by (simp add: allow_def bnd_get_health bnd_health_now bnd_require)
qed

subsection \<open>Bounds\<close>

definition health_inv :: "breaker \<Rightarrow> health_state \<Rightarrow> bool" where
  "health_inv b h \<longleftrightarrow> 0 \<le> hs_successes h \<and> 0 \<le> hs_failures h \<and> 0 \<le> hs_in_flight h
     \<and> 0 \<le> hs_half_open_probes h \<and> hs_half_open_probes h \<le> cb_maximum_half_open_probes b
     \<and> (hs_status h = OPEN \<longrightarrow> hs_open_until h \<noteq> None)"

text \<open>Half-open probing is bounded and counters stay sane: any sequence of breaker calls keeps the
  number of half-open probes within the configured maximum, all counters non-negative, and an
  open circuit with the time at which it may be probed.\<close>

theorem breaker_keeps_bounds:
  assumes "map_of (he_states s) (p, c) = Some h" and "health_key h = (p, c)"
    and "health_inv b h" and "1 \<le> cb_maximum_half_open_probes b"
  shows "\<exists>h'. map_of (he_states (breaker_run C b p c calls s)) (p, c) = Some h' \<and> health_inv b h'"
proof -
  have "health_inv b (call_state b t call x)" if "health_inv b x" for t call x
    using that assms(4)
    by (cases call; cases "hs_status x")
      (auto simp: health_inv_def succeeded_def failed_def half_open_def probing_def admitted_def Let_def)
  then show ?thesis using breaker_run_keeps[where Q = "health_inv b" and calls = calls and C = C and b = b, OF assms(1,2)] assms(3) by blast
qed

text \<open>An open circuit refuses every request until its time has come: as long as the clock reads
  less than \<open>open_until\<close>, no number of requests is admitted or changes the provider's state.\<close>

theorem open_circuit_refuses:
  assumes "map_of (he_states s) (p, c) = Some h" and "health_key h = (p, c)"
    and "hs_status h = OPEN" and "hs_open_until h = Some u" and "\<And>n. C n < u"
  shows "map_of (he_states (breaker_run C b p c (replicate n Allow) s)) (p, c) = Some h
    \<and> fst (allow C b p c (breaker_run C b p c (replicate n Allow) s))
        = Inl (ProviderUnavailableError ''Provider circuit is open'')"
proof (induction n)
  case 0
  have "\<not> u \<le> C k" for k using assms(5)[of k] by simp
  then show ?case
    using assms(1,3,4)
    by (simp add: breaker_run_def allow_def bnd_get_health bnd_health_now bnd_runs bnd_assoc)
next
  case (Suc n)
  let ?s = "breaker_run C b p c (replicate n Allow) s"
  have r: "breaker_run C b p c (replicate (Suc n) Allow) s = breaker_step C b p c Allow ?s"
    by (simp add: breaker_run_def fold_commute_apply del: fold_replicate breaker_step.simps
        flip: replicate_append_same)
  have "\<not> u \<le> C k" for k using assms(5)[of k] by simp
  then show ?case
    unfolding r using Suc assms(3,4)
    by (simp add: allow_def bnd_get_health bnd_health_now bnd_runs bnd_assoc)
qed

text \<open>Failures open the circuit: the failure that reaches the threshold opens it for the configured
  time, an earlier one degrades the provider, and a disabled provider stays disabled.\<close>

theorem failure_opens_circuit:
  assumes "map_of (he_states s) (p, c) = Some h" and "health_key h = (p, c)"
  shows "\<exists>h'. fst (failure C b p c cat code s) = Inr h'
    \<and> map_of (he_states (snd (failure C b p c cat code s))) (p, c) = Some h'
    \<and> hs_failures h' = hs_failures h + 1 \<and> hs_successes h' = 0 \<and> hs_version h' = hs_version h + 1
    \<and> (if hs_status h = DISABLED then hs_status h' = DISABLED
       else if cb_failure_threshold b \<le> hs_failures h + 1
       then hs_status h' = OPEN \<and> hs_open_until h' = Some (C (he_ticks s) + seconds (cb_open_seconds b))
       else hs_status h' = DEGRADED)"
  using assms
  by (simp add: failure_def bnd_get_health bnd_health_now save_health_run) (simp add: failed_def Let_def)

text \<open>C36: half-open starvation: with a success threshold above one and a single probe allowed, the
  successful probe keeps its slot: after it the circuit is half-open for ever, and no request is
  admitted again at any time, although the probe succeeded.\<close>

theorem half_open_starves:
  assumes "map_of (he_states s) (p, c) = Some h" and "health_key h = (p, c)"
    and "hs_status h = HALF_OPEN" and "hs_half_open_probes h = cb_maximum_half_open_probes b"
    and "hs_successes h + 1 < cb_success_threshold b"
    and "u = breaker_run C b p c (Success # replicate n Allow) s"
  shows "fst (allow C b p c u) = Inl (ProviderUnavailableError ''Provider half-open probe is occupied'')"
proof -
  let ?Q = "\<lambda>x. hs_status x = HALF_OPEN \<and> hs_half_open_probes x = cb_maximum_half_open_probes b"
  let ?s = "breaker_step C b p c Success s"
  have "map_of (he_states ?s) (p, c) = Some (call_state b (C (he_ticks s)) Success h)"
    using breaker_step_run[OF assms(1,2)] .
  moreover have "?Q (call_state b (C (he_ticks s)) Success h)"
    using assms(3-5) by (simp add: succeeded_def Let_def)
  moreover have "?Q (call_state b t call x)" if "call \<in> set (replicate n Allow)" "?Q x" for t call x
    using that by (auto simp: set_replicate_conv_if split: if_splits)
  ultimately obtain h' where "map_of (he_states (breaker_run C b p c (replicate n Allow) ?s)) (p, c) = Some h'" "?Q h'"
    using breaker_run_keeps[where s = ?s and p = p and c = c and Q = ?Q and calls = "replicate n Allow" and b = b and C = C] assms(2) by auto
  moreover have "u = breaker_run C b p c (replicate n Allow) ?s"
    using assms(6) by (simp add: breaker_run_def)
  ultimately show ?thesis
    by (simp add: allow_def bnd_get_health bnd_health_now bnd_runs)
qed

subsection \<open>Routing\<close>

definition route_open :: "health \<Rightarrow> string \<Rightarrow> route \<Rightarrow> bool" where
  "route_open s cap r \<longleftrightarrow> rt_capability r = cap
     \<and> (case map_of (he_states s) (rt_provider_id r, cap) of None \<Rightarrow> False | Some h \<Rightarrow> routable h)"

lemma eligible_routes_run:
  "eligible_routes cap rs s = (Inr es, t) \<Longrightarrow> t = s \<and> es = filter (route_open s cap) rs"
proof (induction rs arbitrary: es t)
  case Nil
  then show ?case by (simp add: ok_def)
next
  case (Cons r rs)
  show ?case
  proof (cases "rt_capability r = cap")
    case True
    then show ?thesis
      using Cons.prems Cons.IH
      by (auto simp: bnd_get_health route_open_def ok_def split: option.splits elim!: bnd_InrE)
  next
    case False
    then show ?thesis using Cons by (simp add: route_open_def)
  qed
qed

lemma sort_key_hd:
  assumes "sort_key f xs = y # ys"
  shows "y \<in> set xs" and "\<forall>x\<in>set xs. f y \<le> f x"
proof -
  have "set xs = set (y # ys)" using assms by (metis set_sort)
  moreover have "sorted (map f (y # ys))" using assms by (metis sorted_sort_key)
  ultimately show "y \<in> set xs" and "\<forall>x\<in>set xs. f y \<le> f x" by auto
qed

text \<open>Routing picks only providers that can take work: the selected route serves the capability, its
  provider is neither open nor disabled nor saturated, it is the caller's affinity if that one is
  available, and otherwise the least by priority and identifier; nothing is changed.\<close>

theorem router_selects_available:
  assumes "select_route routes cap affinity s = (Inr r, t)"
  shows "t = s \<and> r \<in> set routes \<and> route_open s cap r
    \<and> (case affinity of
         Some p \<Rightarrow> (\<exists>r'\<in>set routes. route_open s cap r' \<and> rt_provider_id r' = p) \<longrightarrow> rt_provider_id r = p
       | None \<Rightarrow> True)
    \<and> (affinity \<noteq> Some (rt_provider_id r) \<longrightarrow>
         (\<forall>r'\<in>set routes. route_open s cap r' \<longrightarrow>
            (rt_priority r, rt_provider_id r) \<le> (rt_priority r', rt_provider_id r')))"
proof -
  let ?es = "filter (route_open s cap) routes"
  let ?k = "\<lambda>r. (rt_priority r, rt_provider_id r)"
  from assms have sel: "(case (case affinity of None \<Rightarrow> None | Some p \<Rightarrow> find (\<lambda>r. rt_provider_id r = p) ?es) of
       Some r \<Rightarrow> ok r
     | None \<Rightarrow> (case sort_key ?k ?es of
            [] \<Rightarrow> fail (ProviderUnavailableError ''No healthy provider supports capability'')
          | r # _ \<Rightarrow> ok r)) s = (Inr r, t)"
    unfolding select_route_def by (auto elim!: bnd_InrE dest!: eligible_routes_run)
  show ?thesis
  proof (cases "case affinity of None \<Rightarrow> None | Some p \<Rightarrow> find (\<lambda>r. rt_provider_id r = p) ?es")
    case (Some x)
    then obtain p where "affinity = Some p" "find (\<lambda>r. rt_provider_id r = p) ?es = Some x"
      by (auto split: option.splits)
    moreover from this(2) have "x \<in> set ?es" and "rt_provider_id x = p"
      unfolding find_Some_iff by (metis nth_mem)+
    ultimately show ?thesis using sel Some by (auto simp: ok_def)
  next
    case None
    then obtain es where es: "sort_key ?k ?es = r # es" and "t = s"
      using sel by (auto simp: ok_def fail_def split: list.splits)
    have "\<forall>r'\<in>set ?es. rt_provider_id r' \<noteq> p" if "affinity = Some p" for p
      using None that by (auto simp: find_None_iff)
    then show ?thesis
      using sort_key_hd[OF es] \<open>t = s\<close> by (auto split: option.splits)
  qed
qed

subsection \<open>A provider at work\<close>

definition demo_health :: "health_status \<Rightarrow> health_state" where
  "demo_health st = \<lparr>hs_provider_id = ''gh'', hs_capability = ''dispatch'', hs_status = st,
     hs_successes = 0, hs_failures = 0, hs_last_success_at = None, hs_last_failure_at = None,
     hs_last_failure_category = None, hs_last_failure_code = None, hs_open_until = Some 50,
     hs_half_open_probes = 1, hs_in_flight = 0, hs_maximum_in_flight = 2, hs_updated_at = 0,
     hs_version = 0, hs_operator_disabled = False\<rparr>"

definition demo_healths :: "health_status \<Rightarrow> health" where
  "demo_healths st = \<lparr>he_states = [((''gh'', ''dispatch''), demo_health st)], he_ticks = 0\<rparr>"

definition demo_breaker :: "int \<Rightarrow> breaker" where
  "demo_breaker st = \<lparr>cb_failure_threshold = 2, cb_success_threshold = st, cb_open_seconds = 30,
     cb_maximum_half_open_probes = 1\<rparr>"

lemma demo_health_in:
  "map_of (he_states (demo_healths st)) (''gh'', ''dispatch'') = Some (demo_health st)"
  "health_key (demo_health st) = (''gh'', ''dispatch'')"
  by (simp_all add: demo_healths_def demo_health_def health_key_def)

lemma stale_health_save_refused_witness:
  "\<exists>e. fst (save_health (demo_health HEALTHY) 0
      (snd (save_health (demo_health DEGRADED) 0 (demo_healths UNKNOWN)))) = Inl e"
proof -
  have run: "save_health (demo_health DEGRADED) 0 (demo_healths UNKNOWN) =
      (Inr ((demo_health DEGRADED)\<lparr>hs_version := 1\<rparr>), snd (save_health (demo_health DEGRADED) 0 (demo_healths UNKNOWN)))"
    by (simp add: save_health_run demo_healths_def demo_health_def health_key_def)
  show ?thesis
    by (rule stale_health_save_refused[OF run, of _ _ _ "[]"]) (simp_all add: demo_health_in)
qed

lemma disabled_provider_stays_disabled_witness:
  "fst (allow (\<lambda>n. int n) (demo_breaker 1) ''gh'' ''dispatch''
     (breaker_run (\<lambda>n. int n) (demo_breaker 1) ''gh'' ''dispatch'' [Success, Failure ''x'' ''y''] (demo_healths DISABLED)))
   = Inl (ProviderUnavailableError ''Provider is disabled'')"
  using disabled_provider_stays_disabled[OF demo_health_in, OF _ refl] by (auto simp: demo_health_def)

lemma breaker_keeps_bounds_witness:
  "\<exists>h'. map_of (he_states (breaker_run (\<lambda>n. int n) (demo_breaker 1) ''gh'' ''dispatch'' [Allow, Success, Allow]
     (demo_healths OPEN))) (''gh'', ''dispatch'') = Some h' \<and> health_inv (demo_breaker 1) h'"
  by (rule breaker_keeps_bounds[OF demo_health_in])
    (simp_all add: health_inv_def demo_health_def demo_breaker_def)

lemma open_circuit_refuses_witness:
  "fst (allow (\<lambda>_. 7) (demo_breaker 1) ''gh'' ''dispatch''
     (breaker_run (\<lambda>_. 7) (demo_breaker 1) ''gh'' ''dispatch'' (replicate 3 Allow) (demo_healths OPEN)))
   = Inl (ProviderUnavailableError ''Provider circuit is open'')"
  using open_circuit_refuses[OF demo_health_in, of OPEN 50 "\<lambda>_. 7"] by (simp add: demo_health_def)

lemma failure_opens_circuit_witness:
  "\<exists>h'. fst (failure (\<lambda>n. int n) ((demo_breaker 1)\<lparr>cb_failure_threshold := 1\<rparr>) ''gh'' ''dispatch'' ''c'' ''d'' (demo_healths HEALTHY))
     = Inr h' \<and> hs_status h' = OPEN"
  using failure_opens_circuit[OF demo_health_in, of "\<lambda>n. int n" "(demo_breaker 1)\<lparr>cb_failure_threshold := 1\<rparr>" "''c''" "''d''" HEALTHY]
  by (auto simp: demo_health_def)

lemma half_open_starves_witness:
  "fst (allow (\<lambda>n. 1000 * int n) (demo_breaker 2) ''gh'' ''dispatch''
     (breaker_run (\<lambda>n. 1000 * int n) (demo_breaker 2) ''gh'' ''dispatch'' (Success # replicate 9 Allow) (demo_healths HALF_OPEN)))
   = Inl (ProviderUnavailableError ''Provider half-open probe is occupied'')"
  by (rule half_open_starves[OF demo_health_in _ _ _ refl]) (simp_all add: demo_health_def demo_breaker_def)

definition demo_route :: route where
  "demo_route = \<lparr>rt_provider_id = ''gh'', rt_capability = ''dispatch'', rt_priority = 100\<rparr>"

lemma router_selects_available_witness:
  "select_route [demo_route] ''dispatch'' None (demo_healths HEALTHY) = (Inr demo_route, demo_healths HEALTHY)
   \<and> route_open (demo_healths HEALTHY) ''dispatch'' demo_route"
proof -
  have run: "select_route [demo_route] ''dispatch'' None (demo_healths HEALTHY) = (Inr demo_route, demo_healths HEALTHY)"
    by (simp add: select_route_def demo_route_def bnd_get_health bnd_def demo_healths_def demo_health_def
        get_health_def ok_def routable_def)
  from router_selects_available[OF this] this show ?thesis by blast
qed

end
