(* ===== verification/Durable_Store.thy ===== *)
theory Durable_Store
  imports Outbox_Repository
begin

section \<open>The relational store: runtimes, events, checkpoints, leases\<close>

text \<open>
  \<^verbatim>\<open>runtime/persistence/database\<close>: the tables of \<^verbatim>\<open>schema.py\<close> with their keys, the leases of
  \<^verbatim>\<open>leases.py\<close> and, of \<^verbatim>\<open>provider.py\<close>, the transactional writers \<open>commit_checkpoint\<close>,
  \<open>append_event_batch\<close> and \<open>_validate_lease\<close> with the readers they are judged by. A table is
  its rows; an insert that breaks a primary key or a unique constraint raises the integrity error
  the code maps to \<open>ConcurrentPersistenceError\<close>. A transaction that raises leaves the tables as it
  found them. Timestamps are kept as instants: their ISO texts in UTC are ordered in the same way.
  Busy databases, migrations and connections are not modelled.
\<close>

subsection \<open>Tables\<close>

record instance_row =
  in_state_version :: int
  in_latest_checkpoint :: "string option"
  in_event_position :: int
  in_durability :: string
  in_fencing :: int
  in_created_at :: datetime
  in_updated_at :: datetime

record event_row =
  ev_id :: string
  ev_runtime :: string
  ev_position :: int
  ev_aggregate_type :: string
  ev_aggregate_id :: string
  ev_sequence :: int
  ev_type :: string
  ev_occurred_at :: datetime
  ev_correlation :: "string option"
  ev_causation :: "string option"
  ev_payload :: string

record checkpoint_row =
  cp_id :: string
  cp_runtime :: string
  cp_schema_version :: int
  cp_state_version :: int
  cp_created_at :: datetime
  cp_reason :: string
  cp_event_position :: int
  cp_digest :: string
  cp_payload :: string
  cp_committed_at :: datetime

record lease_row =
  lr_owner :: string
  lr_token_hash :: string
  lr_acquired_at :: datetime
  lr_renewed_at :: datetime
  lr_expires_at :: datetime
  lr_fencing :: int

record transaction_row =
  tx_operation_id :: string
  tx_runtime :: string
  tx_expected :: int
  tx_resulting :: int

record db =
  db_instances :: "(string, instance_row) dict"
  db_events :: "event_row list"
  db_checkpoints :: "checkpoint_row list"
  db_versions :: "(string \<times> int \<times> string) list"
  db_leases :: "(string, lease_row) dict"
  db_transactions :: "transaction_row list"
  db_ticks :: nat
  db_draws :: nat

definition empty_db :: db where
  "empty_db = \<lparr>db_instances = [], db_events = [], db_checkpoints = [], db_versions = [],
     db_leases = [], db_transactions = [], db_ticks = 0, db_draws = 0\<rparr>"

datatype db_error =
    RuntimeVersionConflictError
  | StaleFencingTokenError string
  | LeaseConflictError string
  | LeaseExpiredError string
  | StaleCheckpointError string
  | ConcurrentPersistenceError string

type_synonym 'a dbop = "(db, db_error, 'a) sx"

definition db_now :: "env \<Rightarrow> datetime dbop" where
  "db_now E s = (Inr (clock E (db_ticks s)), s\<lparr>db_ticks := Suc (db_ticks s)\<rparr>)"

definition db_draw :: "env \<Rightarrow> string dbop" where
  "db_draw E s = (Inr (tokens E (db_draws s)), s\<lparr>db_draws := Suc (db_draws s)\<rparr>)"

text \<open>A transaction: the tables are restored when the body raises.\<close>

definition in_transaction :: "'a dbop \<Rightarrow> 'a dbop" where
  "in_transaction m s =
     (case m s of
        (Inr x, t) \<Rightarrow> (Inr x, t)
      | (Inl e, t) \<Rightarrow> (Inl e, s\<lparr>db_ticks := db_ticks t, db_draws := db_draws t\<rparr>))"

definition ensure_runtime :: "env \<Rightarrow> string \<Rightarrow> unit dbop" where
  "ensure_runtime E rid =
     bnd (db_now E) (\<lambda>t.
     upd (\<lambda>s. if rid \<in> set (dkeys (db_instances s)) then s
       else s\<lparr>db_instances := dset rid \<lparr>in_state_version = 0, in_latest_checkpoint = None,
         in_event_position = 0, in_durability = ''NOT_ATTEMPTED'', in_fencing = 0,
         in_created_at = t, in_updated_at = t\<rparr> (db_instances s)\<rparr>))"

text \<open>The row of a runtime that \<open>ensure_runtime\<close> has made sure of.\<close>

definition instance_of :: "db \<Rightarrow> string \<Rightarrow> instance_row" where
  "instance_of s rid = the (map_of (db_instances s) rid)"

definition set_instance :: "string \<Rightarrow> (instance_row \<Rightarrow> instance_row) \<Rightarrow> unit dbop" where
  "set_instance rid f = upd (\<lambda>s. s\<lparr>db_instances := dset rid (f (instance_of s rid)) (db_instances s)\<rparr>)"

definition get_state_version :: "env \<Rightarrow> string \<Rightarrow> int dbop" where
  "get_state_version E rid =
     bnd (ensure_runtime E rid) (\<lambda>_. gets (\<lambda>s. in_state_version (instance_of s rid)))"

subsection \<open>Leases\<close>

record lease =
  ls_runtime_id :: string
  ls_owner_id :: string
  ls_token :: string
  ls_acquired_at :: datetime
  ls_renewed_at :: datetime
  ls_expires_at :: datetime
  ls_fencing_token :: int

definition acquire_lease :: "env \<Rightarrow> string \<Rightarrow> string \<Rightarrow> int \<Rightarrow> lease dbop" where
  "acquire_lease E rid owner ttl =
     bnd (db_now E) (\<lambda>t.
     bnd (db_draw E) (\<lambda>token.
     let expires = t + seconds ttl in
     in_transaction
       (bnd (ensure_runtime E rid) (\<lambda>_.
        bnd (gets (\<lambda>s. map_of (db_leases s) rid)) (\<lambda>row.
        bnd (require (case row of None \<Rightarrow> True | Some l \<Rightarrow> lr_expires_at l \<le> t)
          (LeaseConflictError ''Runtime already has an active lease'')) (\<lambda>_.
        bnd (gets (\<lambda>s. in_fencing (instance_of s rid) + 1)) (\<lambda>fencing.
        bnd (set_instance rid (\<lambda>i. i\<lparr>in_fencing := fencing, in_updated_at := t\<rparr>)) (\<lambda>_.
        bnd (upd (\<lambda>s. s\<lparr>db_leases := dset rid \<lparr>lr_owner = owner, lr_token_hash = sha E token,
              lr_acquired_at = t, lr_renewed_at = t, lr_expires_at = expires, lr_fencing = fencing\<rparr>
              (db_leases s)\<rparr>)) (\<lambda>_.
        ok \<lparr>ls_runtime_id = rid, ls_owner_id = owner, ls_token = token, ls_acquired_at = t,
            ls_renewed_at = t, ls_expires_at = expires, ls_fencing_token = fencing\<rparr>)))))))))"

definition inspect_lease :: "string \<Rightarrow> db \<Rightarrow> lease_row option" where
  "inspect_lease rid s = map_of (db_leases s) rid"

definition renew_lease :: "env \<Rightarrow> lease \<Rightarrow> int \<Rightarrow> lease dbop" where
  "renew_lease E l ttl =
     bnd (db_now E) (\<lambda>t.
     let expires = t + seconds ttl in
     in_transaction
       (bnd (gets (\<lambda>s. case map_of (db_leases s) (ls_runtime_id l) of
                None \<Rightarrow> None
              | Some r \<Rightarrow> if lr_owner r = ls_owner_id l then Some r else None)) (\<lambda>row.
        case row of
          None \<Rightarrow> fail (LeaseConflictError ''Lease identity is not current'')
        | Some r \<Rightarrow>
            bnd (require (lr_token_hash r = sha E (ls_token l) \<and> lr_fencing r = ls_fencing_token l)
              (LeaseConflictError ''Lease identity is not current'')) (\<lambda>_.
            bnd (require (t < lr_expires_at r) (LeaseExpiredError ''Lease has expired'')) (\<lambda>_.
            bnd (upd (\<lambda>s. s\<lparr>db_leases := dset (ls_runtime_id l)
                  (r\<lparr>lr_renewed_at := t, lr_expires_at := expires\<rparr>) (db_leases s)\<rparr>)) (\<lambda>_.
            ok (l\<lparr>ls_renewed_at := t, ls_expires_at := expires\<rparr>)))))))"

definition lease_matches :: "env \<Rightarrow> lease \<Rightarrow> lease_row \<Rightarrow> bool" where
  "lease_matches E l r \<longleftrightarrow> lr_owner r = ls_owner_id l \<and> lr_token_hash r = sha E (ls_token l)
     \<and> lr_fencing r = ls_fencing_token l"

definition release_lease :: "env \<Rightarrow> lease \<Rightarrow> unit dbop" where
  "release_lease E l =
     bnd (gets (\<lambda>s. map_of (db_leases s) (ls_runtime_id l))) (\<lambda>row.
     bnd (require (case row of None \<Rightarrow> False | Some r \<Rightarrow> lease_matches E l r)
       (LeaseConflictError ''Lease identity is not current'')) (\<lambda>_.
     upd (\<lambda>s. s\<lparr>db_leases := ddel (ls_runtime_id l) (db_leases s)\<rparr>)))"

definition break_expired_lease :: "env \<Rightarrow> string \<Rightarrow> bool dbop" where
  "break_expired_lease E rid =
     bnd (db_now E) (\<lambda>t.
     bnd (gets (\<lambda>s. case map_of (db_leases s) rid of None \<Rightarrow> False | Some r \<Rightarrow> lr_expires_at r \<le> t)) (\<lambda>expired.
     if expired then bnd (upd (\<lambda>s. s\<lparr>db_leases := ddel rid (db_leases s)\<rparr>)) (\<lambda>_. ok True)
     else ok False))"

definition validate_lease :: "env \<Rightarrow> lease \<Rightarrow> datetime \<Rightarrow> int \<Rightarrow> unit dbop" where
  "validate_lease E l t latest =
     bnd (gets (\<lambda>s. map_of (db_leases s) (ls_runtime_id l))) (\<lambda>row.
     case row of
       None \<Rightarrow> fail (StaleFencingTokenError ''Lease fencing token is stale'')
     | Some r \<Rightarrow>
         bnd (require (ls_fencing_token l = latest)
           (StaleFencingTokenError ''Lease fencing token is stale'')) (\<lambda>_.
         bnd (require (lease_matches E l r) (StaleFencingTokenError ''Lease identity is stale'')) (\<lambda>_.
         require (t < lr_expires_at r) (LeaseExpiredError ''Lease has expired''))))"

subsection \<open>Events\<close>

text \<open>An event to store: its fields without position and runtime, and its payload as canonical text.\<close>

record event_doc =
  ed_id :: string
  ed_aggregate_type :: string
  ed_aggregate_id :: string
  ed_sequence :: int
  ed_type :: string
  ed_occurred_at :: datetime
  ed_correlation :: "string option"
  ed_causation :: "string option"
  ed_payload :: string

definition event_row_of :: "string \<Rightarrow> int \<Rightarrow> event_doc \<Rightarrow> event_row" where
  "event_row_of rid pos e = \<lparr>ev_id = ed_id e, ev_runtime = rid, ev_position = pos,
     ev_aggregate_type = ed_aggregate_type e, ev_aggregate_id = ed_aggregate_id e,
     ev_sequence = ed_sequence e, ev_type = ed_type e, ev_occurred_at = ed_occurred_at e,
     ev_correlation = ed_correlation e, ev_causation = ed_causation e, ev_payload = ed_payload e\<rparr>"

definition events_of :: "db \<Rightarrow> string \<Rightarrow> event_row list" where
  "events_of s rid = sort_key ev_position (filter (\<lambda>e. ev_runtime e = rid) (db_events s))"

definition aggregate_events :: "string \<Rightarrow> string \<Rightarrow> string \<Rightarrow> event_row list \<Rightarrow> event_row list" where
  "aggregate_events rid ty aid es =
     filter (\<lambda>e. ev_runtime e = rid \<and> ev_aggregate_type e = ty \<and> ev_aggregate_id e = aid) es"

text \<open>\<open>SELECT COALESCE(MAX(column),0)\<close>.\<close>

definition max_or_zero :: "int list \<Rightarrow> int" where
  "max_or_zero xs = (case xs of [] \<Rightarrow> 0 | y # ys \<Rightarrow> foldl max y ys)"

definition latest_aggregate_sequence :: "string \<Rightarrow> string \<Rightarrow> string \<Rightarrow> db \<Rightarrow> int" where
  "latest_aggregate_sequence rid ty aid s =
     max_or_zero (map ev_sequence (aggregate_events rid ty aid (db_events s)))"

definition latest_global_position :: "string \<Rightarrow> db \<Rightarrow> int" where
  "latest_global_position rid s =
     max_or_zero (map ev_position (filter (\<lambda>e. ev_runtime e = rid) (db_events s)))"

text \<open>The primary key and the two unique constraints of \<open>runtime_events\<close>.\<close>

definition event_conflict :: "event_row \<Rightarrow> event_row \<Rightarrow> bool" where
  "event_conflict e e' \<longleftrightarrow> ev_id e = ev_id e'
     \<or> (ev_runtime e = ev_runtime e' \<and> ev_position e = ev_position e')
     \<or> (ev_runtime e = ev_runtime e' \<and> ev_aggregate_type e = ev_aggregate_type e'
        \<and> ev_aggregate_id e = ev_aggregate_id e' \<and> ev_sequence e = ev_sequence e')"

definition insert_event :: "string \<Rightarrow> event_row \<Rightarrow> unit dbop" where
  "insert_event msg e =
     bnd (gets (\<lambda>s. list_ex (event_conflict e) (db_events s))) (\<lambda>conflict.
     bnd (require (\<not> conflict) (ConcurrentPersistenceError msg)) (\<lambda>_.
     upd (\<lambda>s. s\<lparr>db_events := db_events s @ [e]\<rparr>)))"

text \<open>
  The loop of \<open>append_event_batch\<close> and of \<open>commit_checkpoint\<close>: the sequence of each aggregate is
  read once from the table and counted on from there.
\<close>

fun store_events ::
    "string \<Rightarrow> db_error \<Rightarrow> string \<Rightarrow> int \<Rightarrow> ((string \<times> string), int) dict \<Rightarrow> event_doc list \<Rightarrow> int dbop" where
  "store_events rid gap msg pos seqs [] = ok pos"
| "store_events rid gap msg pos seqs (e # es) =
     bnd (gets (\<lambda>s. case map_of seqs (ed_aggregate_type e, ed_aggregate_id e) of
            Some n \<Rightarrow> n
          | None \<Rightarrow> latest_aggregate_sequence rid (ed_aggregate_type e) (ed_aggregate_id e) s)) (\<lambda>n.
     bnd (require (ed_sequence e = n + 1) gap) (\<lambda>_.
     bnd (insert_event msg (event_row_of rid (pos + 1) e)) (\<lambda>_.
     store_events rid gap msg (pos + 1)
       (dset (ed_aggregate_type e, ed_aggregate_id e) (n + 1) seqs) es)))"

definition append_event_batch :: "env \<Rightarrow> string \<Rightarrow> event_doc list \<Rightarrow> (int list) dbop" where
  "append_event_batch E rid es =
     in_transaction
       (bnd (ensure_runtime E rid) (\<lambda>_.
        bnd (gets (\<lambda>s. in_event_position (instance_of s rid))) (\<lambda>pos.
        bnd (store_events rid (ConcurrentPersistenceError ''Aggregate event sequence must be contiguous'')
          ''Event batch violated durable ordering constraints'' pos [] es) (\<lambda>last.
        bnd (db_now E) (\<lambda>t.
        bnd (set_instance rid (\<lambda>i. i\<lparr>in_event_position := last, in_updated_at := t\<rparr>)) (\<lambda>_.
        ok (map (\<lambda>i. pos + 1 + int i) [0..<length es])))))))"

definition append_event :: "env \<Rightarrow> string \<Rightarrow> event_doc \<Rightarrow> int dbop" where
  "append_event E rid e = bnd (append_event_batch E rid [e]) (\<lambda>ps. ok (last ps))"

subsection \<open>Checkpoints\<close>

record checkpoint =
  ck_id :: string
  ck_runtime_id :: string
  ck_schema_version :: int
  ck_created_at :: datetime
  ck_reason :: string
  ck_last_event_position :: int
  ck_digest :: string
  ck_events :: "event_doc list"
  ck_document :: string

record commit_result =
  cr_runtime_id :: string
  cr_operation_id :: string
  cr_state_version :: int
  cr_checkpoint_id :: string
  cr_event_position :: int
  cr_committed_at :: datetime

definition integrity :: db_error where
  "integrity = ConcurrentPersistenceError ''Database constraint rejected persistence transaction''"

text \<open>The check of the optional lease.\<close>

definition check_lease :: "env \<Rightarrow> lease option \<Rightarrow> string \<Rightarrow> datetime \<Rightarrow> int \<Rightarrow> unit dbop" where
  "check_lease E lo rid t fencing =
     (case lo of
        None \<Rightarrow> ok ()
      | Some l \<Rightarrow>
          bnd (require (ls_runtime_id l = rid)
            (StaleFencingTokenError ''Lease belongs to a different runtime'')) (\<lambda>_.
          validate_lease E l t fencing))"

text \<open>The inserts and the update after the events: checkpoint, version, runtime row, transaction.\<close>

definition record_commit ::
    "checkpoint \<Rightarrow> int \<Rightarrow> string \<Rightarrow> datetime \<Rightarrow> int \<Rightarrow> commit_result dbop" where
  "record_commit ck expected opid t v =
     bnd (gets (\<lambda>s. list_ex (\<lambda>c. cp_runtime c = ck_runtime_id ck \<and> cp_id c = ck_id ck) (db_checkpoints s))) (\<lambda>dup.
     bnd (require (\<not> dup) integrity) (\<lambda>_.
     bnd (upd (\<lambda>s. s\<lparr>db_checkpoints := db_checkpoints s @
           [\<lparr>cp_id = ck_id ck, cp_runtime = ck_runtime_id ck, cp_schema_version = ck_schema_version ck,
             cp_state_version = v, cp_created_at = ck_created_at ck, cp_reason = ck_reason ck,
             cp_event_position = ck_last_event_position ck, cp_digest = ck_digest ck,
             cp_payload = ck_document ck, cp_committed_at = t\<rparr>]\<rparr>)) (\<lambda>_.
     bnd (gets (\<lambda>s. list_ex (\<lambda>(r, n, _). r = ck_runtime_id ck \<and> n = v) (db_versions s))) (\<lambda>dup.
     bnd (require (\<not> dup) integrity) (\<lambda>_.
     bnd (upd (\<lambda>s. s\<lparr>db_versions := db_versions s @ [(ck_runtime_id ck, v, ck_id ck)]\<rparr>)) (\<lambda>_.
     bnd (set_instance (ck_runtime_id ck) (\<lambda>i. i\<lparr>in_state_version := v,
           in_latest_checkpoint := Some (ck_id ck), in_event_position := ck_last_event_position ck,
           in_durability := ''COMMITTED_DURABLE'', in_updated_at := t\<rparr>)) (\<lambda>_.
     bnd (gets (\<lambda>s. list_ex (\<lambda>x. tx_operation_id x = opid) (db_transactions s))) (\<lambda>dup.
     bnd (require (\<not> dup) integrity) (\<lambda>_.
     bnd (upd (\<lambda>s. s\<lparr>db_transactions := db_transactions s @ [\<lparr>tx_operation_id = opid,
           tx_runtime = ck_runtime_id ck, tx_expected = expected, tx_resulting = v\<rparr>]\<rparr>)) (\<lambda>_.
     ok \<lparr>cr_runtime_id = ck_runtime_id ck, cr_operation_id = opid, cr_state_version = v,
         cr_checkpoint_id = ck_id ck, cr_event_position = ck_last_event_position ck,
         cr_committed_at = t\<rparr>))))))))))"

definition commit_body ::
    "env \<Rightarrow> checkpoint \<Rightarrow> int \<Rightarrow> lease option \<Rightarrow> string \<Rightarrow> datetime \<Rightarrow> commit_result dbop" where
  "commit_body E ck expected lo opid t =
     bnd (ensure_runtime E (ck_runtime_id ck)) (\<lambda>_.
     bnd (gets (\<lambda>s. instance_of s (ck_runtime_id ck))) (\<lambda>i.
     bnd (require (in_state_version i = expected) RuntimeVersionConflictError) (\<lambda>_.
     bnd (check_lease E lo (ck_runtime_id ck) t (in_fencing i)) (\<lambda>_.
     bnd (require (ck_last_event_position ck = int (length (ck_events ck)))
       (StaleCheckpointError ''Checkpoint event position does not match payload'')) (\<lambda>_.
     bnd (require (in_event_position i \<le> ck_last_event_position ck)
       (StaleCheckpointError ''Checkpoint is older than durable event position'')) (\<lambda>_.
     bnd (gets (\<lambda>s. map ev_id (events_of s (ck_runtime_id ck)))) (\<lambda>existing.
     bnd (require (existing = map ed_id (take (nat (in_event_position i)) (ck_events ck)))
       (StaleCheckpointError ''Checkpoint event prefix does not match durable stream'')) (\<lambda>_.
     bnd (store_events (ck_runtime_id ck)
       (StaleCheckpointError ''Checkpoint aggregate sequence is not contiguous'')
       ''Database constraint rejected persistence transaction'' (in_event_position i) []
       (drop (nat (in_event_position i)) (ck_events ck))) (\<lambda>_.
     record_commit ck expected opid t (in_state_version i + 1))))))))))"

text \<open>The operation identifier is the caller's or a fresh one, drawn from the same source as tokens.\<close>

definition commit_checkpoint ::
    "env \<Rightarrow> checkpoint \<Rightarrow> int \<Rightarrow> lease option \<Rightarrow> string option \<Rightarrow> commit_result dbop" where
  "commit_checkpoint E ck expected l opid =
     bnd (case opid of Some x \<Rightarrow> (if x = [] then db_draw E else ok x) | None \<Rightarrow> db_draw E) (\<lambda>opid.
     bnd (db_now E) (\<lambda>t.
     in_transaction (commit_body E ck expected l opid t)))"

definition save_checkpoint :: "env \<Rightarrow> checkpoint \<Rightarrow> unit dbop" where
  "save_checkpoint E ck =
     bnd (get_state_version E (ck_runtime_id ck)) (\<lambda>expected.
     bnd (commit_checkpoint E ck expected None None) (\<lambda>_. ok ()))"

end
