(* ===== verification/Durable_Store_Safety.thy ===== *)
theory Durable_Store_Safety
  imports Durable_Store Versioned Fencing
begin

section \<open>What the relational store guarantees\<close>

text \<open>
  Over every history of leases, event batches and checkpoints: the event stream of a runtime is
  append-only, numbered without gaps, and every aggregate's events are numbered without gaps; a
  committed checkpoint holds exactly the durable stream; a lease that was superseded cannot
  commit; of two commits for the same state version one is refused.
\<close>

subsection \<open>The latest number\<close>

lemma foldl_max_snoc: "foldl max (y::int) (ys @ [z]) = max (foldl max y ys) z"
  by simp

lemma counted_max: "counted xs \<Longrightarrow> max_or_zero xs = int (length xs)"
proof (induction xs rule: rev_induct)
  case Nil
  then show ?case by (simp add: max_or_zero_def)
next
  case (snoc x xs)
  then have "max_or_zero xs = int (length xs)" and "x = int (length xs) + 1" by simp_all
  then show ?case by (cases xs) (simp_all add: max_or_zero_def)
qed

subsection \<open>The event table\<close>

definition runtime_events :: "string \<Rightarrow> event_row list \<Rightarrow> event_row list" where
  "runtime_events rid es = filter (\<lambda>e. ev_runtime e = rid) es"

definition stream_inv :: "event_row list \<Rightarrow> bool" where
  "stream_inv es \<longleftrightarrow> distinct (map ev_id es)
     \<and> (\<forall>rid. counted (map ev_position (runtime_events rid es)))
     \<and> (\<forall>rid ty aid. counted (map ev_sequence (aggregate_events rid ty aid es)))"

lemma stream_inv_snoc:
  assumes "stream_inv es" and "\<not> list_ex (event_conflict e) es"
    and "ev_position e = int (length (runtime_events (ev_runtime e) es)) + 1"
    and "ev_sequence e = int (length (aggregate_events (ev_runtime e) (ev_aggregate_type e) (ev_aggregate_id e) es)) + 1"
  shows "stream_inv (es @ [e])"
proof -
  have "ev_id e \<notin> ev_id ` set es" using assms(2) by (auto simp: list_ex_iff event_conflict_def)
  then show ?thesis
    using assms(1,3,4) by (auto simp: stream_inv_def runtime_events_def aggregate_events_def)
qed

lemma stream_latest:
  "stream_inv (db_events s) \<Longrightarrow> latest_aggregate_sequence rid ty aid s
     = int (length (aggregate_events rid ty aid (db_events s)))"
  unfolding latest_aggregate_sequence_def by (subst counted_max) (simp_all add: stream_inv_def)

definition seqs_inv :: "string \<Rightarrow> ((string \<times> string), int) dict \<Rightarrow> event_row list \<Rightarrow> bool" where
  "seqs_inv rid seqs es \<longleftrightarrow> (\<forall>ty aid n. map_of seqs (ty, aid) = Some n \<longrightarrow>
     n = int (length (aggregate_events rid ty aid es)))"

text \<open>The rows a batch becomes: numbered on from the position it starts at.\<close>

fun batch_rows :: "string \<Rightarrow> int \<Rightarrow> event_doc list \<Rightarrow> event_row list" where
  "batch_rows rid pos [] = []"
| "batch_rows rid pos (e # es) = event_row_of rid (pos + 1) e # batch_rows rid (pos + 1) es"

lemma batch_rows_ids [simp]: "map ev_id (batch_rows rid pos es) = map ed_id es"
  by (induction es arbitrary: pos) (simp_all add: event_row_of_def)

lemma batch_rows_runtime: "e \<in> set (batch_rows rid pos es) \<Longrightarrow> ev_runtime e = rid"
  by (induction es arbitrary: pos) (auto simp: event_row_of_def)

lemma runtime_events_append [simp]:
  "runtime_events rid (es @ batch_rows rid' pos ds) =
     runtime_events rid es @ (if rid' = rid then batch_rows rid' pos ds else [])"
proof -
  have "filter (\<lambda>e. ev_runtime e = rid) (batch_rows rid' pos ds) = (if rid' = rid then batch_rows rid' pos ds else [])"
    using batch_rows_runtime by (auto simp: filter_empty_conv intro: filter_True)
  then show ?thesis by (simp add: runtime_events_def)
qed

lemma store_events_run:
  assumes "store_events rid gap msg pos seqs ds s = (Inr l, t)"
    and "stream_inv (db_events s)" and "pos = int (length (runtime_events rid (db_events s)))"
    and "seqs_inv rid seqs (db_events s)"
  shows "t = s\<lparr>db_events := db_events s @ batch_rows rid pos ds\<rparr> \<and> stream_inv (db_events t)
    \<and> l = pos + int (length ds)"
  using assms
proof (induction ds arbitrary: pos seqs s)
  case Nil
  then show ?case by (auto simp: ok_def)
next
  case (Cons d ds)
  let ?k = "(ed_aggregate_type d, ed_aggregate_id d)"
  let ?n = "int (length (aggregate_events rid (ed_aggregate_type d) (ed_aggregate_id d) (db_events s)))"
  let ?row = "event_row_of rid (pos + 1) d"
  let ?s = "s\<lparr>db_events := db_events s @ [?row]\<rparr>"
  have n: "(case map_of seqs ?k of Some n \<Rightarrow> n
      | None \<Rightarrow> latest_aggregate_sequence rid (ed_aggregate_type d) (ed_aggregate_id d) s) = ?n"
    using Cons.prems(2,4) by (auto simp: stream_latest seqs_inv_def split: option.split)
  have ok: "ed_sequence d = ?n + 1" "\<not> list_ex (event_conflict ?row) (db_events s)"
    and rest: "store_events rid gap msg (pos + 1) (dset ?k (?n + 1) seqs) ds ?s = (Inr l, t)"
    using Cons.prems(1) n
    by (auto simp: bnd_runs insert_event_def bnd_assoc split: if_splits)
  have row: "ev_runtime ?row = rid" "ev_position ?row = pos + 1" "ev_sequence ?row = ed_sequence d"
    "ev_aggregate_type ?row = ed_aggregate_type d" "ev_aggregate_id ?row = ed_aggregate_id d"
    by (simp_all add: event_row_of_def)
  have inv: "stream_inv (db_events ?s)"
    using stream_inv_snoc[OF Cons.prems(2) ok(2)] ok(1) Cons.prems(3) row by simp
  have pos: "pos + 1 = int (length (runtime_events rid (db_events ?s)))"
    using Cons.prems(3) row by (simp add: runtime_events_def)
  have seqs: "seqs_inv rid (dset ?k (?n + 1) seqs) (db_events ?s)"
    using Cons.prems(4) row by (auto simp: seqs_inv_def aggregate_events_def)
  show ?case using Cons.IH[OF rest inv pos seqs] by auto
qed

text \<open>Storing events touches the event table only, also when it raises.\<close>

lemma store_events_only: "\<exists>es. snd (store_events rid gap msg pos seqs ds s) = s\<lparr>db_events := es\<rparr>"
proof (induction ds arbitrary: pos seqs s)
  case Nil
  have "snd (store_events rid gap msg pos seqs [] s) = s\<lparr>db_events := db_events s\<rparr>" by (simp add: ok_def)
  then show ?case by blast
next
  case (Cons d ds)
  have IH: "\<exists>es. snd (store_events rid gap msg i q ds (s\<lparr>db_events := x\<rparr>)) = s\<lparr>db_events := es\<rparr>" for i q x
    using Cons.IH[of i q "s\<lparr>db_events := x\<rparr>"] by simp
  have same: "\<exists>es. s = s\<lparr>db_events := es\<rparr>" by (rule exI[of _ "db_events s"]) simp
  show ?case by (simp add: bnd_runs insert_event_def bnd_assoc IH same)
qed

subsection \<open>The invariant of the store\<close>

definition db_inv :: "db \<Rightarrow> bool" where
  "db_inv s \<longleftrightarrow> stream_inv (db_events s)
     \<and> (\<forall>rid. case map_of (db_instances s) rid of
          None \<Rightarrow> runtime_events rid (db_events s) = [] \<and> map_of (db_leases s) rid = None
        | Some i \<Rightarrow> in_event_position i = int (length (runtime_events rid (db_events s)))
            \<and> 0 \<le> in_fencing i \<and> 0 \<le> in_state_version i
            \<and> (\<forall>l. map_of (db_leases s) rid = Some l \<longrightarrow> lr_fencing l = in_fencing i))"

definition row_ok :: "db \<Rightarrow> string \<Rightarrow> bool" where
  "row_ok s rid \<longleftrightarrow> (case map_of (db_instances s) rid of
          None \<Rightarrow> runtime_events rid (db_events s) = [] \<and> map_of (db_leases s) rid = None
        | Some i \<Rightarrow> in_event_position i = int (length (runtime_events rid (db_events s)))
            \<and> 0 \<le> in_fencing i \<and> 0 \<le> in_state_version i
            \<and> (\<forall>l. map_of (db_leases s) rid = Some l \<longrightarrow> lr_fencing l = in_fencing i))"

lemma db_inv_rows: "db_inv s \<longleftrightarrow> stream_inv (db_events s) \<and> (\<forall>rid. row_ok s rid)"
  by (simp add: db_inv_def row_ok_def)

definition state_version :: "db \<Rightarrow> string \<Rightarrow> int option" where
  "state_version s rid = Some (case map_of (db_instances s) rid of None \<Rightarrow> 0 | Some i \<Rightarrow> in_state_version i)"

definition latest_fencing :: "db \<Rightarrow> string \<Rightarrow> int option" where
  "latest_fencing s rid = Some (case map_of (db_instances s) rid of None \<Rightarrow> 0 | Some i \<Rightarrow> in_fencing i)"

text \<open>The state after \<open>ensure_runtime\<close>: the runtime has a row, and nothing that counts has changed.\<close>

definition ensured :: "env \<Rightarrow> string \<Rightarrow> db \<Rightarrow> db" where
  "ensured E rid s = snd (ensure_runtime E rid s)"

lemma bnd_ensure: "bnd (ensure_runtime E rid) f s = f () (ensured E rid s)"
  by (simp add: ensured_def ensure_runtime_def bnd_def db_now_def upd_def)

lemma ensured_eq:
  "ensured E rid s =
     (case map_of (db_instances s) rid of
        Some i \<Rightarrow> s\<lparr>db_ticks := Suc (db_ticks s)\<rparr>
      | None \<Rightarrow> s\<lparr>db_ticks := Suc (db_ticks s), db_instances := dset rid
          \<lparr>in_state_version = 0, in_latest_checkpoint = None, in_event_position = 0,
           in_durability = ''NOT_ATTEMPTED'', in_fencing = 0, in_created_at = clock E (db_ticks s),
           in_updated_at = clock E (db_ticks s)\<rparr> (db_instances s)\<rparr>)"
proof (cases "map_of (db_instances s) rid")
  case None
  then have "rid \<notin> set (dkeys (db_instances s))" by (simp add: map_of_eq_None_iff)
  with None show ?thesis by (simp add: ensured_def ensure_runtime_def bnd_def db_now_def upd_def)
next
  case (Some i)
  then have "rid \<in> set (dkeys (db_instances s))" by (metis map_of_eq_None_iff option.distinct(1) set_map)
  with Some show ?thesis by (simp add: ensured_def ensure_runtime_def bnd_def db_now_def upd_def)
qed

lemma ensured_facts:
  "db_events (ensured E rid s) = db_events s" "db_leases (ensured E rid s) = db_leases s"
  "db_checkpoints (ensured E rid s) = db_checkpoints s" "db_versions (ensured E rid s) = db_versions s"
  "state_version (ensured E rid s) = state_version s" "latest_fencing (ensured E rid s) = latest_fencing s"
  "\<exists>i. map_of (db_instances (ensured E rid s)) rid = Some i"
  by (auto simp: ensured_eq state_version_def latest_fencing_def fun_eq_iff split: option.splits)

lemma ensured_row: "row_ok s r \<Longrightarrow> row_ok (ensured E rid s) r"
  by (cases "map_of (db_instances s) rid"; cases "map_of (db_instances s) r"; cases "r = rid")
    (auto simp: row_ok_def ensured_eq)

lemma ensured_inv: "db_inv s \<Longrightarrow> db_inv (ensured E rid s)"
  by (simp add: db_inv_rows ensured_row ensured_facts)

lemma instance_ensured:
  "map_of (db_instances (ensured E rid s)) rid = Some (instance_of (ensured E rid s) rid)"
  using ensured_facts(7)[of E rid s] by (auto simp: instance_of_def)

lemma instance_position:
  "db_inv s \<Longrightarrow> map_of (db_instances s) rid = Some i \<Longrightarrow>
     in_event_position i = int (length (runtime_events rid (db_events s)))"
  unfolding db_inv_rows row_ok_def by (auto dest!: spec[of _ rid])

subsection \<open>What each writer does\<close>

text \<open>
  The tables a step of the store may leave: the events grow at the end, fencing tokens and state
  versions never go down, and the invariant holds.
\<close>

definition db_le :: "db \<Rightarrow> db \<Rightarrow> bool" where
  "db_le s t \<longleftrightarrow> db_inv t \<and> (\<exists>new. db_events t = db_events s @ new)
     \<and> (\<forall>rid. the (latest_fencing s rid) \<le> the (latest_fencing t rid)
          \<and> the (state_version s rid) \<le> the (state_version t rid))"

lemma db_le_refl: "db_inv s \<Longrightarrow> db_le s s"
  by (simp add: db_le_def)

lemma db_le_trans: "db_le s t \<Longrightarrow> db_le t u \<Longrightarrow> db_le s u"
  unfolding db_le_def by (metis append.assoc order_trans)

lemma row_ok_ticks [simp]: "row_ok (s\<lparr>db_ticks := m\<rparr>) rid = row_ok s rid"
  "row_ok (s\<lparr>db_draws := n\<rparr>) rid = row_ok s rid"
  by (cases "map_of (db_instances s) rid"; simp add: row_ok_def)+

lemma db_inv_ticks [simp]:
  "db_inv (s\<lparr>db_ticks := m\<rparr>) = db_inv s" "db_inv (s\<lparr>db_draws := n\<rparr>) = db_inv s"
  by (simp_all add: db_inv_rows)

lemma db_le_ticks [simp]: "db_le (s\<lparr>db_ticks := m\<rparr>) t = db_le s t" "db_le s (t\<lparr>db_ticks := m\<rparr>) = db_le s t"
  "db_le (s\<lparr>db_draws := n\<rparr>) t = db_le s t" "db_le s (t\<lparr>db_draws := n\<rparr>) = db_le s t"
  by (simp_all add: db_le_def latest_fencing_def state_version_def)

lemma ensured_le: "db_inv s \<Longrightarrow> db_le s (ensured E rid s)"
  by (simp add: db_le_def ensured_inv ensured_facts)

definition db_safe :: "'a dbop \<Rightarrow> bool" where
  "db_safe m \<longleftrightarrow> (\<forall>s. db_inv s \<longrightarrow> db_le s (snd (m s)))"

lemma db_safeI: "(\<And>s r t. db_inv s \<Longrightarrow> m s = (r, t) \<Longrightarrow> db_le s t) \<Longrightarrow> db_safe m"
  by (auto simp: db_safe_def) (metis prod.collapse)

lemma db_safe_now: "(\<And>t. db_safe (f t)) \<Longrightarrow> db_safe (bnd (db_now E) f)"
  "(\<And>x. db_safe (g x)) \<Longrightarrow> db_safe (bnd (db_draw E) g)"
  unfolding db_safe_def
  by (auto simp: bnd_def db_now_def db_draw_def)
    (metis db_inv_ticks db_le_ticks(1,3))+

text \<open>A transaction is safe when its returning runs are.\<close>

lemma db_safe_transaction:
  assumes "\<And>s x t. db_inv s \<Longrightarrow> m s = (Inr x, t) \<Longrightarrow> db_le s t"
  shows "db_safe (in_transaction m)"
proof (rule db_safeI)
  fix s r t
  assume inv: "db_inv s" and run: "in_transaction m s = (r, t)"
  show "db_le s t"
  proof (cases "fst (m s)")
    case (Inl e)
    then show ?thesis
      using run inv by (auto simp: in_transaction_def db_le_refl split: prod.splits)
  next
    case (Inr x)
    then show ?thesis
      using run inv assms[OF inv, of x t] by (auto simp: in_transaction_def split: prod.splits)
  qed
qed

lemma db_le_update:
  assumes inv: "db_inv s" and i: "map_of (db_instances s) rid = Some i"
    and t: "map_of (db_instances t) = (map_of (db_instances s))(rid \<mapsto> i')"
      "db_events t = db_events s @ new" "\<And>r. r \<noteq> rid \<Longrightarrow> map_of (db_leases t) r = map_of (db_leases s) r"
    and new: "stream_inv (db_events t)" "\<And>r. r \<noteq> rid \<Longrightarrow> runtime_events r new = []"
    and row: "row_ok t rid"
    and le: "in_fencing i \<le> in_fencing i'" "in_state_version i \<le> in_state_version i'"
  shows "db_le s t"
proof -
  have "row_ok t r" for r
  proof (cases "r = rid")
    case False
    then have "runtime_events r (db_events t) = runtime_events r (db_events s)"
      using t(2) new(2)[OF False] by (simp add: runtime_events_def)
    moreover have "row_ok s r" using inv by (simp add: db_inv_rows)
    ultimately show ?thesis
      using False t(1,3) by (cases "map_of (db_instances s) r") (simp_all add: row_ok_def)
  qed (use row in simp)
  then have "db_inv t" using new(1) by (simp add: db_inv_rows)
  moreover have "the (latest_fencing s r) \<le> the (latest_fencing t r)
      \<and> the (state_version s r) \<le> the (state_version t r)" for r
    using t(1) i le by (cases "r = rid") (simp_all add: latest_fencing_def state_version_def)
  ultimately show ?thesis using t(2) by (auto simp: db_le_def)
qed

lemma row_of_inv: "db_inv s \<Longrightarrow> row_ok s rid"
  by (simp add: db_inv_rows)

lemma stream_of_inv: "db_inv s \<Longrightarrow> stream_inv (db_events s)"
  by (simp add: db_inv_rows)

lemma bnd_set_instance: "bnd (set_instance rid f) g s =
    g () (s\<lparr>db_instances := dset rid (f (instance_of s rid)) (db_instances s)\<rparr>)"
  by (simp add: set_instance_def bnd_upd)

lemma acquire_safe: "db_safe (acquire_lease E rid owner ttl)"
  unfolding acquire_lease_def Let_def
proof (intro db_safe_now db_safe_transaction)
  fix t token s x u
  let ?s = "ensured E rid s"
  let ?i = "instance_of ?s rid"
  assume inv: "db_inv s"
    and run: "bnd (ensure_runtime E rid) (\<lambda>_.
        bnd (gets (\<lambda>s. map_of (db_leases s) rid)) (\<lambda>row.
        bnd (require (case row of None \<Rightarrow> True | Some l \<Rightarrow> lr_expires_at l \<le> t)
          (LeaseConflictError ''Runtime already has an active lease'')) (\<lambda>_.
        bnd (gets (\<lambda>s. in_fencing (instance_of s rid) + 1)) (\<lambda>fencing.
        bnd (set_instance rid (\<lambda>i. i\<lparr>in_fencing := fencing, in_updated_at := t\<rparr>)) (\<lambda>_.
        bnd (upd (\<lambda>s. s\<lparr>db_leases := dset rid \<lparr>lr_owner = owner, lr_token_hash = sha E token,
              lr_acquired_at = t, lr_renewed_at = t, lr_expires_at = t + seconds ttl, lr_fencing = fencing\<rparr>
              (db_leases s)\<rparr>)) (\<lambda>_.
        ok \<lparr>ls_runtime_id = rid, ls_owner_id = owner, ls_token = token, ls_acquired_at = t,
            ls_renewed_at = t, ls_expires_at = t + seconds ttl, ls_fencing_token = fencing\<rparr>)))))) s = (Inr x, u)"
  have u: "u = ?s\<lparr>db_instances := dset rid (?i\<lparr>in_fencing := in_fencing ?i + 1, in_updated_at := t\<rparr>) (db_instances ?s),
      db_leases := dset rid \<lparr>lr_owner = owner, lr_token_hash = sha E token,
              lr_acquired_at = t, lr_renewed_at = t, lr_expires_at = t + seconds ttl,
              lr_fencing = in_fencing ?i + 1\<rparr> (db_leases ?s)\<rparr>"
    using run by (simp add: bnd_ensure bnd_gets bnd_require bnd_set_instance bnd_upd ok_def split: if_splits)
  have inv': "db_inv ?s" using ensured_inv[OF inv] .
  have "row_ok ?s rid" using row_of_inv[OF inv'] .
  then have "db_le ?s u"
    using instance_ensured[of E rid s] stream_of_inv[OF inv']
    by (intro db_le_update[OF inv' instance_ensured, where new = "[]"])
      (auto simp: u row_ok_def runtime_events_def)
  then show "db_le s u" using db_le_trans[OF ensured_le[OF inv]] by blast
qed

text \<open>Writers of the lease table alone.\<close>

lemma lease_update_le:
  assumes inv: "db_inv s" and i: "map_of (db_leases s) rid = Some l"
    and l': "l' = None \<or> (\<exists>r. l' = Some r \<and> lr_fencing r = lr_fencing l)"
    and t: "db_instances t = db_instances s" "db_events t = db_events s"
      "map_of (db_leases t) = (map_of (db_leases s))(rid := l')"
  shows "db_le s t"
proof -
  have "row_ok s rid" using row_of_inv[OF inv] .
  then obtain j where j: "map_of (db_instances s) rid = Some j"
    using i by (cases "map_of (db_instances s) rid") (auto simp: row_ok_def)
  have "map_of (db_instances t) = (map_of (db_instances s))(rid \<mapsto> j)" using t(1) j by (simp add: fun_upd_idem)
  moreover have "row_ok t rid" using \<open>row_ok s rid\<close> j i l' t by (auto simp: row_ok_def)
  ultimately show ?thesis
    using stream_of_inv[OF inv] t
    by (intro db_le_update[OF inv j, where new = "[]" and i' = j]) (simp_all add: runtime_events_def)
qed

lemma lease_set_le:
  "db_inv s \<Longrightarrow> map_of (db_leases s) rid = Some l \<Longrightarrow> lr_fencing r = lr_fencing l \<Longrightarrow>
     db_le s (s\<lparr>db_leases := dset rid r (db_leases s)\<rparr>)"
  by (rule lease_update_le[where l' = "Some r"]) auto

lemma lease_del_le:
  "db_inv s \<Longrightarrow> map_of (db_leases s) rid = Some l \<Longrightarrow>
     db_le s (s\<lparr>db_leases := ddel rid (db_leases s)\<rparr>)"
  by (rule lease_update_le[where l' = None]) auto

lemma renew_safe: "db_safe (renew_lease E l ttl)"
  unfolding renew_lease_def Let_def
  by (intro db_safe_now db_safe_transaction)
    (auto simp: bnd_runs fail_def ok_def split: option.splits if_splits intro: lease_set_le)

lemma release_safe: "db_safe (release_lease E l)"
proof (rule db_safeI)
  fix s r t
  assume "db_inv s" and "release_lease E l s = (r, t)"
  then show "db_le s t"
    by (cases "map_of (db_leases s) (ls_runtime_id l)")
      (auto simp: release_lease_def bnd_runs upd_def db_le_refl split: if_splits intro: lease_del_le)
qed

lemma break_safe: "db_safe (break_expired_lease E rid)"
  unfolding break_expired_lease_def
proof (intro db_safe_now db_safeI)
  fix t s r u
  assume "db_inv s"
    and "bnd (gets (\<lambda>s. case map_of (db_leases s) rid of None \<Rightarrow> False | Some r \<Rightarrow> lr_expires_at r \<le> t))
     (\<lambda>expired. if expired then bnd (upd (\<lambda>s. s\<lparr>db_leases := ddel rid (db_leases s)\<rparr>)) (\<lambda>_. ok True)
       else ok False) s = (r, u)"
  then show "db_le s u"
    by (cases "map_of (db_leases s) rid")
      (auto simp: bnd_runs ok_def db_le_refl split: if_splits intro: lease_del_le)
qed

lemma version_safe: "db_safe (get_state_version E rid)"
  by (rule db_safeI) (auto simp: get_state_version_def bnd_ensure gets_def ensured_le)

text \<open>Storing a batch from the position the runtime's row records.\<close>

lemma store_batch_run:
  assumes inv: "db_inv s" and i: "map_of (db_instances s) rid = Some i"
    and run: "store_events rid gap msg (in_event_position i) [] ds s = (Inr l, t)"
  shows "t = s\<lparr>db_events := db_events s @ batch_rows rid (in_event_position i) ds\<rparr>
    \<and> stream_inv (db_events t) \<and> l = in_event_position i + int (length ds)"
  using store_events_run[OF run stream_of_inv[OF inv] instance_position[OF inv i]]
  by (auto simp: seqs_inv_def)

lemma runtime_batch_other: "r \<noteq> rid \<Longrightarrow> runtime_events r (batch_rows rid pos ds) = []"
  using runtime_events_append[of r "[]" rid pos ds] by (simp add: runtime_events_def)

lemma batch_rows_length [simp]: "length (batch_rows rid pos ds) = length ds"
  by (induction ds arbitrary: pos) simp_all

text \<open>The row of a runtime after a batch: its position has moved by the length of the batch.\<close>

lemma batch_le:
  assumes inv: "db_inv s" and i: "map_of (db_instances s) rid = Some i"
    and t: "db_events t = db_events s @ batch_rows rid pos ds" "stream_inv (db_events t)"
      "map_of (db_instances t) = (map_of (db_instances s))(rid \<mapsto> i')" "db_leases t = db_leases s"
    and i': "in_event_position i' = in_event_position i + int (length ds)"
      "in_fencing i' = in_fencing i" "in_state_version i \<le> in_state_version i'"
  shows "db_le s t"
proof -
  have "row_ok s rid" using row_of_inv[OF inv] .
  then have "row_ok t rid" using i t i' by (auto simp: row_ok_def)
  then show ?thesis
    using t i' by (intro db_le_update[OF inv i]) (auto intro: runtime_batch_other)
qed

lemma append_batch_run:
  assumes inv: "db_inv s" and run: "append_event_batch E rid ds s = (Inr ps, u)"
  defines "s' \<equiv> ensured E rid s"
  shows "db_events u = db_events s @ batch_rows rid (in_event_position (instance_of s' rid)) ds
    \<and> db_le s u"
proof -
  let ?i = "instance_of s' rid"
  have inv': "db_inv s'" unfolding s'_def using ensured_inv[OF inv] .
  have i: "map_of (db_instances s') rid = Some ?i" unfolding s'_def by (rule instance_ensured)
  have "bnd (ensure_runtime E rid) (\<lambda>_.
        bnd (gets (\<lambda>s. in_event_position (instance_of s rid))) (\<lambda>pos.
        bnd (store_events rid (ConcurrentPersistenceError ''Aggregate event sequence must be contiguous'')
          ''Event batch violated durable ordering constraints'' pos [] ds) (\<lambda>last.
        bnd (db_now E) (\<lambda>t.
        bnd (set_instance rid (\<lambda>i. i\<lparr>in_event_position := last, in_updated_at := t\<rparr>)) (\<lambda>_.
        ok (map (\<lambda>i. pos + 1 + int i) [0..<length ds])))))) s = (Inr ps, u)"
    using run by (auto simp: append_event_batch_def in_transaction_def split: prod.splits sum.splits)
  then have "bnd (store_events rid (ConcurrentPersistenceError ''Aggregate event sequence must be contiguous'')
          ''Event batch violated durable ordering constraints'' (in_event_position ?i) [] ds) (\<lambda>last.
        bnd (db_now E) (\<lambda>t.
        bnd (set_instance rid (\<lambda>i. i\<lparr>in_event_position := last, in_updated_at := t\<rparr>)) (\<lambda>_.
        ok (map (\<lambda>j. in_event_position ?i + 1 + int j) [0..<length ds])))) s' = (Inr ps, u)"
    by (simp add: bnd_ensure bnd_gets s'_def)
  then obtain l t where st: "store_events rid (ConcurrentPersistenceError ''Aggregate event sequence must be contiguous'')
          ''Event batch violated durable ordering constraints'' (in_event_position ?i) [] ds s' = (Inr l, t)"
    and u: "u = t\<lparr>db_ticks := Suc (db_ticks t), db_instances := dset rid
        ((instance_of t rid)\<lparr>in_event_position := l, in_updated_at := clock E (db_ticks t)\<rparr>) (db_instances t)\<rparr>"
    by (elim bnd_InrE) (auto simp: db_now_def set_instance_def upd_def ok_def instance_of_def)
  note t = store_batch_run[OF inv' i st]
  have "instance_of t rid = ?i" using t by (simp add: instance_of_def)
  then have "db_le s' u"
    using t i
    by (intro batch_le[OF inv' i, where i' = "?i\<lparr>in_event_position := l, in_updated_at := clock E (db_ticks t)\<rparr>"])
      (auto simp: u)
  moreover have "db_events s' = db_events s" by (simp add: s'_def ensured_facts)
  ultimately show ?thesis
    using t u db_le_trans[OF ensured_le[OF inv]] by (simp add: s'_def)
qed

lemma in_transaction_Inr: "in_transaction m s = (Inr x, t) \<longleftrightarrow> m s = (Inr x, t)"
  by (auto simp: in_transaction_def split: prod.splits sum.splits)

lemma append_safe: "db_safe (append_event_batch E rid ds)"
proof -
  have "db_safe (in_transaction m)" if "m' = in_transaction m"
    "\<And>s x t. db_inv s \<Longrightarrow> m' s = (Inr x, t) \<Longrightarrow> db_le s t" for m m' :: "int list dbop"
    using that by (intro db_safe_transaction) (simp add: in_transaction_Inr)
  then show ?thesis
    using append_batch_run[of _ E rid ds] unfolding append_event_batch_def by blast
qed

subsection \<open>Committing a checkpoint\<close>

lemma validate_lease_run:
  "validate_lease E l t latest s =
     (case map_of (db_leases s) (ls_runtime_id l) of
        None \<Rightarrow> (Inl (StaleFencingTokenError ''Lease fencing token is stale''), s)
      | Some r \<Rightarrow>
          if ls_fencing_token l \<noteq> latest then (Inl (StaleFencingTokenError ''Lease fencing token is stale''), s)
          else if \<not> lease_matches E l r then (Inl (StaleFencingTokenError ''Lease identity is stale''), s)
          else if lr_expires_at r \<le> t then (Inl (LeaseExpiredError ''Lease has expired''), s)
          else (Inr (), s))"
  by (auto simp: validate_lease_def bnd_runs fail_def require_def split: option.split)

lemma check_lease_run:
  "check_lease E lo rid t fencing s =
     (case lo of
        None \<Rightarrow> (Inr (), s)
      | Some l \<Rightarrow> if ls_runtime_id l = rid then validate_lease E l t fencing s
          else (Inl (StaleFencingTokenError ''Lease belongs to a different runtime''), s))"
  by (auto simp: check_lease_def bnd_require ok_def split: option.split)

lemma check_lease_state: "check_lease E lo rid t fencing s = (r, s') \<Longrightarrow> s' = s"
  by (auto simp: check_lease_run validate_lease_run split: option.splits if_splits)

lemma record_commit_run:
  assumes "record_commit ck expected opid t v s = (Inr x, u)"
  shows "db_events u = db_events s \<and> db_leases u = db_leases s \<and> cr_state_version x = v
    \<and> (\<exists>i'. map_of (db_instances u) = (map_of (db_instances s))(ck_runtime_id ck \<mapsto> i')
         \<and> in_event_position i' = ck_last_event_position ck
         \<and> in_fencing i' = in_fencing (instance_of s (ck_runtime_id ck)) \<and> in_state_version i' = v)"
  using assms
  by (auto simp: record_commit_def bnd_runs bnd_set_instance ok_def instance_of_def split: if_splits)

text \<open>What a commit that returned has checked, and what it has written.\<close>

lemma commit_body_run:
  assumes inv: "db_inv s" and run: "commit_body E ck expected lo opid t s = (Inr x, u)"
  defines "s' \<equiv> ensured E (ck_runtime_id ck) s"
  defines "i \<equiv> instance_of s' (ck_runtime_id ck)"
  shows "in_state_version i = expected
    \<and> check_lease E lo (ck_runtime_id ck) t (in_fencing i) s' = (Inr (), s')
    \<and> ck_last_event_position ck = int (length (ck_events ck))
    \<and> in_event_position i \<le> ck_last_event_position ck
    \<and> map ev_id (events_of s' (ck_runtime_id ck)) = map ed_id (take (nat (in_event_position i)) (ck_events ck))
    \<and> db_events u = db_events s' @ batch_rows (ck_runtime_id ck) (in_event_position i)
        (drop (nat (in_event_position i)) (ck_events ck))
    \<and> db_leases u = db_leases s' \<and> cr_state_version x = expected + 1
    \<and> (\<exists>i'. map_of (db_instances u) = (map_of (db_instances s'))(ck_runtime_id ck \<mapsto> i')
         \<and> in_event_position i' = ck_last_event_position ck \<and> in_fencing i' = in_fencing i
         \<and> in_state_version i' = expected + 1)
    \<and> db_le s u"
proof -
  let ?rid = "ck_runtime_id ck"
  let ?ds = "drop (nat (in_event_position i)) (ck_events ck)"
  have inv': "db_inv s'" unfolding s'_def using ensured_inv[OF inv] .
  have i: "map_of (db_instances s') ?rid = Some i" unfolding s'_def i_def by (rule instance_ensured)
  from run obtain y v where lease: "check_lease E lo ?rid t (in_fencing i) s' = (Inr y, v)"
    unfolding commit_body_def bnd_ensure s'_def[symmetric] bnd_gets i_def[symmetric] bnd_require
    by (auto split: if_splits elim!: bnd_InrE)
  then have lease': "check_lease E lo ?rid t (in_fencing i) s' = (Inr (), s')"
    using check_lease_state by fastforce
  have run_lease: "bnd (check_lease E lo ?rid t (in_fencing i)) f s' = f () s'" for f :: "unit \<Rightarrow> commit_result dbop"
    using lease' by (simp add: bnd_def)
  obtain l w where chk: "in_state_version i = expected" "ck_last_event_position ck = int (length (ck_events ck))"
    "in_event_position i \<le> ck_last_event_position ck"
    "map ev_id (events_of s' ?rid) = map ed_id (take (nat (in_event_position i)) (ck_events ck))"
    and st: "store_events ?rid (StaleCheckpointError ''Checkpoint aggregate sequence is not contiguous'')
       ''Database constraint rejected persistence transaction'' (in_event_position i) [] ?ds s' = (Inr l, w)"
    and rec: "record_commit ck expected opid t (in_state_version i + 1) w = (Inr x, u)"
    using run
    unfolding commit_body_def bnd_ensure s'_def[symmetric] bnd_gets i_def[symmetric] bnd_require
    by (auto split: if_splits elim!: bnd_InrE simp: bnd_gets bnd_require run_lease)
  note w = store_batch_run[OF inv' i st] and u = record_commit_run[OF rec]
  have iw: "instance_of w ?rid = i" using w i by (simp add: instance_of_def)
  have pos: "0 \<le> in_event_position i" using instance_position[OF inv' i] by simp
  have len: "ck_last_event_position ck = in_event_position i + int (length ?ds)"
    using chk(2,3) pos by simp
  obtain i' where i': "map_of (db_instances u) = (map_of (db_instances s'))(?rid \<mapsto> i')"
    "in_event_position i' = ck_last_event_position ck" "in_fencing i' = in_fencing i"
    "in_state_version i' = expected + 1"
    using u w iw chk(1) by auto
  have ev: "db_events u = db_events s' @ batch_rows ?rid (in_event_position i) ?ds" and "stream_inv (db_events u)"
    and ls: "db_leases u = db_leases s'"
    using u w by auto
  then have "db_le s' u"
    using i' len chk(1) by (intro batch_le[OF inv' i, where i' = i' and ds = ?ds and pos = "in_event_position i"]) simp_all
  then have "db_le s u" using db_le_trans[OF ensured_le[OF inv]] s'_def by blast
  then show ?thesis using chk lease' ev ls i' u by auto
qed

lemma commit_safe: "db_safe (commit_checkpoint E ck expected lo opid)"
proof -
  have body: "db_safe (in_transaction (commit_body E ck expected lo x t))" for x t
    using commit_body_run by (intro db_safe_transaction) blast
  have "db_safe (bnd (db_now E) (\<lambda>t. in_transaction (commit_body E ck expected lo x t)))" for x
    by (intro db_safe_now body)
  then show ?thesis
    unfolding commit_checkpoint_def
    by (cases opid; cases "opid = Some []") (simp_all add: db_safe_now(2))
qed

subsection \<open>Histories\<close>

datatype db_command =
    Acquire string string int
  | Renew lease int
  | Release lease
  | Break string
  | Read_Version string
  | Append string "event_doc list"
  | Commit checkpoint int "lease option" "string option"

fun db_exec :: "env \<Rightarrow> db_command \<Rightarrow> db \<Rightarrow> db" where
  "db_exec E (Acquire rid w ttl) s = snd (acquire_lease E rid w ttl s)"
| "db_exec E (Renew l ttl) s = snd (renew_lease E l ttl s)"
| "db_exec E (Release l) s = snd (release_lease E l s)"
| "db_exec E (Break rid) s = snd (break_expired_lease E rid s)"
| "db_exec E (Read_Version rid) s = snd (get_state_version E rid s)"
| "db_exec E (Append rid ds) s = snd (append_event_batch E rid ds s)"
| "db_exec E (Commit ck n lo opid) s = snd (commit_checkpoint E ck n lo opid s)"

definition db_call :: "env \<Rightarrow> db \<Rightarrow> db \<Rightarrow> bool" where
  "db_call E s t \<longleftrightarrow> (\<exists>c. t = db_exec E c s)"

lemma db_callI: "db_call E s (db_exec E c s)"
  by (auto simp: db_call_def)

lemma db_exec_le: "db_inv s \<Longrightarrow> db_le s (db_exec E c s)"
  using acquire_safe renew_safe release_safe break_safe version_safe append_safe commit_safe
  by (cases c) (simp_all add: db_safe_def)

lemma db_call_le: "db_call E s t \<Longrightarrow> db_inv s \<Longrightarrow> db_le s t"
  by (auto simp: db_call_def db_exec_le)

lemma db_calls_le: "(db_call E)\<^sup>*\<^sup>* s t \<Longrightarrow> db_inv s \<Longrightarrow> db_le s t"
proof (induction rule: rtranclp_induct)
  case base
  then show ?case by (rule db_le_refl)
next
  case (step y z)
  then have "db_le s y" "db_inv y" by (auto simp: db_le_def)
  then show ?case using db_call_le[OF step.hyps(2)] db_le_trans by blast
qed

lemma empty_db_inv: "db_inv empty_db"
  by (simp add: db_inv_def empty_db_def stream_inv_def runtime_events_def aggregate_events_def)

lemma reachable_db_inv: "(db_call E)\<^sup>*\<^sup>* empty_db s \<Longrightarrow> db_inv s"
  using db_calls_le[OF _ empty_db_inv] by (auto simp: db_le_def)

text \<open>C37: the durable event stream is append-only and has no gaps: in every history of leases, batches
  and checkpoints, committed events are never changed or removed, event identifiers are unique,
  the events of each runtime are numbered 1, 2, 3, ..., and so are those of each aggregate.\<close>

theorem durable_stream_append_only:
  assumes "(db_call E)\<^sup>*\<^sup>* empty_db s" and "(db_call E)\<^sup>*\<^sup>* s t"
  shows "(\<exists>new. db_events t = db_events s @ new) \<and> distinct (map ev_id (db_events t))
    \<and> counted (map ev_position (runtime_events rid (db_events t)))
    \<and> counted (map ev_sequence (aggregate_events rid ty aid (db_events t)))"
  using db_calls_le[OF assms(2) reachable_db_inv[OF assms(1)]]
  by (auto simp: db_le_def db_inv_rows stream_inv_def)

subsection \<open>A checkpoint holds the durable stream\<close>

lemma counted_events_of:
  assumes "stream_inv (db_events s)"
  shows "events_of s rid = runtime_events rid (db_events s)"
proof -
  have "sorted (map ev_position (runtime_events rid (db_events s)))"
    using assms counted_sorted by (simp add: stream_inv_def)
  then show ?thesis unfolding events_of_def runtime_events_def by (rule sort_key_id_if_sorted)
qed

lemma commit_checkpoint_cases:
  assumes "commit_checkpoint E ck n lo opid s = (Inr x, u)"
  obtains x' t j k where "commit_body E ck n lo x' t (s\<lparr>db_ticks := j, db_draws := k\<rparr>) = (Inr x, u)"
proof (cases "opid = None \<or> opid = Some []")
  case True
  then have "commit_body E ck n lo (tokens E (db_draws s)) (clock E (db_ticks s))
      (s\<lparr>db_draws := Suc (db_draws s), db_ticks := Suc (db_ticks s)\<rparr>) = (Inr x, u)"
    using assms by (auto simp: commit_checkpoint_def bnd_def db_draw_def db_now_def in_transaction_Inr)
  moreover have "s\<lparr>db_draws := Suc (db_draws s), db_ticks := Suc (db_ticks s)\<rparr>
      = s\<lparr>db_ticks := Suc (db_ticks s), db_draws := Suc (db_draws s)\<rparr>"
    by simp
  ultimately show ?thesis using that by metis
next
  case False
  then obtain o' where o': "opid = Some o'" "o' \<noteq> []" by auto
  then have "commit_body E ck n lo o' (clock E (db_ticks s)) (s\<lparr>db_ticks := Suc (db_ticks s)\<rparr>) = (Inr x, u)"
    using assms by (simp add: commit_checkpoint_def bnd_def db_now_def ok_def in_transaction_Inr)
  moreover have "s\<lparr>db_ticks := Suc (db_ticks s)\<rparr> = s\<lparr>db_ticks := Suc (db_ticks s), db_draws := db_draws s\<rparr>"
    by simp
  ultimately show ?thesis using that by metis
qed


subsection \<open>No lost checkpoint, no stale writer\<close>

definition commit_version :: "env \<Rightarrow> checkpoint \<times> lease option \<times> string option \<Rightarrow> int \<Rightarrow> commit_result dbop" where
  "commit_version E v n = (case v of (ck, lo, opid) \<Rightarrow> commit_checkpoint E ck n lo opid)"

lemma state_version_ticks [simp]:
  "state_version (s\<lparr>db_ticks := m, db_draws := n\<rparr>) = state_version s"
  "state_version (s\<lparr>db_ticks := m\<rparr>) = state_version s" "state_version (s\<lparr>db_draws := n\<rparr>) = state_version s"
  by (simp_all add: state_version_def fun_eq_iff)

lemma state_version_instances: "db_instances s = db_instances t \<Longrightarrow> state_version s = state_version t"
  by (simp add: state_version_def fun_eq_iff)

lemma commit_body_version:
  assumes "commit_body E ck n lo opid t s = (Inr x, u)"
  shows "state_version s (ck_runtime_id ck) = Some n
    \<and> state_version u = (state_version s)(ck_runtime_id ck \<mapsto> n + 1)"
proof -
  let ?rid = "ck_runtime_id ck"
  define s' where "s' = ensured E ?rid s"
  define i where "i = instance_of s' ?rid"
  have i: "map_of (db_instances s') ?rid = Some i" unfolding s'_def i_def by (rule instance_ensured)
  obtain y v l w where n: "in_state_version i = n"
    and lease: "check_lease E lo ?rid t (in_fencing i) s' = (Inr y, v)"
    and st: "store_events ?rid (StaleCheckpointError ''Checkpoint aggregate sequence is not contiguous'')
       ''Database constraint rejected persistence transaction'' (in_event_position i) []
       (drop (nat (in_event_position i)) (ck_events ck)) v = (Inr l, w)"
    and rec: "record_commit ck n opid t (in_state_version i + 1) w = (Inr x, u)"
    using assms unfolding commit_body_def bnd_ensure s'_def[symmetric] bnd_gets i_def[symmetric] bnd_require
    by (auto split: if_splits elim!: bnd_InrE simp: bnd_gets bnd_require)
  obtain es where "w = v\<lparr>db_events := es\<rparr>" using store_events_only[of ?rid] st by (metis snd_conv)
  then have "db_instances w = db_instances s'" using check_lease_state[OF lease] by simp
  then have "state_version w = state_version s" using ensured_facts(5)[of E ?rid s]
    by (simp add: s'_def state_version_def fun_eq_iff)
  moreover have "state_version u = (state_version w)(?rid \<mapsto> n + 1)"
    using record_commit_run[OF rec] n by (auto simp: state_version_def fun_eq_iff)
  moreover have "state_version s' ?rid = Some n" using i n by (simp add: state_version_def)
  ultimately show ?thesis using ensured_facts(5)[of E ?rid s] by (simp add: s'_def)
qed

lemma commit_refused_version:
  "commit_checkpoint E ck n lo opid s = (Inl e, u) \<Longrightarrow> state_version u = state_version s"
  by (rule state_version_instances)
    (auto simp: commit_checkpoint_def bnd_def db_now_def db_draw_def ok_def in_transaction_def
      split: option.splits if_splits prod.splits sum.splits)

interpretation commits: versioned_store state_version "commit_version E" "\<lambda>(ck, lo, opid). ck_runtime_id ck" for E
proof unfold_locales
  fix v n s r t
  assume "commit_version E v n s = (Inr r, t)"
  then obtain ck lo opid where v: "v = (ck, lo, opid)" and run: "commit_checkpoint E ck n lo opid s = (Inr r, t)"
    by (cases v) (auto simp: commit_version_def)
  obtain x' c j k where "commit_body E ck n lo x' c (s\<lparr>db_ticks := j, db_draws := k\<rparr>) = (Inr r, t)"
    using commit_checkpoint_cases[OF run] .
  from commit_body_version[OF this] show "state_version s ((\<lambda>(ck, lo, opid). ck_runtime_id ck) v) = Some n
      \<and> state_version t ((\<lambda>(ck, lo, opid). ck_runtime_id ck) v) = Some (n + 1)
      \<and> (\<forall>k. k \<noteq> (\<lambda>(ck, lo, opid). ck_runtime_id ck) v \<longrightarrow> state_version t k = state_version s k)"
    by (simp add: v)
next
  fix v n s e t
  assume "commit_version E v n s = (Inl e, t)"
  then show "state_version t = state_version s"
    by (cases v) (auto simp: commit_version_def intro: commit_refused_version)
qed

text \<open>C39: no checkpoint is lost: once a commit for state version \<open>n\<close> has returned, every later commit
  for the same runtime whose writer read version \<open>n\<close> or an older one is refused, whatever leases,
  batches and commits came in between, and leaves the runtime's version alone.\<close>

theorem conflicting_commit_refused:
  assumes "(db_call E)\<^sup>*\<^sup>* empty_db s" and "commit_checkpoint E ck n lo opid s = (Inr x, t)"
    and "(db_call E)\<^sup>*\<^sup>* t u" and "ck_runtime_id ck' = ck_runtime_id ck" and "m \<le> n"
  shows "\<exists>e v. commit_checkpoint E ck' m lo' opid' u = (Inl e, v) \<and> state_version v = state_version u"
proof -
  let ?rid = "ck_runtime_id ck"
  have "state_version t ?rid = Some (n + 1)"
    using commits.save_accepted[of E "(ck, lo, opid)" n s x t] assms(2) by (simp add: commit_version_def)
  moreover have "db_inv t"
    using db_exec_le[OF reachable_db_inv[OF assms(1)], of E "Commit ck n lo opid"] assms(2)
    by (simp add: db_le_def)
  ultimately have "n + 1 \<le> the (state_version u ?rid)"
    using db_calls_le[OF assms(3)] by (auto simp: db_le_def dest!: spec[of _ ?rid])
  moreover obtain r v where run: "commit_checkpoint E ck' m lo' opid' u = (r, v)" by fastforce
  ultimately show ?thesis
    using commits.save_accepted[of E "(ck', lo', opid')" m u _ v] commits.save_refused[of E "(ck', lo', opid')" m u _ v]
      assms(4,5)
    by (cases r) (auto simp: commit_version_def)
qed

subsection \<open>Fencing: a superseded lease is powerless\<close>

text \<open>
  A lease is honoured when a commit under it passes the lease check, or the lease can be renewed or
  released.
\<close>

definition lease_honoured :: "env \<Rightarrow> db \<Rightarrow> lease \<Rightarrow> bool" where
  "lease_honoured E s l \<longleftrightarrow>
     (\<exists>t. fst (check_lease E (Some l) (ls_runtime_id l) t (the (latest_fencing s (ls_runtime_id l))) s) = Inr ())
     \<or> (\<exists>ttl x. fst (renew_lease E l ttl s) = Inr x) \<or> fst (release_lease E l s) = Inr ()"

lemma honoured_fencing:
  assumes "db_inv s" and "lease_honoured E s l"
  shows "latest_fencing s (ls_runtime_id l) = Some (ls_fencing_token l)"
proof -
  let ?rid = "ls_runtime_id l"
  have f: "latest_fencing s ?rid = Some (the (latest_fencing s ?rid))" by (simp add: latest_fencing_def)
  have row: "latest_fencing s ?rid = Some (lr_fencing r)" if "map_of (db_leases s) ?rid = Some r" for r
    using row_of_inv[OF assms(1), of ?rid] that
    by (cases "map_of (db_instances s) ?rid") (auto simp: row_ok_def latest_fencing_def)
  consider t where "fst (check_lease E (Some l) ?rid t (the (latest_fencing s ?rid)) s) = Inr ()"
    | ttl x where "fst (renew_lease E l ttl s) = Inr x" | "fst (release_lease E l s) = Inr ()"
    using assms(2) by (auto simp: lease_honoured_def)
  then show ?thesis
  proof cases
    case 1
    then show ?thesis using f by (auto simp: check_lease_run validate_lease_run split: option.splits if_splits)
  next
    case 2
    then show ?thesis using row
      by (auto simp: renew_lease_def Let_def bnd_def db_now_def in_transaction_def gets_def require_def fail_def
          ok_def upd_def split: prod.splits sum.splits option.splits if_splits)
  next
    case 3
    then show ?thesis using row
      by (auto simp: release_lease_def bnd_runs upd_def lease_matches_def split: option.splits if_splits)
  qed
qed

interpretation leases: fenced "db_call E" db_inv latest_fencing "lease_honoured E"
  ls_runtime_id ls_fencing_token for E
proof
  show "db_inv s \<Longrightarrow> db_call E s t \<Longrightarrow> db_inv t" for s t
    using db_call_le[of E s t] by (simp add: db_le_def)
  show "db_inv s \<Longrightarrow> db_call E s t \<Longrightarrow> latest_fencing s k = Some n \<Longrightarrow> \<exists>m\<ge>n. latest_fencing t k = Some m" for s t k n
    using db_call_le[of E s t] by (auto simp: db_le_def latest_fencing_def dest!: spec[of _ k])
  show "db_inv s \<Longrightarrow> lease_honoured E s l \<Longrightarrow> latest_fencing s (ls_runtime_id l) = Some (ls_fencing_token l)" for s l
    by (rule honoured_fencing)
qed

lemma bnd_db_now: "bnd (db_now E) f s = f (clock E (db_ticks s)) (s\<lparr>db_ticks := Suc (db_ticks s)\<rparr>)"
  "bnd (db_draw E) g s = g (tokens E (db_draws s)) (s\<lparr>db_draws := Suc (db_draws s)\<rparr>)"
  by (simp_all add: bnd_def db_now_def db_draw_def)

lemma acquire_grants:
  assumes "acquire_lease E rid w ttl s = (Inr l, t)"
  shows "ls_runtime_id l = rid \<and> latest_fencing t rid = Some (ls_fencing_token l)
    \<and> latest_fencing s rid = Some (ls_fencing_token l - 1)"
proof -
  let ?s = "s\<lparr>db_ticks := Suc (db_ticks s), db_draws := Suc (db_draws s)\<rparr>"
  have "latest_fencing s rid = latest_fencing (ensured E rid ?s) rid"
    unfolding ensured_facts(6) by (simp add: latest_fencing_def)
  then have "latest_fencing s rid = Some (in_fencing (instance_of (ensured E rid ?s) rid))"
    by (simp add: latest_fencing_def instance_ensured)
  then show ?thesis
    using assms unfolding acquire_lease_def Let_def bnd_db_now in_transaction_Inr bnd_ensure
    by (auto simp: bnd_runs bnd_set_instance ok_def latest_fencing_def split: if_splits)
qed

lemma dishonoured_commit:
  assumes "\<not> lease_honoured E s l"
  shows "\<exists>e v. commit_checkpoint E ck n (Some l) opid s = (Inl e, v)"
proof (cases "commit_checkpoint E ck n (Some l) opid s")
  case (Pair r v)
  moreover have "r \<noteq> Inr x" for x
  proof
    assume "r = Inr x"
    then obtain x' c j k where run: "commit_body E ck n (Some l) x' c (s\<lparr>db_ticks := j, db_draws := k\<rparr>) = (Inr x, v)"
      using commit_checkpoint_cases Pair by metis
    let ?s = "ensured E (ck_runtime_id ck) (s\<lparr>db_ticks := j, db_draws := k\<rparr>)"
    have f: "latest_fencing ?s = latest_fencing s" "db_leases ?s = db_leases s"
      using ensured_facts(2,6)[of E "ck_runtime_id ck" "s\<lparr>db_ticks := j, db_draws := k\<rparr>"]
      by (simp_all add: latest_fencing_def fun_eq_iff)
    have i: "in_fencing (instance_of ?s (ck_runtime_id ck)) = the (latest_fencing s (ck_runtime_id ck))"
      unfolding f(1)[symmetric] by (simp add: latest_fencing_def instance_ensured)
    obtain y u where "check_lease E (Some l) (ck_runtime_id ck) c (in_fencing (instance_of ?s (ck_runtime_id ck))) ?s = (Inr y, u)"
      using run unfolding commit_body_def bnd_ensure bnd_gets bnd_require
      by (auto split: if_splits elim!: bnd_InrE)
    then have "ls_runtime_id l = ck_runtime_id ck
        \<and> fst (check_lease E (Some l) (ck_runtime_id ck) c (the (latest_fencing s (ck_runtime_id ck))) s) = Inr ()"
      unfolding i by (auto simp: check_lease_run validate_lease_run f(2) split: option.splits if_splits)
    then show False using assms by (auto simp: lease_honoured_def)
  qed
  ultimately show ?thesis by (cases r) auto
qed

text \<open>C40: fencing of leases: once a runtime's lease has been acquired again, the earlier lease is
  powerless in every later state, whatever the clock says: it cannot be renewed or released, and
  every commit that presents it raises.\<close>

theorem superseded_lease_is_powerless:
  assumes "(db_call E)\<^sup>*\<^sup>* empty_db s" and "acquire_lease E rid w ttl s = (Inr l, s1)"
    and "(db_call E)\<^sup>*\<^sup>* s1 s2" and "acquire_lease E rid w' ttl' s2 = (Inr l', s3)"
    and "(db_call E)\<^sup>*\<^sup>* s3 u"
  shows "ls_fencing_token l < ls_fencing_token l'
    \<and> (\<exists>e v. commit_checkpoint E ck n (Some l) opid u = (Inl e, v))
    \<and> (\<exists>e v. renew_lease E l ttl'' u = (Inl e, v)) \<and> (\<exists>e v. release_lease E l u = (Inl e, v))"
proof -
  have inv: "db_inv s1"
    using db_exec_le[OF reachable_db_inv[OF assms(1)], of E "Acquire rid w ttl"] assms(2) by (simp add: db_le_def)
  have step: "db_call E s2 s3" using db_callI[of E s2 "Acquire rid w' ttl'"] assms(4) by simp
  have inv3: "db_inv s3"
    using leases.steps_keep_inv[OF rtranclp.rtrancl_into_rtrancl[OF assms(3) step] inv] .
  have "ls_fencing_token l \<le> ls_fencing_token l' - 1"
    using leases.steps_token[OF assms(3) inv] acquire_grants[OF assms(2)] acquire_grants[OF assms(4)] by fastforce
  then have lt: "ls_fencing_token l < ls_fencing_token l'" by simp
  have "\<not> lease_honoured E u l"
    using leases.superseded_refused[OF inv3 _ lt assms(5)] acquire_grants[OF assms(2)] acquire_grants[OF assms(4)]
    by simp
  then show ?thesis
    using lt dishonoured_commit[of E u l ck n opid] unfolding lease_honoured_def
    by (cases "renew_lease E l ttl'' u"; cases "release_lease E l u")
      (auto, metis fst_conv old.sum.exhaust, metis fst_conv old.sum.exhaust old.unit.exhaust)
qed

end
