(* ===== verification/Durable_Store_Demo.thy ===== *)
theory Durable_Store_Demo
  imports Durable_Store_Safety
begin

section \<open>A run of the relational store\<close>

text \<open>
  One runtime, a lease that expires and is acquired again, a batch of two events and the checkpoint
  that holds them and a third: the theorems on the relational store, applied to this run.
\<close>

definition db_env :: env where
  "db_env = \<lparr>clock = (\<lambda>n. 1000000 * int n), tokens = (\<lambda>n. ''t'' @ nat_str n), sha = (\<lambda>x. ''#'' @ x)\<rparr>"

definition event1 :: event_doc where
  "event1 = \<lparr>ed_id = ''e1'', ed_aggregate_type = ''order'', ed_aggregate_id = ''o1'', ed_sequence = 1,
     ed_type = ''OrderCreated'', ed_occurred_at = 5, ed_correlation = None, ed_causation = None,
     ed_payload = ''{}''\<rparr>"

definition event2 :: event_doc where
  "event2 = event1\<lparr>ed_id := ''e2'', ed_sequence := 2, ed_type := ''OrderPaid''\<rparr>"

definition event3 :: event_doc where
  "event3 = event1\<lparr>ed_id := ''e3'', ed_aggregate_id := ''o2''\<rparr>"

definition ck1 :: checkpoint where
  "ck1 = \<lparr>ck_id = ''c1'', ck_runtime_id = ''r'', ck_schema_version = 1, ck_created_at = 9,
     ck_reason = ''periodic'', ck_last_event_position = 3, ck_digest = ''d'',
     ck_events = [event1, event2, event3], ck_document = ''{}''\<rparr>"

definition db1 :: db where
  "db1 = snd (acquire_lease db_env ''r'' ''w1'' 1 empty_db)"

definition lease1 :: lease where
  "lease1 = \<lparr>ls_runtime_id = ''r'', ls_owner_id = ''w1'', ls_token = ''t0'', ls_acquired_at = 0,
     ls_renewed_at = 0, ls_expires_at = 1000000, ls_fencing_token = 1\<rparr>"

definition db2 :: db where
  "db2 = db_exec db_env (Append ''r'' [event1, event2]) db1"

definition db3 :: db where
  "db3 = snd (acquire_lease db_env ''r'' ''w2'' 60 db2)"

definition lease2 :: lease where
  "lease2 = \<lparr>ls_runtime_id = ''r'', ls_owner_id = ''w2'', ls_token = ''t1'', ls_acquired_at = 4000000,
     ls_renewed_at = 4000000, ls_expires_at = 64000000, ls_fencing_token = 2\<rparr>"

definition db4 :: db where
  "db4 = snd (commit_checkpoint db_env ck1 0 (Some lease2) None db3)"

lemma run1: "acquire_lease db_env ''r'' ''w1'' 1 empty_db = (Inr lease1, db1)"
proof -
  have "fst (acquire_lease db_env ''r'' ''w1'' 1 empty_db) = Inr lease1" by code_simp
  then show ?thesis by (simp add: db1_def prod_eq_iff)
qed

lemma run3: "acquire_lease db_env ''r'' ''w2'' 60 db2 = (Inr lease2, db3)"
proof -
  have "fst (acquire_lease db_env ''r'' ''w2'' 60 db2) = Inr lease2" by code_simp
  then show ?thesis by (simp add: db3_def prod_eq_iff)
qed

definition result4 :: commit_result where
  "result4 = \<lparr>cr_runtime_id = ''r'', cr_operation_id = ''t2'', cr_state_version = 1,
     cr_checkpoint_id = ''c1'', cr_event_position = 3, cr_committed_at = 6000000\<rparr>"

lemma run4: "commit_checkpoint db_env ck1 0 (Some lease2) None db3 = (Inr result4, db4)"
proof -
  have "fst (commit_checkpoint db_env ck1 0 (Some lease2) None db3) = Inr result4" by code_simp
  then show ?thesis by (simp add: db4_def prod_eq_iff)
qed

lemma calls:
  "(db_call db_env)\<^sup>*\<^sup>* empty_db db1" "(db_call db_env)\<^sup>*\<^sup>* db1 db2" "(db_call db_env)\<^sup>*\<^sup>* db2 db3" "(db_call db_env)\<^sup>*\<^sup>* db3 db4"
  using db_callI[of db_env empty_db "Acquire ''r'' ''w1'' 1"] db_callI[of db_env db1 "Append ''r'' [event1, event2]"]
    db_callI[of db_env db2 "Acquire ''r'' ''w2'' 60"] db_callI[of db_env db3 "Commit ck1 0 (Some lease2) None"]
  unfolding db_exec.simps(1,7) db1_def[symmetric] db2_def[symmetric] db3_def[symmetric] db4_def[symmetric]
  by (simp_all only: r_into_rtranclp)

lemmas calls_to_3 = rtranclp_trans[OF calls(1) rtranclp_trans[OF calls(2,3)]]

lemma durable_stream_append_only_witness:
  "(\<exists>new. db_events db4 = db_events db3 @ new) \<and> counted (map ev_position (runtime_events ''r'' (db_events db4)))"
  using durable_stream_append_only[OF calls_to_3 calls(4), of "''r''" "''order''" "''o1''"] by blast


lemma conflicting_commit_refused_witness:
  "\<exists>e v. commit_checkpoint db_env ck1 0 (Some lease2) (Some ''again'') db4 = (Inl e, v)"
  using conflicting_commit_refused[OF calls_to_3 run4 rtranclp.rtrancl_refl, of ck1 0 "Some lease2" "Some ''again''"]
  by blast

lemma superseded_lease_is_powerless_witness:
  "\<exists>e v. commit_checkpoint db_env ck1 0 (Some lease1) None db4 = (Inl e, v)"
  using superseded_lease_is_powerless[OF rtranclp.rtrancl_refl run1 calls(2) run3 calls(4), of ck1 0 None 30] by blast

end
