(* ===== verification/Events.thy ===== *)
theory Events
  imports Payload
begin

section \<open>Runtime events: the store and the publisher\<close>

text \<open>
  \<^verbatim>\<open>runtime/events/event.py\<close>, \<^verbatim>\<open>store.py\<close> and \<^verbatim>\<open>publisher.py\<close>. A bus is the event store, the
  events staged by the open transaction, if there is one, and the count of clock readings. The
  exceptions of \<^verbatim>\<open>runtime/exceptions.py\<close> that the runtime kernel raises are declared here, with the
  text of those whose text the program stores.
\<close>

subsection \<open>Exceptions and the environment of the kernel\<close>

datatype kexn =
    ValidationError string
  | DuplicateEventError | EventNotFoundError | EventPublicationError
  | InvalidEventTypeError
  | TransactionAlreadyCompletedError | NestedTransactionError | TransactionCommitError | TransactionRollbackError
  | RuntimeCompositionError
  | DuplicateWorkPackageError | DuplicateWorkItemError | DuplicateArtifactError | ArtifactNotFoundError
  | DuplicateProjectError | ProjectNotFoundError
  | WorkPackageNotFoundError | WorkItemNotFoundError | InvalidLifecycleTransitionError
  | DuplicateAgentError | AgentNotFoundError | InvalidAgentStateTransitionError
  | AssignmentNotFoundError | DuplicateActiveAssignmentError | NoEligibleAgentError | AgentCapacityError
  | InvalidAssignmentStateTransitionError
  | ExecutorNotFoundError | DuplicateExecutorError | ExecutionNotFoundError | DuplicateExecutionError
  | InvalidExecutionStateTransitionError | ExecutionFailedError string
  | RecoveryNotFoundError | DuplicateRecoveryError | InvalidRecoveryActionError | ExecutionNotRecoverableError
  | WorkflowNotFoundError | DuplicateWorkflowError | InvalidWorkflowTransitionError
  | WorkflowExecutionError string | WorkflowApprovalError | WorkflowReleaseError
  | Executor_Raised string
  | KeyError | IndexError

text \<open>
  The clock, and \<open>str(error) or type(error).__name__\<close> of the exceptions whose text is not
  modelled.
\<close>

record kenv =
  kclock :: "nat \<Rightarrow> datetime"
  ktext :: "kexn \<Rightarrow> string"

definition error_text :: "kenv \<Rightarrow> kexn \<Rightarrow> string" where
  "error_text K e =
     (case e of
        ValidationError m \<Rightarrow> m
      | ExecutionFailedError m \<Rightarrow> m
      | WorkflowExecutionError m \<Rightarrow> m
      | Executor_Raised m \<Rightarrow> m
      | _ \<Rightarrow> ktext K e)"

text \<open>\<open>validate_required_string\<close> and \<open>validate_optional_string\<close> of \<^verbatim>\<open>runtime/validation.py\<close>.\<close>

definition validate_required_string :: "string \<Rightarrow> string \<Rightarrow> kexn + unit" where
  "validate_required_string v name =
     (if blank v then Inl (ValidationError (name @ '' must be a non-empty string'')) else Inr ())"

definition validate_optional_string :: "string option \<Rightarrow> string \<Rightarrow> kexn + unit" where
  "validate_optional_string v name = (case v of None \<Rightarrow> Inr () | Some x \<Rightarrow> validate_required_string x name)"

text \<open>Checks made one after the other; the first that fails is raised.\<close>

fun checks :: "('e + unit) list \<Rightarrow> 'e + unit" where
  "checks [] = Inr ()"
| "checks (Inl e # cs) = Inl e"
| "checks (Inr u # cs) = checks cs"

definition check :: "bool \<Rightarrow> 'e \<Rightarrow> 'e + unit" where
  "check b e = (if b then Inr () else Inl e)"

lemma checks_Inr: "checks cs = Inr () \<longleftrightarrow> (\<forall>c\<in>set cs. c = Inr ())"
  by (induction cs rule: checks.induct) auto

lemma check_Inr [simp]: "check b e = Inr u \<longleftrightarrow> b"
  by (simp add: check_def)

lemma required_Inr [simp]: "validate_required_string v n = Inr u \<longleftrightarrow> \<not> blank v"
  by (simp add: validate_required_string_def)

lemma optional_Inr [simp]: "validate_optional_string v n = Inr u \<longleftrightarrow> (\<forall>x. v = Some x \<longrightarrow> \<not> blank x)"
  by (auto simp: validate_optional_string_def split: option.split)

subsection \<open>Events\<close>

record runtime_event =
  re_id :: string
  re_event_type :: string
  re_aggregate_type :: string
  re_aggregate_id :: string
  re_sequence :: int
  re_payload :: json
  re_occurred_at :: datetime
  re_correlation :: "string option"
  re_causation :: "string option"

definition is_mapping :: "json \<Rightarrow> bool" where
  "is_mapping v = (case v of JObj d \<Rightarrow> True | _ \<Rightarrow> False)"

definition validate_event :: "runtime_event \<Rightarrow> kexn + unit" where
  "validate_event e = checks [
     validate_required_string (re_id e) ''RuntimeEvent.id'',
     validate_required_string (re_aggregate_type e) ''RuntimeEvent.aggregate_type'',
     validate_required_string (re_aggregate_id e) ''RuntimeEvent.aggregate_id'',
     check (1 \<le> re_sequence e) (ValidationError ''RuntimeEvent.sequence_number must be a positive integer''),
     validate_optional_string (re_correlation e) ''RuntimeEvent.correlation_id'',
     validate_optional_string (re_causation e) ''RuntimeEvent.causation_id'',
     check (is_mapping (re_payload e)) (ValidationError ''RuntimeEvent.payload must be a mapping''),
     check (freezable (re_payload e)) (ValidationError (''RuntimeEvent.payload values must be mappings, lists, ''
       @ ''tuples, sets, or immutable scalar values''))]"

subsection \<open>The event store\<close>

type_synonym event_store = "(string, runtime_event) dict"

definition of_aggregate :: "string \<Rightarrow> string \<Rightarrow> runtime_event \<Rightarrow> bool" where
  "of_aggregate ty aid e \<longleftrightarrow> re_aggregate_type e = ty \<and> re_aggregate_id e = aid"

definition list_events_for_aggregate :: "string \<Rightarrow> string \<Rightarrow> event_store \<Rightarrow> kexn + runtime_event list" where
  "list_events_for_aggregate ty aid st =
     (case checks [validate_required_string ty ''aggregate_type'', validate_required_string aid ''aggregate_id''] of
        Inl e \<Rightarrow> Inl e
      | Inr _ \<Rightarrow> Inr (filter (of_aggregate ty aid) (dvals st)))"

definition list_events_for_correlation :: "string \<Rightarrow> event_store \<Rightarrow> kexn + runtime_event list" where
  "list_events_for_correlation c st =
     (case validate_required_string c ''correlation_id'' of
        Inl e \<Rightarrow> Inl e
      | Inr _ \<Rightarrow> Inr (filter (\<lambda>e. re_correlation e = Some c) (dvals st)))"

definition get_event :: "string \<Rightarrow> event_store \<Rightarrow> kexn + runtime_event" where
  "get_event i st =
     (case validate_required_string i ''event_id'' of
        Inl e \<Rightarrow> Inl e
      | Inr _ \<Rightarrow> (case map_of st i of None \<Rightarrow> Inl EventNotFoundError | Some e \<Rightarrow> Inr e))"

definition next_sequence_number :: "string \<Rightarrow> string \<Rightarrow> event_store \<Rightarrow> kexn + int" where
  "next_sequence_number ty aid st =
     (case list_events_for_aggregate ty aid st of Inl e \<Rightarrow> Inl e | Inr es \<Rightarrow> Inr (int (length es) + 1))"

definition validate_pending_event ::
    "event_store \<Rightarrow> runtime_event \<Rightarrow> string list \<Rightarrow> ((string \<times> string), int) dict \<Rightarrow> kexn + unit" where
  "validate_pending_event st e pending seqs =
     (if re_id e \<in> set pending then Inl DuplicateEventError
      else case next_sequence_number (re_aggregate_type e) (re_aggregate_id e) st of
        Inl x \<Rightarrow> Inl x
      | Inr n \<Rightarrow>
          let expected = (case map_of seqs (re_aggregate_type e, re_aggregate_id e) of Some m \<Rightarrow> m | None \<Rightarrow> n) in
          check (re_sequence e = expected) (ValidationError ''Event sequence is not the expected one''))"

fun validate_batch ::
    "event_store \<Rightarrow> runtime_event list \<Rightarrow> string list \<Rightarrow> ((string \<times> string), int) dict \<Rightarrow> kexn + unit" where
  "validate_batch st [] pending seqs = Inr ()"
| "validate_batch st (e # es) pending seqs =
     (case validate_pending_event st e pending seqs of
        Inl x \<Rightarrow> Inl x
      | Inr _ \<Rightarrow> validate_batch st es (re_id e # pending)
          (dset (re_aggregate_type e, re_aggregate_id e) (re_sequence e + 1) seqs))"

definition add_events :: "runtime_event list \<Rightarrow> event_store \<Rightarrow> kexn + event_store" where
  "add_events es st =
     (case validate_batch st es (dkeys st) [] of
        Inl x \<Rightarrow> Inl x
      | Inr _ \<Rightarrow> Inr (foldl (\<lambda>d e. dset (re_id e) e d) st es))"

subsection \<open>The publisher\<close>

record bus =
  b_store :: event_store
  b_tx :: "runtime_event list option"
  b_ticks :: nat

definition empty_bus :: bus where
  "empty_bus = \<lparr>b_store = [], b_tx = None, b_ticks = 0\<rparr>"

type_synonym 'a bop = "(bus, kexn, 'a) sx"

definition tick :: "kenv \<Rightarrow> datetime bop" where
  "tick K b = (Inr (kclock K (b_ticks b)), b\<lparr>b_ticks := Suc (b_ticks b)\<rparr>)"

definition event_id :: "string \<Rightarrow> string \<Rightarrow> int \<Rightarrow> string \<Rightarrow> string" where
  "event_id ty aid n et =
     nat_str (length ty) @ '':'' @ ty @ nat_str (length aid) @ '':'' @ aid
     @ int_str n @ '':'' @ nat_str (length et) @ '':'' @ et"

definition staged :: "bus \<Rightarrow> runtime_event list" where
  "staged b = (case b_tx b of None \<Rightarrow> [] | Some es \<Rightarrow> es)"

text \<open>Staging in the open transaction, or adding to the store.\<close>

definition emit_event :: "runtime_event \<Rightarrow> runtime_event bop" where
  "emit_event e b =
     (case b_tx b of
        Some es \<Rightarrow> (Inr e, b\<lparr>b_tx := Some (es @ [e])\<rparr>)
      | None \<Rightarrow>
          (case add_events [e] (b_store b) of
             Inr st \<Rightarrow> (Inr e, b\<lparr>b_store := st\<rparr>)
           | Inl DuplicateEventError \<Rightarrow> (Inl DuplicateEventError, b)
           | Inl x \<Rightarrow> (Inl EventPublicationError, b)))"

definition publish ::
    "kenv \<Rightarrow> string \<Rightarrow> string \<Rightarrow> string \<Rightarrow> json \<Rightarrow> string option \<Rightarrow> string option \<Rightarrow> string option
     \<Rightarrow> runtime_event bop" where
  "publish K et ty aid pl corr caus eid =
     bnd (of_sum (checks [validate_required_string ty ''aggregate_type'',
       validate_required_string aid ''aggregate_id'', validate_optional_string corr ''correlation_id'',
       validate_optional_string caus ''causation_id''])) (\<lambda>_.
     bnd (gets (\<lambda>b. int (length (filter (of_aggregate ty aid) (staged b))))) (\<lambda>pending.
     bnd (gets (\<lambda>b. next_sequence_number ty aid (b_store b))) (\<lambda>r.
     bnd (of_sum r) (\<lambda>n.
     bnd (tick K) (\<lambda>t.
     let i = (case eid of Some x \<Rightarrow> if x = [] then event_id ty aid (n + pending) et else x
                        | None \<Rightarrow> event_id ty aid (n + pending) et);
         e = \<lparr>re_id = i, re_event_type = et, re_aggregate_type = ty, re_aggregate_id = aid,
              re_sequence = n + pending, re_payload = pl, re_occurred_at = t,
              re_correlation = corr, re_causation = caus\<rparr> in
     bnd (of_sum (validate_event e)) (\<lambda>_. emit_event e))))))"

end
