(* ===== verification/Status_Policy.thy ===== *)
theory Status_Policy
  imports Prelude
begin

section \<open>The contract of a status policy\<close>

text \<open>
  Work items, agents, assignments, executions, workflows, external tasks, requirements and
  releases all carry a status, a table of the transitions allowed from each status, and a
  validator that raises when a change is not in the table. This theory states that contract
  once, as a locale, and proves what follows from it for whole histories of changes. Each
  component interprets the locale on its own table and validator.
\<close>

locale status_policy =
  fixes allowed :: "'st \<Rightarrow> 'st list"
    and validate :: "'st \<Rightarrow> 'st \<Rightarrow> 'e + unit"
  assumes validate_iff: "validate a b = Inr () \<longleftrightarrow> b \<in> set (allowed a)"
begin

text \<open>A history of changes the validator accepted one after the other, from \<open>a\<close>.\<close>

fun accepted :: "'st \<Rightarrow> 'st list \<Rightarrow> bool" where
  "accepted a [] = True"
| "accepted a (b # bs) = (validate a b = Inr () \<and> accepted b bs)"

lemma accepted_append:
  "accepted a (bs @ cs) \<longleftrightarrow> accepted a bs \<and> accepted (last (a # bs)) cs"
  by (induction bs arbitrary: a) auto

text \<open>A set of statuses that the table does not leave is never left.\<close>

lemma closed_stays:
  assumes "accepted a bs" and "Q a" and "\<And>x y. Q x \<Longrightarrow> y \<in> set (allowed x) \<Longrightarrow> Q y"
  shows "\<forall>b\<in>set bs. Q b"
  using assms(1,2)
proof (induction bs arbitrary: a)
  case Nil
  then show ?case by simp
next
  case (Cons b bs)
  then have "Q b" using assms(3) validate_iff by auto
  with Cons show ?case by auto
qed

text \<open>A status with no allowed successor is final.\<close>

lemma terminal_final: "allowed a = [] \<Longrightarrow> accepted a bs \<Longrightarrow> bs = []"
  by (cases bs) (auto simp: validate_iff)

text \<open>
  A gate: when the only allowed way out of \<open>Q\<close> is into the status \<open>v\<close>, a history that
  starts in \<open>Q\<close> and ends outside it went through \<open>v\<close>.
\<close>

lemma must_pass:
  assumes "accepted a bs" and "Q a" and "\<not> Q (last (a # bs))"
    and gate: "\<And>x y. Q x \<Longrightarrow> y \<in> set (allowed x) \<Longrightarrow> Q y \<or> y = v"
  shows "v \<in> set bs"
  using assms(1-3)
proof (induction bs arbitrary: a)
  case Nil
  then show ?case by simp
next
  case (Cons b bs)
  from Cons.prems have "b \<in> set (allowed a)" by (simp add: validate_iff)
  with gate Cons.prems have "Q b \<or> b = v" by blast
  then show ?case using Cons by auto
qed

lemma validate_rejects: "b \<notin> set (allowed a) \<Longrightarrow> \<exists>e. validate a b = Inl e"
  by (cases "validate a b") (auto simp: validate_iff[symmetric])

end

end
