(* ===== verification/Kernel_Models.thy ===== *)
theory Kernel_Models
  imports Events Status_Policy
begin

section \<open>The data of the runtime kernel\<close>

text \<open>
  The models of \<^verbatim>\<open>runtime/models\<close>, \<^verbatim>\<open>runtime/agents\<close>, \<^verbatim>\<open>runtime/orchestration\<close>,
  \<^verbatim>\<open>runtime/execution\<close> and \<^verbatim>\<open>runtime/workflows\<close>: their status enums with the transition tables and
  the validators of a change, their dataclasses as records, and the checks of the constructors.
  Values that Python checks with \<open>isinstance\<close> are typed here, so those checks always pass. Each
  validator of a status change is an interpretation of the contract of status policies.
\<close>

subsection \<open>Work items and packages\<close>

datatype lifecycle_state =
  CREATED | READY | ASSIGNED | RUNNING | REVIEW | APPROVED | REJECTED | COMPLETED | RELEASED

fun lifecycle_transitions :: "lifecycle_state \<Rightarrow> lifecycle_state list" where
  "lifecycle_transitions CREATED = [READY]"
| "lifecycle_transitions READY = [ASSIGNED]"
| "lifecycle_transitions ASSIGNED = [READY, RUNNING]"
| "lifecycle_transitions RUNNING = [REVIEW]"
| "lifecycle_transitions REVIEW = [APPROVED, REJECTED]"
| "lifecycle_transitions REJECTED = [RUNNING]"
| "lifecycle_transitions APPROVED = [COMPLETED]"
| "lifecycle_transitions COMPLETED = [RELEASED]"
| "lifecycle_transitions RELEASED = []"

definition validate_lifecycle_transition :: "lifecycle_state \<Rightarrow> lifecycle_state \<Rightarrow> kexn + unit" where
  "validate_lifecycle_transition a b = check (b \<in> set (lifecycle_transitions a)) InvalidLifecycleTransitionError"

interpretation lifecycle: status_policy lifecycle_transitions validate_lifecycle_transition
  by unfold_locales (simp add: validate_lifecycle_transition_def)

record work_item =
  wi_id :: string
  wi_title :: string
  wi_description :: string
  wi_priority :: string
  wi_dependencies :: "string list"
  wi_assigned_to :: "string option"
  wi_state :: lifecycle_state

definition validate_work_item :: "work_item \<Rightarrow> kexn + unit" where
  "validate_work_item w = checks [
     validate_required_string (wi_id w) ''WorkItem.id'',
     validate_required_string (wi_title w) ''WorkItem.title'',
     validate_required_string (wi_description w) ''WorkItem.description'',
     validate_required_string (wi_priority w) ''WorkItem.priority'',
     validate_optional_string (wi_assigned_to w) ''WorkItem.assigned_to'']"

definition change_state :: "lifecycle_state \<Rightarrow> work_item \<Rightarrow> kexn + work_item" where
  "change_state b w =
     (case validate_lifecycle_transition (wi_state w) b of Inl e \<Rightarrow> Inl e | Inr _ \<Rightarrow> Inr (w\<lparr>wi_state := b\<rparr>))"

definition recover_state :: "lifecycle_state \<Rightarrow> string \<Rightarrow> work_item \<Rightarrow> kexn + work_item" where
  "recover_state b reason w =
     (case checks [validate_required_string reason ''recovery reason'',
        check (wi_state w = RUNNING \<and> b = ASSIGNED) InvalidLifecycleTransitionError] of
        Inl e \<Rightarrow> Inl e | Inr _ \<Rightarrow> Inr (w\<lparr>wi_state := b\<rparr>))"

record work_package =
  wp_id :: string
  wp_title :: string
  wp_description :: string
  wp_owner :: string
  wp_state :: lifecycle_state
  wp_items :: "work_item list"
  wp_artifacts :: "string list"
  wp_created_at :: datetime
  wp_updated_at :: datetime

definition validate_work_package :: "work_package \<Rightarrow> kexn + unit" where
  "validate_work_package p = checks ([
     validate_required_string (wp_id p) ''WorkPackage.id'',
     validate_required_string (wp_title p) ''WorkPackage.title'',
     validate_required_string (wp_description p) ''WorkPackage.description'',
     validate_required_string (wp_owner p) ''WorkPackage.owner'',
     check (distinct (map wi_id (wp_items p))) DuplicateWorkItemError]
   @ map (\<lambda>a. validate_required_string a ''WorkPackage.artifact_id'') (wp_artifacts p)
   @ [check (distinct (wp_artifacts p)) DuplicateArtifactError])"

definition find_item :: "string \<Rightarrow> work_item list \<Rightarrow> work_item option" where
  "find_item i ws = List.find (\<lambda>w. wi_id w = i) ws"

text \<open>The work item object a lookup returns is changed in place: the first one with the identifier.\<close>

fun update_item :: "string \<Rightarrow> (work_item \<Rightarrow> work_item) \<Rightarrow> work_item list \<Rightarrow> work_item list" where
  "update_item i f [] = []"
| "update_item i f (w # ws) = (if wi_id w = i then f w # ws else w # update_item i f ws)"

subsection \<open>Agents\<close>

datatype agent_role =
    CEO | PROJECT_MANAGER | SOFTWARE_ARCHITECT | BACKEND_ENGINEER | FRONTEND_ENGINEER | QA_ENGINEER
  | DEVOPS_ENGINEER | SECURITY_ENGINEER | DATA_ENGINEER | AI_ENGINEER | DOCUMENTATION_ENGINEER

datatype agent_state = REGISTERED | AVAILABLE | BUSY | OFFLINE | DISABLED

fun agent_transitions :: "agent_state \<Rightarrow> agent_state list" where
  "agent_transitions REGISTERED = [AVAILABLE, OFFLINE, DISABLED]"
| "agent_transitions AVAILABLE = [BUSY, OFFLINE, DISABLED]"
| "agent_transitions BUSY = [AVAILABLE, OFFLINE, DISABLED]"
| "agent_transitions OFFLINE = [AVAILABLE, DISABLED]"
| "agent_transitions DISABLED = []"

definition validate_agent_state_transition :: "agent_state \<Rightarrow> agent_state \<Rightarrow> kexn + unit" where
  "validate_agent_state_transition a b = check (b \<in> set (agent_transitions a)) InvalidAgentStateTransitionError"

interpretation agent_policy: status_policy agent_transitions validate_agent_state_transition
  by unfold_locales (simp add: validate_agent_state_transition_def)

record capability =
  cap_id :: string
  cap_name :: string
  cap_description :: string
  cap_version :: string
  cap_tags :: "string list"

definition validate_capability :: "capability \<Rightarrow> kexn + unit" where
  "validate_capability c = checks ([
     validate_required_string (cap_id c) ''AgentCapability.id'',
     validate_required_string (cap_name c) ''AgentCapability.name'',
     validate_required_string (cap_description c) ''AgentCapability.description'',
     validate_required_string (cap_version c) ''AgentCapability.version'']
   @ map (\<lambda>t. validate_required_string t ''AgentCapability.tags'') (cap_tags c)
   @ [check (distinct (cap_tags c)) (ValidationError ''AgentCapability.tags must not contain duplicates'')])"

record agent =
  ag_id :: string
  ag_display_name :: string
  ag_role :: agent_role
  ag_description :: string
  ag_state :: agent_state
  ag_capabilities :: "capability list"
  ag_max_parallel_tasks :: int
  ag_priority :: int

definition validate_agent :: "agent \<Rightarrow> kexn + unit" where
  "validate_agent a = checks [
     validate_required_string (ag_id a) ''AgentMetadata.id'',
     validate_required_string (ag_display_name a) ''AgentMetadata.display_name'',
     check (1 \<le> ag_max_parallel_tasks a)
       (ValidationError ''AgentMetadata.max_parallel_tasks must be a positive integer''),
     validate_required_string (ag_description a) ''AgentMetadata.description'',
     check (distinct (map cap_id (ag_capabilities a)))
       (ValidationError ''AgentMetadata.supported_capabilities must not contain duplicate IDs'')]"

definition change_agent_state :: "agent_state \<Rightarrow> agent \<Rightarrow> kexn + agent" where
  "change_agent_state b a =
     (case validate_agent_state_transition (ag_state a) b of Inl e \<Rightarrow> Inl e | Inr _ \<Rightarrow> Inr (a\<lparr>ag_state := b\<rparr>))"

definition supports_capability :: "string \<Rightarrow> agent \<Rightarrow> kexn + bool" where
  "supports_capability c a =
     (case validate_required_string c ''capability_id'' of
        Inl e \<Rightarrow> Inl e | Inr _ \<Rightarrow> Inr (c \<in> set (map cap_id (ag_capabilities a))))"

subsection \<open>Assignments\<close>

datatype assignment_status = ASSIGNMENT_CREATED | ACTIVE | ASSIGNMENT_COMPLETED | ASSIGNMENT_CANCELLED

fun assignment_transitions :: "assignment_status \<Rightarrow> assignment_status list" where
  "assignment_transitions ASSIGNMENT_CREATED = [ACTIVE, ASSIGNMENT_CANCELLED]"
| "assignment_transitions ACTIVE = [ASSIGNMENT_COMPLETED, ASSIGNMENT_CANCELLED]"
| "assignment_transitions ASSIGNMENT_COMPLETED = []"
| "assignment_transitions ASSIGNMENT_CANCELLED = []"

definition validate_assignment_status_transition :: "assignment_status \<Rightarrow> assignment_status \<Rightarrow> kexn + unit" where
  "validate_assignment_status_transition a b =
     check (b \<in> set (assignment_transitions a)) InvalidAssignmentStateTransitionError"

interpretation assignment_policy: status_policy assignment_transitions validate_assignment_status_transition
  by unfold_locales (simp add: validate_assignment_status_transition_def)

record assignment =
  wa_id :: string
  wa_package_id :: string
  wa_work_item_id :: string
  wa_agent_id :: string
  wa_status :: assignment_status
  wa_created_at :: datetime
  wa_updated_at :: datetime
  wa_required_role :: "agent_role option"
  wa_required_capabilities :: "string list"
  wa_selection_reason :: string
  wa_agent_priority :: int
  wa_agent_active_count :: int

definition validate_assignment :: "assignment \<Rightarrow> kexn + unit" where
  "validate_assignment a = checks ([
     validate_required_string (wa_id a) ''WorkAssignment.id'',
     validate_required_string (wa_package_id a) ''WorkAssignment.package_id'',
     validate_required_string (wa_work_item_id a) ''WorkAssignment.work_item_id'',
     validate_required_string (wa_agent_id a) ''WorkAssignment.agent_id'']
   @ map (\<lambda>c. validate_required_string c ''WorkAssignment.required_capabilities'') (wa_required_capabilities a)
   @ [check (distinct (wa_required_capabilities a))
       (ValidationError ''WorkAssignment.required_capabilities must not contain duplicates''),
     validate_required_string (wa_selection_reason a) ''WorkAssignment.selection_reason'',
     check (0 \<le> wa_agent_active_count a) (ValidationError
       ''WorkAssignment.selected_agent_active_assignment_count must be a non-negative integer''),
     check (wa_created_at a \<le> wa_updated_at a)
       (ValidationError ''WorkAssignment.updated_at cannot precede created_at'')])"

subsection \<open>Executions\<close>

datatype execution_status = EXECUTION_CREATED | EXECUTION_RUNNING | SUCCEEDED | FAILED | EXECUTION_CANCELLED

fun execution_transitions :: "execution_status \<Rightarrow> execution_status list" where
  "execution_transitions EXECUTION_CREATED = [EXECUTION_RUNNING, EXECUTION_CANCELLED]"
| "execution_transitions EXECUTION_RUNNING = [SUCCEEDED, FAILED, EXECUTION_CANCELLED]"
| "execution_transitions SUCCEEDED = []"
| "execution_transitions FAILED = []"
| "execution_transitions EXECUTION_CANCELLED = []"

definition validate_execution_status_transition :: "execution_status \<Rightarrow> execution_status \<Rightarrow> kexn + unit" where
  "validate_execution_status_transition a b =
     check (b \<in> set (execution_transitions a)) InvalidExecutionStateTransitionError"

interpretation execution_policy: status_policy execution_transitions validate_execution_status_transition
  by unfold_locales (simp add: validate_execution_status_transition_def)

record execution =
  ex_id :: string
  ex_assignment_id :: string
  ex_work_item_id :: string
  ex_agent_id :: string
  ex_status :: execution_status
  ex_output :: "string option"
  ex_error :: "string option"
  ex_started_at :: "datetime option"
  ex_completed_at :: "datetime option"

definition status_contract :: "execution \<Rightarrow> kexn + unit" where
  "status_contract e =
     (case ex_status e of
        EXECUTION_CREATED \<Rightarrow> check (ex_started_at e = None \<and> ex_completed_at e = None)
          (ValidationError ''CREATED execution cannot have timestamps'')
      | EXECUTION_RUNNING \<Rightarrow> check (ex_started_at e \<noteq> None \<and> ex_completed_at e = None)
          (ValidationError ''RUNNING execution requires started_at only'')
      | SUCCEEDED \<Rightarrow> check (ex_started_at e \<noteq> None \<and> ex_completed_at e \<noteq> None \<and> ex_output e \<noteq> None
            \<and> ex_error e = None) (ValidationError ''SUCCEEDED execution requires timestamps and output only'')
      | FAILED \<Rightarrow> check (ex_started_at e \<noteq> None \<and> ex_completed_at e \<noteq> None \<and> ex_error e \<noteq> None)
          (ValidationError ''FAILED execution requires timestamps and error'')
      | EXECUTION_CANCELLED \<Rightarrow> check (ex_completed_at e \<noteq> None)
          (ValidationError ''CANCELLED execution requires completed_at''))"

definition validate_execution :: "execution \<Rightarrow> kexn + unit" where
  "validate_execution e = checks [
     validate_required_string (ex_id e) ''ExecutionResult.id'',
     validate_required_string (ex_assignment_id e) ''ExecutionResult.assignment_id'',
     validate_required_string (ex_work_item_id e) ''ExecutionResult.work_item_id'',
     validate_required_string (ex_agent_id e) ''ExecutionResult.agent_id'',
     validate_optional_string (ex_output e) ''ExecutionResult.output'',
     validate_optional_string (ex_error e) ''ExecutionResult.error'',
     check (case (ex_started_at e, ex_completed_at e) of (Some a, Some b) \<Rightarrow> a \<le> b | _ \<Rightarrow> True)
       (ValidationError ''ExecutionResult.completed_at cannot precede started_at''),
     status_contract e]"

text \<open>The context an execution is run in: the caller's mapping and the identifiers of the run.\<close>

record run_context =
  rc_caller :: "(string \<times> json) list"
  rc_execution_id :: string
  rc_assignment_id :: string
  rc_work_item_id :: string
  rc_agent_id :: string
  rc_started_at :: datetime

text \<open>
  An executor, code that is plugged in: its \<open>execute\<close> reads the clock and returns an execution
  result, returns another value (\<open>None\<close>), or raises. It does not change the objects of the kernel.
\<close>

record executor =
  x_id :: string
  x_roles :: "agent_role list"
  x_capabilities :: "string list"
  x_run :: "kenv \<Rightarrow> run_context \<Rightarrow> (nat, kexn, execution option) sx"

text \<open>The executor for tests and validation of \<^verbatim>\<open>executor.py\<close>.\<close>

definition validate_deterministic :: "string \<Rightarrow> agent_role list \<Rightarrow> string list \<Rightarrow> string \<Rightarrow> string \<Rightarrow> kexn + unit" where
  "validate_deterministic i roles caps out msg = checks ([
     validate_required_string i ''executor_id'',
     check (distinct roles) (ValidationError ''supported_roles must not contain duplicates'')]
   @ map (\<lambda>c. validate_required_string c ''supported_capabilities'') caps
   @ [check (distinct caps) (ValidationError ''supported_capabilities must not contain duplicates''),
     validate_required_string out ''deterministic_output'',
     validate_required_string msg ''failure_message''])"

definition deterministic_result :: "string \<Rightarrow> bool \<Rightarrow> string \<Rightarrow> run_context \<Rightarrow> datetime \<Rightarrow> execution" where
  "deterministic_result out should_fail msg rc t =
     \<lparr>ex_id = rc_execution_id rc, ex_assignment_id = rc_assignment_id rc,
      ex_work_item_id = rc_work_item_id rc, ex_agent_id = rc_agent_id rc,
      ex_status = (if should_fail then FAILED else SUCCEEDED),
      ex_output = (if should_fail then None else Some out),
      ex_error = (if should_fail then Some msg else None),
      ex_started_at = Some (rc_started_at rc), ex_completed_at = Some t\<rparr>"

definition deterministic_execute ::
    "string \<Rightarrow> bool \<Rightarrow> string \<Rightarrow> kenv \<Rightarrow> run_context \<Rightarrow> (nat, kexn, execution option) sx" where
  "deterministic_execute out should_fail msg K rc n =
     (case checks [validate_required_string (rc_execution_id rc) ''context.execution_id'',
        validate_required_string (rc_assignment_id rc) ''context.assignment_id'',
        validate_required_string (rc_work_item_id rc) ''context.work_item_id'',
        validate_required_string (rc_agent_id rc) ''context.agent_id''] of
        Inl e \<Rightarrow> (Inl e, n)
      | Inr _ \<Rightarrow>
          let r = deterministic_result out should_fail msg rc (kclock K n) in
          (case validate_execution r of Inl e \<Rightarrow> (Inl e, Suc n) | Inr _ \<Rightarrow> (Inr (Some r), Suc n)))"

definition deterministic_executor ::
    "string \<Rightarrow> agent_role list \<Rightarrow> string list \<Rightarrow> string \<Rightarrow> bool \<Rightarrow> string \<Rightarrow> kexn + executor" where
  "deterministic_executor i roles caps out should_fail msg =
     (case validate_deterministic i roles caps out msg of
        Inl e \<Rightarrow> Inl e
      | Inr _ \<Rightarrow> Inr \<lparr>x_id = i, x_roles = roles, x_capabilities = caps,
          x_run = deterministic_execute out should_fail msg\<rparr>)"

datatype recovery_action = RETRY | RESET_TO_ASSIGNED | CANCEL_ASSIGNMENT

record recovery_record =
  rr_id :: string
  rr_execution_id :: string
  rr_assignment_id :: string
  rr_action :: recovery_action
  rr_reason :: string
  rr_created_at :: datetime

definition validate_recovery_record :: "recovery_record \<Rightarrow> kexn + unit" where
  "validate_recovery_record r = checks [
     validate_required_string (rr_id r) ''ExecutionRecoveryRecord.id'',
     validate_required_string (rr_execution_id r) ''ExecutionRecoveryRecord.execution_id'',
     validate_required_string (rr_assignment_id r) ''ExecutionRecoveryRecord.assignment_id'',
     validate_required_string (rr_reason r) ''ExecutionRecoveryRecord.reason'']"

subsection \<open>Delivery workflows\<close>

datatype workflow_stage =
    INTAKE | PLANNING | STAGE_READY | STAGE_ASSIGNED | EXECUTING | STAGE_REVIEW | APPROVAL
  | STAGE_COMPLETED | STAGE_RELEASED | STAGE_FAILED | STAGE_CANCELLED

fun stage_transitions :: "workflow_stage \<Rightarrow> workflow_stage list" where
  "stage_transitions INTAKE = [PLANNING, STAGE_CANCELLED]"
| "stage_transitions PLANNING = [STAGE_READY, STAGE_CANCELLED]"
| "stage_transitions STAGE_READY = [STAGE_ASSIGNED, STAGE_CANCELLED]"
| "stage_transitions STAGE_ASSIGNED = [EXECUTING, STAGE_CANCELLED]"
| "stage_transitions EXECUTING = [STAGE_REVIEW, STAGE_FAILED, STAGE_CANCELLED]"
| "stage_transitions STAGE_REVIEW = [APPROVAL, EXECUTING]"
| "stage_transitions APPROVAL = [STAGE_COMPLETED]"
| "stage_transitions STAGE_COMPLETED = [STAGE_RELEASED]"
| "stage_transitions STAGE_RELEASED = []"
| "stage_transitions STAGE_FAILED = [STAGE_ASSIGNED, STAGE_REVIEW, STAGE_FAILED, STAGE_CANCELLED]"
| "stage_transitions STAGE_CANCELLED = []"

definition cancellable_stages :: "workflow_stage list" where
  "cancellable_stages = [INTAKE, STAGE_READY, STAGE_ASSIGNED, STAGE_FAILED]"

definition require_stage_transition :: "workflow_stage \<Rightarrow> workflow_stage \<Rightarrow> kexn + unit" where
  "require_stage_transition a b = check (b \<in> set (stage_transitions a)) InvalidWorkflowTransitionError"

definition require_stage :: "workflow_stage \<Rightarrow> workflow_stage \<Rightarrow> kexn + unit" where
  "require_stage a b = check (a = b) InvalidWorkflowTransitionError"

definition require_approval_stage :: "workflow_stage \<Rightarrow> kexn + unit" where
  "require_approval_stage a = check (a = STAGE_REVIEW) WorkflowApprovalError"

definition require_release_stage :: "workflow_stage \<Rightarrow> kexn + unit" where
  "require_release_stage a = check (a = STAGE_COMPLETED) WorkflowReleaseError"

definition require_cancellable :: "workflow_stage \<Rightarrow> kexn + unit" where
  "require_cancellable a = check (a \<in> set cancellable_stages) InvalidWorkflowTransitionError"

definition require_recoverable :: "workflow_stage \<Rightarrow> kexn + unit" where
  "require_recoverable a = check (a = STAGE_FAILED) InvalidWorkflowTransitionError"

interpretation stages: status_policy stage_transitions require_stage_transition
  by unfold_locales (simp add: require_stage_transition_def)

text \<open>\<open>_validated_strings\<close>.\<close>

definition validated_strings :: "string list \<Rightarrow> string \<Rightarrow> bool \<Rightarrow> kexn + unit" where
  "validated_strings vs name allow_empty = checks ([
     check (allow_empty \<or> vs \<noteq> []) (ValidationError (name @ '' must not be empty''))]
   @ map (\<lambda>v. validate_required_string v name) vs
   @ [check (distinct vs) (ValidationError (name @ '' must not contain duplicates''))])"

record delivery_request =
  rq_id :: string
  rq_title :: string
  rq_description :: string
  rq_requested_by :: string
  rq_required_role :: agent_role
  rq_required_capabilities :: "string list"
  rq_acceptance_criteria :: "string list"
  rq_priority :: string
  rq_correlation_id :: "string option"
  rq_created_at :: datetime

definition validate_request :: "delivery_request \<Rightarrow> kexn + unit" where
  "validate_request r = checks [
     validate_required_string (rq_id r) ''SoftwareDeliveryRequest.id'',
     validate_required_string (rq_title r) ''SoftwareDeliveryRequest.title'',
     validate_required_string (rq_description r) ''SoftwareDeliveryRequest.description'',
     validate_required_string (rq_requested_by r) ''SoftwareDeliveryRequest.requested_by'',
     validated_strings (rq_required_capabilities r) ''SoftwareDeliveryRequest.required_capabilities'' True,
     validated_strings (rq_acceptance_criteria r) ''SoftwareDeliveryRequest.acceptance_criteria'' False,
     validate_required_string (rq_priority r) ''SoftwareDeliveryRequest.priority'',
     validate_optional_string (rq_correlation_id r) ''SoftwareDeliveryRequest.correlation_id'']"

record workflow =
  wf_id :: string
  wf_request_id :: string
  wf_package_id :: string
  wf_item_id :: string
  wf_assignment_id :: "string option"
  wf_execution_ids :: "string list"
  wf_stage :: workflow_stage
  wf_created_at :: datetime
  wf_updated_at :: datetime
  wf_failure_reason :: "string option"
  wf_rejection_reason :: "string option"
  wf_approved_at :: "datetime option"

definition validate_workflow :: "workflow \<Rightarrow> kexn + unit" where
  "validate_workflow w = checks [
     validate_required_string (wf_id w) ''SoftwareDeliveryWorkflow.id'',
     validate_required_string (wf_request_id w) ''SoftwareDeliveryWorkflow.request_id'',
     validate_required_string (wf_package_id w) ''SoftwareDeliveryWorkflow.work_package_id'',
     validate_required_string (wf_item_id w) ''SoftwareDeliveryWorkflow.work_item_id'',
     validate_optional_string (wf_assignment_id w) ''SoftwareDeliveryWorkflow.assignment_id'',
     validated_strings (wf_execution_ids w) ''SoftwareDeliveryWorkflow.execution_ids'' True,
     validate_optional_string (wf_failure_reason w) ''SoftwareDeliveryWorkflow.failure_reason'',
     validate_optional_string (wf_rejection_reason w) ''SoftwareDeliveryWorkflow.rejection_reason'']"

end
