(* ===== verification/Kernel.thy ===== *)
theory Kernel
  imports Kernel_Models
begin

section \<open>The runtime kernel: state, transactions, engine, agent registry, orchestrator\<close>

text \<open>
  The objects one runtime container shares, and the operations of \<^verbatim>\<open>engine/runtime_engine.py\<close>,
  \<^verbatim>\<open>models/work_package.py\<close>, \<^verbatim>\<open>agents/registry.py\<close> and \<^verbatim>\<open>orchestration/orchestrator.py\<close>.

  The services hold references into one object graph; here the graph is one record, a dictionary
  per registry, and an object is read and written through its key. \<open>atomic\<close> is the decorator
  \<open>atomic_domain_operation\<close> over the publisher's \<open>atomic\<close>: outermost, it restores the captured
  objects and drops the staged events when the body raises, except for a recorded failed execution,
  and otherwise adds the staged events to the store; inside a transaction it joins.
\<close>

record kernel =
  k_packages :: "(string, work_package) dict"
  k_agents :: "(string, agent) dict"
  k_assignments :: "(string, assignment) dict"
  k_executors :: "(string, executor) dict"
  k_executions :: "(string, execution) dict"
  k_recoveries :: "(string, recovery_record) dict"
  k_workflows :: "(string, workflow) dict"
  k_requests :: "(string, delivery_request) dict"
  k_eventing :: bool
  k_bus :: bus

type_synonym 'a kop = "(kernel, kexn, 'a) sx"

definition empty_kernel :: "bool \<Rightarrow> kernel" where
  "empty_kernel eventing = \<lparr>k_packages = [], k_agents = [], k_assignments = [], k_executors = [],
     k_executions = [], k_recoveries = [], k_workflows = [], k_requests = [], k_eventing = eventing,
     k_bus = empty_bus\<rparr>"

definition on_bus :: "'a bop \<Rightarrow> 'a kop" where
  "on_bus = zoom k_bus (\<lambda>b s. s\<lparr>k_bus := b\<rparr>)"

definition utc_now :: "kenv \<Rightarrow> datetime kop" where
  "utc_now K = on_bus (tick K)"

text \<open>\<open>_publish\<close> of every service: nothing without a publisher.\<close>

definition kpublish ::
    "kenv \<Rightarrow> string \<Rightarrow> string \<Rightarrow> string \<Rightarrow> json \<Rightarrow> string option \<Rightarrow> string option \<Rightarrow> unit kop" where
  "kpublish K et ty aid pl corr caus s =
     (if k_eventing s then bnd (on_bus (publish K et ty aid pl corr caus None)) (\<lambda>_. ok ()) s else (Inr (), s))"

subsection \<open>Transactions\<close>

text \<open>A recorded failed execution is a committed outcome.\<close>

definition committed_failure :: "kexn \<Rightarrow> bool" where
  "committed_failure e = (case e of ExecutionFailedError m \<Rightarrow> True | WorkflowExecutionError m \<Rightarrow> True | _ \<Rightarrow> False)"

definition rolled_back :: "kernel \<Rightarrow> kernel \<Rightarrow> kernel" where
  "rolled_back s t = s\<lparr>k_bus := (k_bus s)\<lparr>b_ticks := b_ticks (k_bus t)\<rparr>\<rparr>"

definition commit_events :: "kexn + 'a \<Rightarrow> kernel \<Rightarrow> kernel \<Rightarrow> (kexn + 'a) \<times> kernel" where
  "commit_events r s t =
     (case add_events (staged (k_bus t)) (b_store (k_bus t)) of
        Inl e \<Rightarrow> (Inl TransactionCommitError, rolled_back s t)
      | Inr st \<Rightarrow> (r, t\<lparr>k_bus := (k_bus t)\<lparr>b_store := st, b_tx := None\<rparr>\<rparr>))"

definition atomic :: "'a kop \<Rightarrow> 'a kop" where
  "atomic m s =
     (if \<not> k_eventing s \<or> b_tx (k_bus s) \<noteq> None then m s
      else case m (s\<lparr>k_bus := (k_bus s)\<lparr>b_tx := Some []\<rparr>\<rparr>) of (r, t) \<Rightarrow>
        (case r of
           Inr x \<Rightarrow> commit_events r s t
         | Inl e \<Rightarrow> if committed_failure e then commit_events r s t else (r, rolled_back s t)))"

subsection \<open>Work packages and the engine\<close>

definition get_work_package :: "string \<Rightarrow> work_package kop" where
  "get_work_package pid =
     bnd (gets (\<lambda>s. map_of (k_packages s) pid)) (\<lambda>p.
     case p of None \<Rightarrow> fail WorkPackageNotFoundError | Some p \<Rightarrow> ok p)"

definition get_work_item :: "string \<Rightarrow> string \<Rightarrow> work_item kop" where
  "get_work_item pid wid =
     bnd (get_work_package pid) (\<lambda>p.
     case find_item wid (wp_items p) of None \<Rightarrow> fail WorkItemNotFoundError | Some w \<Rightarrow> ok w)"

definition put_package :: "string \<Rightarrow> (work_package \<Rightarrow> work_package) \<Rightarrow> unit kop" where
  "put_package pid f = upd (\<lambda>s. s\<lparr>k_packages :=
     (case map_of (k_packages s) pid of None \<Rightarrow> k_packages s | Some p \<Rightarrow> dset pid (f p) (k_packages s))\<rparr>)"

definition put_item :: "string \<Rightarrow> string \<Rightarrow> (work_item \<Rightarrow> work_item) \<Rightarrow> unit kop" where
  "put_item pid wid f = put_package pid (\<lambda>p. p\<lparr>wp_items := update_item wid f (wp_items p)\<rparr>)"

definition mark_updated :: "kenv \<Rightarrow> string \<Rightarrow> unit kop" where
  "mark_updated K pid = bnd (utc_now K) (\<lambda>t. put_package pid (\<lambda>p. p\<lparr>wp_updated_at := t\<rparr>))"

definition list_work_packages :: "kernel \<Rightarrow> work_package list" where
  "list_work_packages s = dvals (k_packages s)"

definition create_work_package :: "kenv \<Rightarrow> string \<Rightarrow> string \<Rightarrow> string \<Rightarrow> string \<Rightarrow> work_package kop" where
  "create_work_package K i title descr owner = atomic (
     bnd (gets (\<lambda>s. i \<in> set (dkeys (k_packages s)))) (\<lambda>dup.
     bnd (require (\<not> dup) DuplicateWorkPackageError) (\<lambda>_.
     bnd (utc_now K) (\<lambda>t1. bnd (utc_now K) (\<lambda>t2.
     let p = \<lparr>wp_id = i, wp_title = title, wp_description = descr, wp_owner = owner, wp_state = CREATED,
              wp_items = [], wp_artifacts = [], wp_created_at = t1, wp_updated_at = t2\<rparr> in
     bnd (of_sum (validate_work_package p)) (\<lambda>_.
     bnd (upd (\<lambda>s. s\<lparr>k_packages := dset i p (k_packages s)\<rparr>)) (\<lambda>_.
     bnd (kpublish K ''WORK_PACKAGE_CREATED'' ''WORK_PACKAGE'' i
       (JObj [(''title'', JStr title), (''owner'', JStr owner)]) None None) (\<lambda>_. ok p))))))))"

text \<open>\<open>WorkPackage.add_work_item\<close>.\<close>

definition package_add_item :: "kenv \<Rightarrow> string \<Rightarrow> work_item \<Rightarrow> unit kop" where
  "package_add_item K pid w =
     bnd (get_work_package pid) (\<lambda>p.
     bnd (require (wi_id w \<notin> set (map wi_id (wp_items p))) DuplicateWorkItemError) (\<lambda>_.
     bnd (put_package pid (\<lambda>p. p\<lparr>wp_items := wp_items p @ [w]\<rparr>)) (\<lambda>_. mark_updated K pid)))"

text \<open>\<open>WorkPackage.add_artifact\<close>.\<close>

definition package_add_artifact :: "kenv \<Rightarrow> string \<Rightarrow> string \<Rightarrow> unit kop" where
  "package_add_artifact K pid a =
     bnd (get_work_package pid) (\<lambda>p.
     bnd (of_sum (validate_required_string a ''WorkPackage.artifact_id'')) (\<lambda>_.
     bnd (require (a \<notin> set (wp_artifacts p)) DuplicateArtifactError) (\<lambda>_.
     bnd (put_package pid (\<lambda>p. p\<lparr>wp_artifacts := wp_artifacts p @ [a]\<rparr>)) (\<lambda>_. mark_updated K pid))))"

definition add_work_item ::
    "kenv \<Rightarrow> string \<Rightarrow> string \<Rightarrow> string \<Rightarrow> string \<Rightarrow> string \<Rightarrow> string option \<Rightarrow> work_item kop" where
  "add_work_item K pid i title descr priority assigned = atomic (
     bnd (get_work_package pid) (\<lambda>_.
     let w = \<lparr>wi_id = i, wi_title = title, wi_description = descr, wi_priority = priority,
              wi_dependencies = [], wi_assigned_to = assigned, wi_state = CREATED\<rparr> in
     bnd (of_sum (validate_work_item w)) (\<lambda>_.
     bnd (package_add_item K pid w) (\<lambda>_.
     bnd (kpublish K ''WORK_ITEM_CREATED'' ''WORK_ITEM'' (pid @ '':'' @ i)
       (JObj [(''package_id'', JStr pid), (''work_item_id'', JStr i)]) None None) (\<lambda>_. ok w)))))"

fun state_name :: "lifecycle_state \<Rightarrow> string" where
  "state_name CREATED = ''CREATED''"
| "state_name READY = ''READY''"
| "state_name ASSIGNED = ''ASSIGNED''"
| "state_name RUNNING = ''RUNNING''"
| "state_name REVIEW = ''REVIEW''"
| "state_name APPROVED = ''APPROVED''"
| "state_name REJECTED = ''REJECTED''"
| "state_name COMPLETED = ''COMPLETED''"
| "state_name RELEASED = ''RELEASED''"

definition change_work_item_state :: "kenv \<Rightarrow> string \<Rightarrow> string \<Rightarrow> lifecycle_state \<Rightarrow> unit kop" where
  "change_work_item_state K pid wid b = atomic (
     bnd (get_work_item pid wid) (\<lambda>w.
     bnd (of_sum (change_state b w)) (\<lambda>w'.
     bnd (put_item pid wid (\<lambda>_. w')) (\<lambda>_.
     bnd (mark_updated K pid) (\<lambda>_.
     kpublish K ''WORK_ITEM_STATE_CHANGED'' ''WORK_ITEM'' (pid @ '':'' @ wid)
       (JObj [(''package_id'', JStr pid), (''work_item_id'', JStr wid),
         (''previous_state'', JStr (state_name (wi_state w))), (''new_state'', JStr (state_name b))]) None None)))))"

definition recover_work_item_state :: "kenv \<Rightarrow> string \<Rightarrow> string \<Rightarrow> lifecycle_state \<Rightarrow> string \<Rightarrow> unit kop" where
  "recover_work_item_state K pid wid b reason = atomic (
     bnd (get_work_item pid wid) (\<lambda>w.
     bnd (of_sum (recover_state b reason w)) (\<lambda>w'.
     bnd (put_item pid wid (\<lambda>_. w')) (\<lambda>_.
     bnd (mark_updated K pid) (\<lambda>_.
     kpublish K ''WORK_ITEM_STATE_CHANGED'' ''WORK_ITEM'' (pid @ '':'' @ wid)
       (JObj [(''package_id'', JStr pid), (''work_item_id'', JStr wid),
         (''previous_state'', JStr (state_name (wi_state w))), (''new_state'', JStr (state_name b)),
         (''recovery'', JBool True), (''reason'', JStr reason)]) None None)))))"

subsection \<open>The agent registry\<close>

fun role_name :: "agent_role \<Rightarrow> string" where
  "role_name CEO = ''CEO''"
| "role_name PROJECT_MANAGER = ''PROJECT_MANAGER''"
| "role_name SOFTWARE_ARCHITECT = ''SOFTWARE_ARCHITECT''"
| "role_name BACKEND_ENGINEER = ''BACKEND_ENGINEER''"
| "role_name FRONTEND_ENGINEER = ''FRONTEND_ENGINEER''"
| "role_name QA_ENGINEER = ''QA_ENGINEER''"
| "role_name DEVOPS_ENGINEER = ''DEVOPS_ENGINEER''"
| "role_name SECURITY_ENGINEER = ''SECURITY_ENGINEER''"
| "role_name DATA_ENGINEER = ''DATA_ENGINEER''"
| "role_name AI_ENGINEER = ''AI_ENGINEER''"
| "role_name DOCUMENTATION_ENGINEER = ''DOCUMENTATION_ENGINEER''"

fun agent_state_name :: "agent_state \<Rightarrow> string" where
  "agent_state_name REGISTERED = ''REGISTERED''"
| "agent_state_name AVAILABLE = ''AVAILABLE''"
| "agent_state_name BUSY = ''BUSY''"
| "agent_state_name OFFLINE = ''OFFLINE''"
| "agent_state_name DISABLED = ''DISABLED''"

definition register_agent :: "kenv \<Rightarrow> agent \<Rightarrow> agent kop" where
  "register_agent K a = atomic (
     bnd (gets (\<lambda>s. ag_id a \<in> set (dkeys (k_agents s)))) (\<lambda>dup.
     bnd (require (\<not> dup) DuplicateAgentError) (\<lambda>_.
     bnd (upd (\<lambda>s. s\<lparr>k_agents := dset (ag_id a) a (k_agents s)\<rparr>)) (\<lambda>_.
     bnd (kpublish K ''AGENT_REGISTERED'' ''AGENT'' (ag_id a)
       (JObj [(''role'', JStr (role_name (ag_role a))), (''state'', JStr (agent_state_name (ag_state a)))])
       None None) (\<lambda>_. ok a)))))"

definition get_agent :: "string \<Rightarrow> agent kop" where
  "get_agent i =
     bnd (of_sum (validate_required_string i ''agent_id'')) (\<lambda>_.
     bnd (gets (\<lambda>s. map_of (k_agents s) i)) (\<lambda>a.
     case a of None \<Rightarrow> fail AgentNotFoundError | Some a \<Rightarrow> ok a))"

definition remove_agent :: "string \<Rightarrow> agent kop" where
  "remove_agent i =
     bnd (get_agent i) (\<lambda>a.
     bnd (upd (\<lambda>s. s\<lparr>k_agents := ddel i (k_agents s)\<rparr>)) (\<lambda>_. ok a))"

definition list_agents :: "kernel \<Rightarrow> agent list" where
  "list_agents s = dvals (k_agents s)"

definition find_agents_by_role :: "agent_role \<Rightarrow> kernel \<Rightarrow> agent list" where
  "find_agents_by_role r s = filter (\<lambda>a. ag_role a = r) (list_agents s)"

definition find_agents_by_capability :: "string \<Rightarrow> (agent list) kop" where
  "find_agents_by_capability c =
     bnd (of_sum (validate_required_string c ''capability_id'')) (\<lambda>_.
     gets (\<lambda>s. filter (\<lambda>a. supports_capability c a = Inr True) (list_agents s)))"

definition put_agent :: "string \<Rightarrow> agent \<Rightarrow> unit kop" where
  "put_agent i a = upd (\<lambda>s. s\<lparr>k_agents := dset i a (k_agents s)\<rparr>)"

definition update_agent_state :: "kenv \<Rightarrow> string \<Rightarrow> agent_state \<Rightarrow> agent kop" where
  "update_agent_state K i b = atomic (
     bnd (get_agent i) (\<lambda>a.
     bnd (of_sum (change_agent_state b a)) (\<lambda>a'.
     bnd (put_agent i a') (\<lambda>_.
     bnd (kpublish K ''AGENT_STATE_CHANGED'' ''AGENT'' i
       (JObj [(''previous_state'', JStr (agent_state_name (ag_state a))),
         (''new_state'', JStr (agent_state_name b))]) None None) (\<lambda>_. ok a')))))"

subsection \<open>The orchestrator\<close>

definition count_active_assignments :: "string \<Rightarrow> kernel \<Rightarrow> int" where
  "count_active_assignments aid s =
     int (length (filter (\<lambda>a. wa_agent_id a = aid \<and> wa_status a = ACTIVE) (dvals (k_assignments s))))"

definition validate_required_capabilities :: "string list \<Rightarrow> kexn + unit" where
  "validate_required_capabilities cs = checks (
     map (\<lambda>c. validate_required_string c ''required_capabilities'') cs
   @ [check (distinct cs) (ValidationError ''required_capabilities must not contain duplicates'')])"

record selection =
  sl_agent :: agent
  sl_score :: int
  sl_matched :: "string list"
  sl_reason :: string

definition matches :: "agent_role option \<Rightarrow> string list \<Rightarrow> agent \<Rightarrow> bool" where
  "matches role caps a \<longleftrightarrow> (role = None \<or> role = Some (ag_role a))
     \<and> list_all (\<lambda>c. supports_capability c a = Inr True) caps"

definition at_capacity :: "kernel \<Rightarrow> agent \<Rightarrow> bool" where
  "at_capacity s a \<longleftrightarrow> ag_max_parallel_tasks a \<le> count_active_assignments (ag_id a) s"

definition ranked ::
    "agent_role option \<Rightarrow> string list \<Rightarrow> kernel \<Rightarrow> ((int \<times> int \<times> int \<times> nat) \<times> agent) list" where
  "ranked role caps s =
     map (\<lambda>(i, a). ((- int (length caps), - ag_priority a, count_active_assignments (ag_id a) s, i), a))
       (filter (\<lambda>(i, a). matches role caps a \<and> \<not> at_capacity s a \<and> ag_state a = AVAILABLE)
         (enumerate 0 (list_agents s)))"

definition select_agent :: "agent_role option \<Rightarrow> string list \<Rightarrow> selection kop" where
  "select_agent role caps =
     bnd (of_sum (validate_required_capabilities caps)) (\<lambda>_.
     bnd (gets (ranked role caps)) (\<lambda>rs.
     bnd (gets (\<lambda>s. list_ex (\<lambda>a. matches role caps a \<and> at_capacity s a) (list_agents s))) (\<lambda>blocked.
     bnd (require (rs \<noteq> []) (if blocked then AgentCapacityError else NoEligibleAgentError)) (\<lambda>_.
     case arg_min_list fst rs of ((_, _, n, _), a) \<Rightarrow>
     ok \<lparr>sl_agent = a, sl_score = int (length caps), sl_matched = caps,
         sl_reason = ''Matched '' @ nat_str (length caps) @ '' required capabilities; priority ''
           @ int_str (ag_priority a) @ ''; '' @ int_str n @ '' active assignments''\<rparr>))))"

text \<open>\<open>WorkAssignment.change_status\<close>.\<close>

definition change_status :: "kenv \<Rightarrow> assignment_status \<Rightarrow> assignment \<Rightarrow> assignment kop" where
  "change_status K b a =
     bnd (of_sum (validate_assignment_status_transition (wa_status a) b)) (\<lambda>_.
     bnd (utc_now K) (\<lambda>t. ok (a\<lparr>wa_status := b, wa_updated_at := t\<rparr>)))"

definition put_assignment :: "string \<Rightarrow> assignment \<Rightarrow> unit kop" where
  "put_assignment i a = upd (\<lambda>s. s\<lparr>k_assignments := dset i a (k_assignments s)\<rparr>)"

definition get_assignment :: "string \<Rightarrow> assignment kop" where
  "get_assignment i =
     bnd (of_sum (validate_required_string i ''assignment_id'')) (\<lambda>_.
     bnd (gets (\<lambda>s. map_of (k_assignments s) i)) (\<lambda>a.
     case a of None \<Rightarrow> fail AssignmentNotFoundError | Some a \<Rightarrow> ok a))"

definition publish_assignment :: "kenv \<Rightarrow> string \<Rightarrow> assignment \<Rightarrow> json \<Rightarrow> unit kop" where
  "publish_assignment K et a pl = kpublish K et ''ASSIGNMENT'' (wa_id a) pl None None"

text \<open>The compensation of the handlers: attributes captured before are written back.\<close>

definition restore_item :: "string \<Rightarrow> string \<Rightarrow> work_item \<Rightarrow> work_package \<Rightarrow> unit kop" where
  "restore_item pid wid w p =
     bnd (put_item pid wid (\<lambda>v. v\<lparr>wi_state := wi_state w, wi_assigned_to := wi_assigned_to w\<rparr>)) (\<lambda>_.
     put_package pid (\<lambda>v. v\<lparr>wp_updated_at := wp_updated_at p\<rparr>))"

definition restore_agent :: "agent \<Rightarrow> unit kop" where
  "restore_agent a = upd (\<lambda>s. s\<lparr>k_agents :=
     (case map_of (k_agents s) (ag_id a) of None \<Rightarrow> k_agents s
      | Some b \<Rightarrow> dset (ag_id a) (b\<lparr>ag_state := ag_state a\<rparr>) (k_agents s))\<rparr>)"

definition assign_work_item ::
    "kenv \<Rightarrow> string \<Rightarrow> string \<Rightarrow> string \<Rightarrow> agent_role option \<Rightarrow> string list \<Rightarrow> assignment kop" where
  "assign_work_item K i pid wid role caps = atomic (
     bnd (of_sum (checks [validate_required_string i ''assignment_id'',
       validate_required_string pid ''package_id'', validate_required_string wid ''work_item_id''])) (\<lambda>_.
     bnd (gets (\<lambda>s. i \<in> set (dkeys (k_assignments s)))) (\<lambda>dup.
     bnd (require (\<not> dup) (ValidationError ''Assignment already exists'')) (\<lambda>_.
     bnd (get_work_item pid wid) (\<lambda>w.
     bnd (gets (\<lambda>s. list_ex (\<lambda>a. wa_package_id a = pid \<and> wa_work_item_id a = wid \<and> wa_status a = ACTIVE)
       (dvals (k_assignments s)))) (\<lambda>active.
     bnd (require (\<not> active) DuplicateActiveAssignmentError) (\<lambda>_.
     bnd (require (wi_state w = READY) InvalidAssignmentStateTransitionError) (\<lambda>_.
     bnd (select_agent role caps) (\<lambda>sl.
     bnd (gets (count_active_assignments (ag_id (sl_agent sl)))) (\<lambda>n.
     bnd (utc_now K) (\<lambda>t1. bnd (utc_now K) (\<lambda>t2.
     let ag = sl_agent sl;
         a0 = \<lparr>wa_id = i, wa_package_id = pid, wa_work_item_id = wid, wa_agent_id = ag_id ag,
               wa_status = ASSIGNMENT_CREATED, wa_created_at = t1, wa_updated_at = t2,
               wa_required_role = role, wa_required_capabilities = caps, wa_selection_reason = sl_reason sl,
               wa_agent_priority = ag_priority ag, wa_agent_active_count = n\<rparr> in
     bnd (of_sum (validate_assignment a0)) (\<lambda>_.
     bnd (change_status K ACTIVE a0) (\<lambda>a.
     bnd (get_work_package pid) (\<lambda>p.
     bnd (catch
       (bnd (change_work_item_state K pid wid ASSIGNED) (\<lambda>_.
        bnd (put_item pid wid (\<lambda>v. v\<lparr>wi_assigned_to := Some (ag_id ag)\<rparr>)) (\<lambda>_.
        bnd (if n + 1 = ag_max_parallel_tasks ag
             then bnd (update_agent_state K (ag_id ag) BUSY) (\<lambda>_. ok ()) else ok ()) (\<lambda>_.
        put_assignment i a))))
       (\<lambda>e. bnd (restore_item pid wid w p) (\<lambda>_. bnd (restore_agent ag) (\<lambda>_.
            bnd (upd (\<lambda>s. s\<lparr>k_assignments := ddel i (k_assignments s)\<rparr>)) (\<lambda>_. fail e))))) (\<lambda>_.
     bnd (publish_assignment K ''ASSIGNMENT_CREATED'' a
       (JObj [(''package_id'', JStr pid), (''work_item_id'', JStr wid), (''agent_id'', JStr (ag_id ag))])) (\<lambda>_.
     ok a)))))))))))))))))"

definition require_active :: "assignment \<Rightarrow> kexn + unit" where
  "require_active a = check (wa_status a = ACTIVE) InvalidAssignmentStateTransitionError"

definition release_agent_capacity :: "kenv \<Rightarrow> string \<Rightarrow> unit kop" where
  "release_agent_capacity K aid =
     bnd (get_agent aid) (\<lambda>a.
     bnd (gets (\<lambda>s. ag_state a = BUSY \<and> count_active_assignments aid s < ag_max_parallel_tasks a)) (\<lambda>free.
     if free then bnd (update_agent_state K aid AVAILABLE) (\<lambda>_. ok ()) else ok ()))"

text \<open>The common part of completing and cancelling: the work item moves, the assignment closes.\<close>

definition restore_closing :: "string \<Rightarrow> assignment \<Rightarrow> work_item \<Rightarrow> work_package \<Rightarrow> agent \<Rightarrow> kexn \<Rightarrow> 'a kop" where
  "restore_closing i a w p ag e =
     bnd (restore_item (wa_package_id a) (wa_work_item_id a) w p) (\<lambda>_.
     bnd (restore_agent ag) (\<lambda>_.
     bnd (upd (\<lambda>s. s\<lparr>k_assignments :=
       (case map_of (k_assignments s) i of None \<Rightarrow> k_assignments s
        | Some b \<Rightarrow> dset i (b\<lparr>wa_status := wa_status a, wa_updated_at := wa_updated_at a\<rparr>) (k_assignments s))\<rparr>)) (\<lambda>_.
     fail e)))"

definition complete_assignment :: "kenv \<Rightarrow> string \<Rightarrow> assignment kop" where
  "complete_assignment K i = atomic (
     bnd (get_assignment i) (\<lambda>a.
     bnd (of_sum (require_active a)) (\<lambda>_.
     bnd (get_work_item (wa_package_id a) (wa_work_item_id a)) (\<lambda>w.
     bnd (require (wi_state w = APPROVED) InvalidAssignmentStateTransitionError) (\<lambda>_.
     bnd (get_work_package (wa_package_id a)) (\<lambda>p.
     bnd (get_agent (wa_agent_id a)) (\<lambda>ag.
     bnd (catch
       (bnd (change_work_item_state K (wa_package_id a) (wa_work_item_id a) COMPLETED) (\<lambda>_.
        bnd (change_status K ASSIGNMENT_COMPLETED a) (\<lambda>a'.
        bnd (put_assignment i a') (\<lambda>_.
        bnd (release_agent_capacity K (wa_agent_id a)) (\<lambda>_. ok a')))))
       (restore_closing i a w p ag)) (\<lambda>a'.
     bnd (publish_assignment K ''ASSIGNMENT_COMPLETED'' a'
       (JObj [(''work_item_id'', JStr (wa_work_item_id a))])) (\<lambda>_. ok a')))))))))"

definition cancel_assignment :: "kenv \<Rightarrow> string \<Rightarrow> assignment kop" where
  "cancel_assignment K i = atomic (
     bnd (get_assignment i) (\<lambda>a.
     bnd (of_sum (require_active a)) (\<lambda>_.
     bnd (get_work_item (wa_package_id a) (wa_work_item_id a)) (\<lambda>w.
     bnd (require (wi_state w = ASSIGNED) InvalidAssignmentStateTransitionError) (\<lambda>_.
     bnd (get_work_package (wa_package_id a)) (\<lambda>p.
     bnd (get_agent (wa_agent_id a)) (\<lambda>ag.
     bnd (catch
       (bnd (change_work_item_state K (wa_package_id a) (wa_work_item_id a) READY) (\<lambda>_.
        bnd (put_item (wa_package_id a) (wa_work_item_id a) (\<lambda>v. v\<lparr>wi_assigned_to := None\<rparr>)) (\<lambda>_.
        bnd (change_status K ASSIGNMENT_CANCELLED a) (\<lambda>a'.
        bnd (put_assignment i a') (\<lambda>_.
        bnd (release_agent_capacity K (wa_agent_id a)) (\<lambda>_. ok a'))))))
       (restore_closing i a w p ag)) (\<lambda>a'.
     bnd (publish_assignment K ''ASSIGNMENT_CANCELLED'' a'
       (JObj [(''work_item_id'', JStr (wa_work_item_id a))])) (\<lambda>_. ok a')))))))))"

definition list_assignments :: "kernel \<Rightarrow> assignment list" where
  "list_assignments s = dvals (k_assignments s)"

definition list_assignments_for_agent :: "string \<Rightarrow> (assignment list) kop" where
  "list_assignments_for_agent aid =
     bnd (get_agent aid) (\<lambda>_. gets (\<lambda>s. filter (\<lambda>a. wa_agent_id a = aid) (list_assignments s)))"

definition list_assignments_for_work_item :: "string \<Rightarrow> string \<Rightarrow> (assignment list) kop" where
  "list_assignments_for_work_item pid wid =
     bnd (of_sum (checks [validate_required_string pid ''package_id'', validate_required_string wid ''work_item_id''])) (\<lambda>_.
     bnd (get_work_item pid wid) (\<lambda>_.
     gets (\<lambda>s. filter (\<lambda>a. wa_package_id a = pid \<and> wa_work_item_id a = wid) (list_assignments s))))"

definition get_active_assignment_count :: "string \<Rightarrow> int kop" where
  "get_active_assignment_count aid = bnd (get_agent aid) (\<lambda>_. gets (count_active_assignments aid))"

end
