(* ===== verification/Execution.thy ===== *)
theory Execution
  imports Kernel
begin

section \<open>Executions and their recovery\<close>

text \<open>
  \<^verbatim>\<open>execution/registry.py\<close>, \<^verbatim>\<open>execution/service.py\<close> and \<^verbatim>\<open>execution/recovery.py\<close>: choosing an
  executor, running an assignment under it, recording the terminal result, and the three recovery
  actions on a failed execution. An executor is plugged-in code: what it returns or raises is
  given by its \<open>x_run\<close>.
\<close>

subsection \<open>The executor registry\<close>

definition register_executor :: "executor \<Rightarrow> executor kop" where
  "register_executor x =
     bnd (of_sum (validate_required_string (x_id x) ''executor_id'')) (\<lambda>_.
     bnd (gets (\<lambda>s. x_id x \<in> set (dkeys (k_executors s)))) (\<lambda>dup.
     bnd (require (\<not> dup) DuplicateExecutorError) (\<lambda>_.
     bnd (upd (\<lambda>s. s\<lparr>k_executors := dset (x_id x) x (k_executors s)\<rparr>)) (\<lambda>_. ok x))))"

definition get_executor :: "string \<Rightarrow> executor kop" where
  "get_executor i =
     bnd (of_sum (validate_required_string i ''executor_id'')) (\<lambda>_.
     bnd (gets (\<lambda>s. map_of (k_executors s) i)) (\<lambda>x.
     case x of None \<Rightarrow> fail ExecutorNotFoundError | Some x \<Rightarrow> ok x))"

definition remove_executor :: "string \<Rightarrow> executor kop" where
  "remove_executor i =
     bnd (get_executor i) (\<lambda>x.
     bnd (upd (\<lambda>s. s\<lparr>k_executors := ddel i (k_executors s)\<rparr>)) (\<lambda>_. ok x))"

definition compatible :: "assignment \<Rightarrow> executor \<Rightarrow> bool" where
  "compatible a x \<longleftrightarrow> (case wa_required_role a of None \<Rightarrow> True | Some r \<Rightarrow> r \<in> set (x_roles x))
     \<and> list_all (\<lambda>c. c \<in> set (x_capabilities x)) (wa_required_capabilities a)"

definition select_executor :: "assignment \<Rightarrow> executor kop" where
  "select_executor a =
     bnd (gets (\<lambda>s. List.find (compatible a) (dvals (k_executors s)))) (\<lambda>x.
     case x of None \<Rightarrow> fail ExecutorNotFoundError | Some x \<Rightarrow> ok x)"

subsection \<open>Marking an execution\<close>

definition mark_running :: "kenv \<Rightarrow> execution \<Rightarrow> execution kop" where
  "mark_running K e =
     bnd (of_sum (validate_execution_status_transition (ex_status e) EXECUTION_RUNNING)) (\<lambda>_.
     bnd (utc_now K) (\<lambda>t. ok (e\<lparr>ex_status := EXECUTION_RUNNING, ex_started_at := Some t\<rparr>)))"

definition mark_succeeded :: "kenv \<Rightarrow> string \<Rightarrow> execution \<Rightarrow> execution kop" where
  "mark_succeeded K output e =
     bnd (of_sum (checks [validate_required_string output ''ExecutionResult.output'',
       validate_execution_status_transition (ex_status e) SUCCEEDED])) (\<lambda>_.
     bnd (utc_now K) (\<lambda>t. ok (e\<lparr>ex_status := SUCCEEDED, ex_output := Some output, ex_error := None,
       ex_completed_at := Some t\<rparr>)))"

definition mark_failed :: "kenv \<Rightarrow> string \<Rightarrow> execution \<Rightarrow> execution kop" where
  "mark_failed K err e =
     bnd (of_sum (checks [validate_required_string err ''ExecutionResult.error'',
       validate_execution_status_transition (ex_status e) FAILED])) (\<lambda>_.
     bnd (utc_now K) (\<lambda>t. ok (e\<lparr>ex_status := FAILED, ex_error := Some err, ex_completed_at := Some t\<rparr>)))"

definition mark_cancelled :: "kenv \<Rightarrow> execution \<Rightarrow> execution kop" where
  "mark_cancelled K e =
     bnd (of_sum (validate_execution_status_transition (ex_status e) EXECUTION_CANCELLED)) (\<lambda>_.
     bnd (utc_now K) (\<lambda>t. ok (e\<lparr>ex_status := EXECUTION_CANCELLED, ex_completed_at := Some t\<rparr>)))"

definition put_execution :: "execution \<Rightarrow> unit kop" where
  "put_execution e = upd (\<lambda>s. s\<lparr>k_executions := dset (ex_id e) e (k_executions s)\<rparr>)"

subsection \<open>The execution service\<close>

type_synonym exec_context = "(string \<times> json) list"

definition context_text :: "exec_context option \<Rightarrow> string \<Rightarrow> string option" where
  "context_text c k =
     (case c of None \<Rightarrow> None
      | Some d \<Rightarrow> (case map_of d k of Some (JStr x) \<Rightarrow> Some x | _ \<Rightarrow> None))"

definition publish_execution :: "kenv \<Rightarrow> string \<Rightarrow> execution \<Rightarrow> json \<Rightarrow> exec_context option \<Rightarrow> unit kop" where
  "publish_execution K et e pl c =
     kpublish K et ''EXECUTION'' (ex_id e) pl (context_text c ''correlation_id'') (context_text c ''causation_id'')"

definition validate_provider_result :: "execution \<Rightarrow> execution option \<Rightarrow> kexn + execution" where
  "validate_provider_result e r =
     (case r of
        None \<Rightarrow> Inl (ValidationError ''executor must return an ExecutionResult value'')
      | Some x \<Rightarrow>
          if ex_id x = ex_id e \<and> ex_assignment_id x = ex_assignment_id e
             \<and> ex_work_item_id x = ex_work_item_id e \<and> ex_agent_id x = ex_agent_id e then Inr x
          else Inl (ValidationError ''executor result relationships do not match execution context''))"

definition get_execution :: "string \<Rightarrow> execution kop" where
  "get_execution i =
     bnd (of_sum (validate_required_string i ''execution_id'')) (\<lambda>_.
     bnd (gets (\<lambda>s. map_of (k_executions s) i)) (\<lambda>e.
     case e of None \<Rightarrow> fail ExecutionNotFoundError | Some e \<Rightarrow> ok e))"

definition run_executor :: "kenv \<Rightarrow> executor \<Rightarrow> run_context \<Rightarrow> (execution option) kop" where
  "run_executor K x rc =
     zoom (\<lambda>s. b_ticks (k_bus s)) (\<lambda>n s. s\<lparr>k_bus := (k_bus s)\<lparr>b_ticks := n\<rparr>\<rparr>) (x_run x K rc)"

definition text_or :: "string option \<Rightarrow> string \<Rightarrow> string" where
  "text_or x d = (case x of None \<Rightarrow> d | Some y \<Rightarrow> if y = [] then d else y)"

text \<open>Starting: the work item runs, the execution is recorded; a raise puts both back.\<close>

definition start_execution ::
    "kenv \<Rightarrow> assignment \<Rightarrow> work_item \<Rightarrow> work_package \<Rightarrow> execution \<Rightarrow> exec_context option \<Rightarrow> execution kop" where
  "start_execution K a w p e c =
     catch
       (bnd (change_work_item_state K (wa_package_id a) (wa_work_item_id a) RUNNING) (\<lambda>_.
        bnd (mark_running K e) (\<lambda>e'.
        bnd (put_execution e') (\<lambda>_.
        bnd (publish_execution K ''EXECUTION_STARTED'' e' (JObj [(''assignment_id'', JStr (wa_id a))]) c) (\<lambda>_.
        ok e')))))
       (\<lambda>x. bnd (put_item (wa_package_id a) (wa_work_item_id a) (\<lambda>v. v\<lparr>wi_state := wi_state w\<rparr>)) (\<lambda>_.
            bnd (put_package (wa_package_id a) (\<lambda>v. v\<lparr>wp_updated_at := wp_updated_at p\<rparr>)) (\<lambda>_.
            bnd (upd (\<lambda>s. s\<lparr>k_executions := ddel (ex_id e) (k_executions s)\<rparr>)) (\<lambda>_. fail x))))"

text \<open>The body of the second try block: run, check, and record a failure the executor reports.\<close>

definition conclude_execution ::
    "kenv \<Rightarrow> executor \<Rightarrow> run_context \<Rightarrow> assignment \<Rightarrow> execution \<Rightarrow> exec_context option \<Rightarrow> execution kop" where
  "conclude_execution K x rc a e c =
     bnd (run_executor K x rc) (\<lambda>r.
     bnd (of_sum (validate_provider_result e r)) (\<lambda>r.
     if ex_status r = FAILED then
       bnd (mark_failed K (text_or (ex_error r) ''Executor reported failure'') e) (\<lambda>e'.
       bnd (put_execution e') (\<lambda>_.
       bnd (publish_execution K ''EXECUTION_FAILED'' e' (JObj [(''error'', JStr (text_or (ex_error e') []))]) c) (\<lambda>_.
       fail (ExecutionFailedError (text_or (ex_error e') [])))))
     else
       bnd (require (ex_status r = SUCCEEDED) (ValidationError ''executor must return SUCCEEDED or FAILED'')) (\<lambda>_.
       bnd (change_work_item_state K (wa_package_id a) (wa_work_item_id a) REVIEW) (\<lambda>_.
       bnd (mark_succeeded K (text_or (ex_output r) ''Execution succeeded'') e) (\<lambda>e'.
       bnd (put_execution e') (\<lambda>_. ok e'))))))"

text \<open>
  The handler of the second try block: a failure already reported is raised on; any other
  exception puts the work item back to \<open>RUNNING\<close> and records the execution as failed.
\<close>

definition record_failure ::
    "kenv \<Rightarrow> assignment \<Rightarrow> work_package \<Rightarrow> execution \<Rightarrow> exec_context option \<Rightarrow> kexn \<Rightarrow> execution kop" where
  "record_failure K a p e c x =
     (if committed_failure x then fail x else
      bnd (put_item (wa_package_id a) (wa_work_item_id a) (\<lambda>v. v\<lparr>wi_state := RUNNING\<rparr>)) (\<lambda>_.
      bnd (put_package (wa_package_id a) (\<lambda>v. v\<lparr>wp_updated_at := wp_updated_at p\<rparr>)) (\<lambda>_.
      bnd (get_execution (ex_id e)) (\<lambda>e1.
      bnd (if ex_status e1 = EXECUTION_RUNNING then
             bnd (mark_failed K (error_text K x) e1) (\<lambda>e'.
             bnd (put_execution e') (\<lambda>_.
             bnd (publish_execution K ''EXECUTION_FAILED'' e' (JObj [(''error'', JStr (error_text K x))]) c) (\<lambda>_.
             ok e')))
           else ok e1) (\<lambda>e2.
      fail (ExecutionFailedError (text_or (ex_error e2) ''None'')))))))"

definition execute ::
    "kenv \<Rightarrow> string \<Rightarrow> string \<Rightarrow> exec_context option \<Rightarrow> lifecycle_state \<Rightarrow> execution kop" where
  "execute K i aid c required =
     bnd (of_sum (checks [validate_required_string i ''execution_id'',
       validate_required_string aid ''assignment_id''])) (\<lambda>_.
     bnd (gets (\<lambda>s. i \<in> set (dkeys (k_executions s)))) (\<lambda>dup.
     bnd (require (\<not> dup) DuplicateExecutionError) (\<lambda>_.
     bnd (get_assignment aid) (\<lambda>a.
     bnd (of_sum (require_active a)) (\<lambda>_.
     bnd (get_work_item (wa_package_id a) (wa_work_item_id a)) (\<lambda>w.
     bnd (require (wi_state w = required) InvalidExecutionStateTransitionError) (\<lambda>_.
     bnd (get_agent (wa_agent_id a)) (\<lambda>ag.
     bnd (select_executor a) (\<lambda>x.
     let e0 = \<lparr>ex_id = i, ex_assignment_id = wa_id a, ex_work_item_id = wi_id w, ex_agent_id = ag_id ag,
               ex_status = EXECUTION_CREATED, ex_output = None, ex_error = None, ex_started_at = None,
               ex_completed_at = None\<rparr> in
     bnd (of_sum (validate_execution e0)) (\<lambda>_.
     bnd (get_work_package (wa_package_id a)) (\<lambda>p.
     bnd (start_execution K a w p e0 c) (\<lambda>e.
     bnd (get_work_package (wa_package_id a)) (\<lambda>p'.
     let rc = \<lparr>rc_caller = (case c of None \<Rightarrow> [] | Some d \<Rightarrow> d), rc_execution_id = ex_id e,
               rc_assignment_id = wa_id a, rc_work_item_id = wi_id w, rc_agent_id = ag_id ag,
               rc_started_at = (case ex_started_at e of Some t \<Rightarrow> t | None \<Rightarrow> 0)\<rparr> in
     bnd (catch (conclude_execution K x rc a e c) (record_failure K a p' e c)) (\<lambda>e'.
     bnd (publish_execution K ''EXECUTION_SUCCEEDED'' e'
       (JObj [(''output'', JStr (text_or (ex_output e') []))]) c) (\<lambda>_. ok e')))))))))))))))"

definition execute_assignment :: "kenv \<Rightarrow> string \<Rightarrow> string \<Rightarrow> exec_context option \<Rightarrow> execution kop" where
  "execute_assignment K i aid c = atomic (execute K i aid c ASSIGNED)"

definition execute_correction :: "kenv \<Rightarrow> string \<Rightarrow> string \<Rightarrow> exec_context option \<Rightarrow> execution kop" where
  "execute_correction K i aid c = atomic (execute K i aid c REJECTED)"

definition cancel_execution :: "kenv \<Rightarrow> string \<Rightarrow> execution kop" where
  "cancel_execution K i = atomic (
     bnd (get_execution i) (\<lambda>e.
     bnd (mark_cancelled K e) (\<lambda>e'.
     bnd (put_execution e') (\<lambda>_.
     bnd (publish_execution K ''EXECUTION_CANCELLED'' e' (JObj []) None) (\<lambda>_. ok e')))))"

definition list_executions :: "kernel \<Rightarrow> execution list" where
  "list_executions s = dvals (k_executions s)"

definition list_executions_for_assignment :: "string \<Rightarrow> (execution list) kop" where
  "list_executions_for_assignment aid =
     bnd (get_assignment aid) (\<lambda>_. gets (\<lambda>s. filter (\<lambda>e. ex_assignment_id e = aid) (list_executions s)))"

subsection \<open>Recovery\<close>

definition validate_recoverable :: "string \<Rightarrow> string \<Rightarrow> string \<Rightarrow> (execution \<times> assignment) kop" where
  "validate_recoverable rid eid reason =
     bnd (of_sum (checks [validate_required_string rid ''recovery_id'', validate_required_string reason ''reason''])) (\<lambda>_.
     bnd (gets (\<lambda>s. rid \<in> set (dkeys (k_recoveries s)))) (\<lambda>dup.
     bnd (require (\<not> dup) DuplicateRecoveryError) (\<lambda>_.
     bnd (get_execution eid) (\<lambda>e.
     bnd (require (ex_status e = FAILED) ExecutionNotRecoverableError) (\<lambda>_.
     bnd (get_assignment (ex_assignment_id e)) (\<lambda>a.
     bnd (require (wa_status a = ACTIVE) ExecutionNotRecoverableError) (\<lambda>_.
     bnd (get_work_item (wa_package_id a) (wa_work_item_id a)) (\<lambda>w.
     bnd (require (wi_state w = RUNNING) ExecutionNotRecoverableError) (\<lambda>_.
     ok (e, a))))))))))"

fun recovery_event :: "recovery_action \<Rightarrow> string" where
  "recovery_event RETRY = ''EXECUTION_RECOVERY_RETRIED''"
| "recovery_event RESET_TO_ASSIGNED = ''EXECUTION_RECOVERY_RESET''"
| "recovery_event CANCEL_ASSIGNMENT = ''EXECUTION_RECOVERY_CANCELLED''"

definition drop_record :: "string \<Rightarrow> unit kop" where
  "drop_record rid = upd (\<lambda>s. s\<lparr>k_recoveries := ddel rid (k_recoveries s)\<rparr>)"

definition store_record :: "kenv \<Rightarrow> string \<Rightarrow> execution \<Rightarrow> recovery_action \<Rightarrow> string \<Rightarrow> recovery_record kop" where
  "store_record K rid e act reason =
     bnd (utc_now K) (\<lambda>t.
     let r = \<lparr>rr_id = rid, rr_execution_id = ex_id e, rr_assignment_id = ex_assignment_id e,
              rr_action = act, rr_reason = reason, rr_created_at = t\<rparr> in
     bnd (of_sum (validate_recovery_record r)) (\<lambda>_.
     bnd (upd (\<lambda>s. s\<lparr>k_recoveries := dset rid r (k_recoveries s)\<rparr>)) (\<lambda>_.
     bnd (catch
       (kpublish K (recovery_event act) ''RECOVERY'' rid
         (JObj [(''execution_id'', JStr (ex_id e)), (''assignment_id'', JStr (ex_assignment_id e)),
           (''reason'', JStr reason)]) None None)
       (\<lambda>x. bnd (drop_record rid) (\<lambda>_. fail x))) (\<lambda>_. ok r))))"

text \<open>The compensation of the recovery operations on the work item and its package.\<close>

definition restore_work :: "assignment \<Rightarrow> work_item \<Rightarrow> work_package \<Rightarrow> unit kop" where
  "restore_work a w p =
     bnd (put_item (wa_package_id a) (wa_work_item_id a) (\<lambda>v. v\<lparr>wi_state := wi_state w\<rparr>)) (\<lambda>_.
     put_package (wa_package_id a) (\<lambda>v. v\<lparr>wp_updated_at := wp_updated_at p\<rparr>))"

definition retry_failed_execution ::
    "kenv \<Rightarrow> string \<Rightarrow> string \<Rightarrow> string \<Rightarrow> string \<Rightarrow> exec_context option \<Rightarrow> execution kop" where
  "retry_failed_execution K rid eid new_id reason c = atomic (
     bnd (validate_recoverable rid eid reason) (\<lambda>(e, a).
     bnd (of_sum (validate_required_string new_id ''new_execution_id'')) (\<lambda>_.
     bnd (gets (\<lambda>s. new_id \<in> set (map ex_id (list_executions s)))) (\<lambda>dup.
     bnd (require (\<not> dup) DuplicateExecutionError) (\<lambda>_.
     bnd (get_work_item (wa_package_id a) (wa_work_item_id a)) (\<lambda>w.
     bnd (get_work_package (wa_package_id a)) (\<lambda>p.
     catch
       (bnd (recover_work_item_state K (wa_package_id a) (wa_work_item_id a) ASSIGNED reason) (\<lambda>_.
        bnd (catch (execute_assignment K new_id (wa_id a) c)
          (\<lambda>x. if committed_failure x then bnd (store_record K rid e RETRY reason) (\<lambda>_. fail x) else fail x)) (\<lambda>r.
        bnd (store_record K rid e RETRY reason) (\<lambda>_. ok r))))
       (\<lambda>x. bnd (gets (\<lambda>s. new_id \<in> set (map ex_id (list_executions s)))) (\<lambda>kept.
            bnd (if kept then ok () else restore_work a w p) (\<lambda>_. fail x))))))))))"

definition reset_failed_execution :: "kenv \<Rightarrow> string \<Rightarrow> string \<Rightarrow> string \<Rightarrow> recovery_record kop" where
  "reset_failed_execution K rid eid reason = atomic (
     bnd (validate_recoverable rid eid reason) (\<lambda>(e, a).
     bnd (get_work_item (wa_package_id a) (wa_work_item_id a)) (\<lambda>w.
     bnd (get_work_package (wa_package_id a)) (\<lambda>p.
     catch
       (bnd (recover_work_item_state K (wa_package_id a) (wa_work_item_id a) ASSIGNED reason) (\<lambda>_.
        store_record K rid e RESET_TO_ASSIGNED reason))
       (\<lambda>x. bnd (restore_work a w p) (\<lambda>_. bnd (drop_record rid) (\<lambda>_. fail x)))))))"

definition cancel_failed_assignment :: "kenv \<Rightarrow> string \<Rightarrow> string \<Rightarrow> string \<Rightarrow> recovery_record kop" where
  "cancel_failed_assignment K rid eid reason = atomic (
     bnd (validate_recoverable rid eid reason) (\<lambda>(e, a).
     bnd (get_work_item (wa_package_id a) (wa_work_item_id a)) (\<lambda>w.
     bnd (get_work_package (wa_package_id a)) (\<lambda>p.
     bnd (get_agent (wa_agent_id a)) (\<lambda>ag.
     catch
       (bnd (recover_work_item_state K (wa_package_id a) (wa_work_item_id a) ASSIGNED reason) (\<lambda>_.
        bnd (cancel_assignment K (wa_id a)) (\<lambda>_.
        store_record K rid e CANCEL_ASSIGNMENT reason)))
       (\<lambda>x. bnd (drop_record rid) (\<lambda>_. restore_closing (wa_id a) a w p ag x)))))))"

definition get_recovery_record :: "string \<Rightarrow> recovery_record kop" where
  "get_recovery_record rid =
     bnd (of_sum (validate_required_string rid ''recovery_id'')) (\<lambda>_.
     bnd (gets (\<lambda>s. map_of (k_recoveries s) rid)) (\<lambda>r.
     case r of None \<Rightarrow> fail RecoveryNotFoundError | Some r \<Rightarrow> ok r))"

definition list_recovery_records :: "kernel \<Rightarrow> recovery_record list" where
  "list_recovery_records s = dvals (k_recoveries s)"

definition list_recovery_records_for_execution :: "string \<Rightarrow> (recovery_record list) kop" where
  "list_recovery_records_for_execution eid =
     bnd (get_execution eid) (\<lambda>_. gets (\<lambda>s. filter (\<lambda>r. rr_execution_id r = eid) (list_recovery_records s)))"

end
