(* ===== verification/Workflows.thy ===== *)
theory Workflows
  imports Execution
begin

section \<open>Software delivery workflows\<close>

text \<open>
  \<^verbatim>\<open>workflows/service.py\<close> over the policies of \<^verbatim>\<open>workflows/policy.py\<close>: one request becomes one
  workflow with one work package, one work item and one assignment, moved through its stages by the
  engine, the orchestrator, the execution service and the recovery service, in one transaction per
  operation. The persistence callback is not modelled.
\<close>

definition get_workflow :: "string \<Rightarrow> workflow kop" where
  "get_workflow wid =
     bnd (of_sum (validate_required_string wid ''workflow_id'')) (\<lambda>_.
     bnd (gets (\<lambda>s. map_of (k_workflows s) wid)) (\<lambda>w.
     case w of None \<Rightarrow> fail WorkflowNotFoundError | Some w \<Rightarrow> ok w))"

definition list_workflows :: "kernel \<Rightarrow> workflow list" where
  "list_workflows s = dvals (k_workflows s)"

definition put_workflow :: "string \<Rightarrow> (workflow \<Rightarrow> workflow) \<Rightarrow> unit kop" where
  "put_workflow wid f = upd (\<lambda>s. s\<lparr>k_workflows :=
     (case map_of (k_workflows s) wid of None \<Rightarrow> k_workflows s | Some w \<Rightarrow> dset wid (f w) (k_workflows s))\<rparr>)"

definition get_request :: "string \<Rightarrow> delivery_request kop" where
  "get_request rid =
     bnd (gets (\<lambda>s. map_of (k_requests s) rid)) (\<lambda>r. case r of None \<Rightarrow> fail KeyError | Some r \<Rightarrow> ok r)"

definition correlation_id :: "workflow \<Rightarrow> string kop" where
  "correlation_id w = bnd (get_request (wf_request_id w)) (\<lambda>r. ok (text_or (rq_correlation_id r) (wf_id w)))"

text \<open>\<open>_last_event_id\<close>: the last event with the workflow's correlation, stored or staged.\<close>

definition last_event_id :: "workflow \<Rightarrow> (string option) kop" where
  "last_event_id w s =
     (if \<not> k_eventing s then (Inr None, s)
      else bnd (correlation_id w) (\<lambda>c.
           bnd (get_workflow (wf_id w)) (\<lambda>_.
           bnd (gets (\<lambda>s. list_events_for_correlation c (b_store (k_bus s)))) (\<lambda>r.
           bnd (of_sum r) (\<lambda>es.
           gets (\<lambda>s. let all = es @ filter (\<lambda>e. re_correlation e = Some c) (staged (k_bus s)) in
             (if all = [] then None else Some (re_id (last all)))))))) s)"

fun stage_name :: "workflow_stage \<Rightarrow> string" where
  "stage_name INTAKE = ''INTAKE''"
| "stage_name PLANNING = ''PLANNING''"
| "stage_name STAGE_READY = ''READY''"
| "stage_name STAGE_ASSIGNED = ''ASSIGNED''"
| "stage_name EXECUTING = ''EXECUTING''"
| "stage_name STAGE_REVIEW = ''REVIEW''"
| "stage_name APPROVAL = ''APPROVAL''"
| "stage_name STAGE_COMPLETED = ''COMPLETED''"
| "stage_name STAGE_RELEASED = ''RELEASED''"
| "stage_name STAGE_FAILED = ''FAILED''"
| "stage_name STAGE_CANCELLED = ''CANCELLED''"

definition wpublish :: "kenv \<Rightarrow> string \<Rightarrow> string \<Rightarrow> (string \<times> json) list \<Rightarrow> unit kop" where
  "wpublish K wid et pl s =
     (if \<not> k_eventing s then (Inr (), s)
      else bnd (get_workflow wid) (\<lambda>w.
           bnd (correlation_id w) (\<lambda>c.
           bnd (last_event_id w) (\<lambda>l.
           kpublish K et ''SOFTWARE_DELIVERY_WORKFLOW'' (wf_id w)
             (JObj ((''stage'', JStr (stage_name (wf_stage w))) # pl)) (Some c) l))) s)"

definition get_workflow_events :: "string \<Rightarrow> (runtime_event list) kop" where
  "get_workflow_events wid s =
     bnd (get_workflow wid) (\<lambda>w s.
       if \<not> k_eventing s then (Inr [], s)
       else bnd (correlation_id w) (\<lambda>c.
            bnd (gets (\<lambda>s. list_events_for_correlation c (b_store (k_bus s)))) of_sum) s) s"

text \<open>\<open>SoftwareDeliveryWorkflow.move_to\<close>.\<close>

definition move_to :: "kenv \<Rightarrow> string \<Rightarrow> workflow_stage \<Rightarrow> unit kop" where
  "move_to K wid b =
     bnd (get_workflow wid) (\<lambda>w.
     bnd (of_sum (require_stage_transition (wf_stage w) b)) (\<lambda>_.
     bnd (utc_now K) (\<lambda>t.
     put_workflow wid (\<lambda>w. w\<lparr>wf_stage := b, wf_updated_at := t\<rparr>))))"

definition require_assignment_id :: "workflow \<Rightarrow> string kop" where
  "require_assignment_id w =
     (case wf_assignment_id w of None \<Rightarrow> fail InvalidWorkflowTransitionError | Some a \<Rightarrow> ok a)"

definition submit_request :: "kenv \<Rightarrow> delivery_request \<Rightarrow> string option \<Rightarrow> workflow kop" where
  "submit_request K r wid = atomic (
     let i = text_or wid (rq_id r) in
     bnd (of_sum (validate_required_string i ''workflow_id'')) (\<lambda>_.
     bnd (gets (\<lambda>s. i \<in> set (dkeys (k_workflows s)) \<or> rq_id r \<in> set (dkeys (k_requests s)))) (\<lambda>dup.
     bnd (require (\<not> dup) DuplicateWorkflowError) (\<lambda>_.
     bnd (utc_now K) (\<lambda>t1. bnd (utc_now K) (\<lambda>t2.
     let w = \<lparr>wf_id = i, wf_request_id = rq_id r, wf_package_id = i @ '':package'',
              wf_item_id = i @ '':work-item'', wf_assignment_id = None, wf_execution_ids = [],
              wf_stage = INTAKE, wf_created_at = t1, wf_updated_at = t2, wf_failure_reason = None,
              wf_rejection_reason = None, wf_approved_at = None\<rparr> in
     bnd (of_sum (validate_workflow w)) (\<lambda>_.
     bnd (upd (\<lambda>s. s\<lparr>k_workflows := dset i w (k_workflows s), k_requests := dset (rq_id r) r (k_requests s)\<rparr>)) (\<lambda>_.
     bnd (create_work_package K (wf_package_id w) (rq_title r) (rq_description r) (rq_requested_by r)) (\<lambda>_.
     bnd (add_work_item K (wf_package_id w) (wf_item_id w) (rq_title r) (rq_description r) (rq_priority r) None) (\<lambda>_.
     bnd (wpublish K i ''SOFTWARE_REQUEST_SUBMITTED''
       [(''request_id'', JStr (rq_id r)), (''requested_by'', JStr (rq_requested_by r))]) (\<lambda>_.
     get_workflow i)))))))))))"

definition plan_request :: "kenv \<Rightarrow> string \<Rightarrow> workflow kop" where
  "plan_request K wid = atomic (
     bnd (get_workflow wid) (\<lambda>w.
     bnd (of_sum (require_stage (wf_stage w) INTAKE)) (\<lambda>_.
     bnd (get_request (wf_request_id w)) (\<lambda>r.
     bnd (move_to K wid PLANNING) (\<lambda>_.
     bnd (change_work_item_state K (wf_package_id w) (wf_item_id w) READY) (\<lambda>_.
     bnd (move_to K wid STAGE_READY) (\<lambda>_.
     bnd (wpublish K wid ''SOFTWARE_REQUEST_PLANNED''
       [(''acceptance_criteria'', JArr (map JStr (rq_acceptance_criteria r)))]) (\<lambda>_.
     get_workflow wid))))))))"

definition prepare_work :: "kenv \<Rightarrow> string \<Rightarrow> workflow kop" where
  "prepare_work K wid = atomic (
     bnd (get_workflow wid) (\<lambda>w.
     if wf_stage w = STAGE_READY then ok w else
     bnd (of_sum (require_stage (wf_stage w) PLANNING)) (\<lambda>_.
     bnd (change_work_item_state K (wf_package_id w) (wf_item_id w) READY) (\<lambda>_.
     bnd (move_to K wid STAGE_READY) (\<lambda>_. get_workflow wid)))))"

definition assign_work :: "kenv \<Rightarrow> string \<Rightarrow> workflow kop" where
  "assign_work K wid = atomic (
     bnd (get_workflow wid) (\<lambda>w.
     bnd (of_sum (require_stage (wf_stage w) STAGE_READY)) (\<lambda>_.
     bnd (get_request (wf_request_id w)) (\<lambda>r.
     bnd (assign_work_item K (wf_id w @ '':assignment'') (wf_package_id w) (wf_item_id w)
       (Some (rq_required_role r)) (rq_required_capabilities r)) (\<lambda>a.
     bnd (put_workflow wid (\<lambda>w. w\<lparr>wf_assignment_id := Some (wa_id a)\<rparr>)) (\<lambda>_.
     bnd (move_to K wid STAGE_ASSIGNED) (\<lambda>_.
     bnd (wpublish K wid ''SOFTWARE_WORK_ASSIGNED'' [(''agent_id'', JStr (wa_agent_id a))]) (\<lambda>_.
     get_workflow wid))))))))"

definition next_execution_id :: "workflow \<Rightarrow> string option \<Rightarrow> string" where
  "next_execution_id w eid =
     text_or eid (wf_id w @ '':execution:'' @ nat_str (length (wf_execution_ids w) + 1))"

definition execution_context :: "workflow \<Rightarrow> exec_context kop" where
  "execution_context w =
     bnd (correlation_id w) (\<lambda>c.
     bnd (last_event_id w) (\<lambda>l.
     ok [(''correlation_id'', JStr c), (''causation_id'', case l of None \<Rightarrow> JNull | Some x \<Rightarrow> JStr x)]))"

text \<open>The handler of a failed execution: the workflow fails with the reason, and so does the call.\<close>

definition note_failed_execution :: "kenv \<Rightarrow> string \<Rightarrow> string \<Rightarrow> kexn \<Rightarrow> execution kop" where
  "note_failed_execution K wid eid e =
     (if \<not> committed_failure e then fail e else
      bnd (put_workflow wid (\<lambda>w. w\<lparr>wf_execution_ids :=
        (if eid \<in> set (wf_execution_ids w) then wf_execution_ids w else wf_execution_ids w @ [eid]),
        wf_failure_reason := Some (error_text K e)\<rparr>)) (\<lambda>_.
      bnd (move_to K wid STAGE_FAILED) (\<lambda>_.
      bnd (wpublish K wid ''SOFTWARE_EXECUTION_FAILED''
        [(''execution_id'', JStr eid), (''reason'', JStr (error_text K e))]) (\<lambda>_.
      fail (WorkflowExecutionError (error_text K e))))))"

definition execute_work :: "kenv \<Rightarrow> string \<Rightarrow> string option \<Rightarrow> workflow kop" where
  "execute_work K wid eid = atomic (
     bnd (get_workflow wid) (\<lambda>w.
     bnd (require (wf_stage w = STAGE_ASSIGNED \<or> wf_stage w = EXECUTING) InvalidWorkflowTransitionError) (\<lambda>_.
     let i = next_execution_id w eid in
     bnd (of_sum (validate_required_string i ''execution_id'')) (\<lambda>_.
     bnd (if wf_stage w = STAGE_ASSIGNED then move_to K wid EXECUTING else ok ()) (\<lambda>_.
     bnd (wpublish K wid ''SOFTWARE_EXECUTION_STARTED'' [(''execution_id'', JStr i)]) (\<lambda>_.
     bnd (require_assignment_id w) (\<lambda>aid.
     bnd (get_work_item (wf_package_id w) (wf_item_id w)) (\<lambda>item.
     bnd (catch
       (bnd (execution_context w) (\<lambda>c.
        if wi_state item = REJECTED then execute_correction K i aid (Some c)
        else execute_assignment K i aid (Some c)))
       (note_failed_execution K wid i)) (\<lambda>e.
     bnd (put_workflow wid (\<lambda>w. w\<lparr>wf_execution_ids := wf_execution_ids w @ [ex_id e], wf_failure_reason := None\<rparr>)) (\<lambda>_.
     bnd (move_to K wid STAGE_REVIEW) (\<lambda>_.
     bnd (wpublish K wid ''SOFTWARE_EXECUTION_SUCCEEDED'' [(''execution_id'', JStr (ex_id e))]) (\<lambda>_.
     bnd (wpublish K wid ''SOFTWARE_REVIEW_SUBMITTED'' [(''execution_id'', JStr (ex_id e))]) (\<lambda>_.
     get_workflow wid)))))))))))))"

definition submit_for_review :: "string \<Rightarrow> workflow kop" where
  "submit_for_review wid =
     bnd (get_workflow wid) (\<lambda>w. bnd (of_sum (require_stage (wf_stage w) STAGE_REVIEW)) (\<lambda>_. ok w))"

definition approve_work :: "kenv \<Rightarrow> string \<Rightarrow> workflow kop" where
  "approve_work K wid = atomic (
     bnd (get_workflow wid) (\<lambda>w.
     bnd (of_sum (require_approval_stage (wf_stage w))) (\<lambda>_.
     bnd (get_work_item (wf_package_id w) (wf_item_id w)) (\<lambda>item.
     bnd (require (wi_state item = REVIEW) WorkflowApprovalError) (\<lambda>_.
     bnd (change_work_item_state K (wf_package_id w) (wf_item_id w) APPROVED) (\<lambda>_.
     bnd (utc_now K) (\<lambda>t.
     bnd (put_workflow wid (\<lambda>w. w\<lparr>wf_rejection_reason := None, wf_approved_at := Some t\<rparr>)) (\<lambda>_.
     bnd (move_to K wid APPROVAL) (\<lambda>_.
     bnd (wpublish K wid ''SOFTWARE_WORK_APPROVED'' []) (\<lambda>_.
     get_workflow wid))))))))))"

definition reject_work :: "kenv \<Rightarrow> string \<Rightarrow> string \<Rightarrow> workflow kop" where
  "reject_work K wid reason = atomic (
     bnd (of_sum (validate_required_string reason ''reason'')) (\<lambda>_.
     bnd (get_workflow wid) (\<lambda>w.
     bnd (of_sum (require_stage (wf_stage w) STAGE_REVIEW)) (\<lambda>_.
     bnd (change_work_item_state K (wf_package_id w) (wf_item_id w) REJECTED) (\<lambda>_.
     bnd (put_workflow wid (\<lambda>w. w\<lparr>wf_approved_at := None, wf_rejection_reason := Some reason\<rparr>)) (\<lambda>_.
     bnd (move_to K wid EXECUTING) (\<lambda>_.
     bnd (wpublish K wid ''SOFTWARE_WORK_REJECTED'' [(''reason'', JStr reason)]) (\<lambda>_.
     get_workflow wid))))))))"

definition complete_work :: "kenv \<Rightarrow> string \<Rightarrow> workflow kop" where
  "complete_work K wid = atomic (
     bnd (get_workflow wid) (\<lambda>w.
     bnd (of_sum (require_stage (wf_stage w) APPROVAL)) (\<lambda>_.
     bnd (get_work_item (wf_package_id w) (wf_item_id w)) (\<lambda>item.
     bnd (require (wi_state item = APPROVED) WorkflowApprovalError) (\<lambda>_.
     bnd (require_assignment_id w) (\<lambda>aid.
     bnd (complete_assignment K aid) (\<lambda>_.
     bnd (move_to K wid STAGE_COMPLETED) (\<lambda>_.
     bnd (wpublish K wid ''SOFTWARE_WORK_COMPLETED'' []) (\<lambda>_.
     get_workflow wid)))))))))"

definition release_work :: "kenv \<Rightarrow> string \<Rightarrow> workflow kop" where
  "release_work K wid = atomic (
     bnd (get_workflow wid) (\<lambda>w.
     bnd (of_sum (require_release_stage (wf_stage w))) (\<lambda>_.
     bnd (get_work_item (wf_package_id w) (wf_item_id w)) (\<lambda>item.
     bnd (require (wi_state item = COMPLETED) WorkflowReleaseError) (\<lambda>_.
     bnd (change_work_item_state K (wf_package_id w) (wf_item_id w) RELEASED) (\<lambda>_.
     bnd (move_to K wid STAGE_RELEASED) (\<lambda>_.
     bnd (wpublish K wid ''SOFTWARE_WORK_RELEASED'' []) (\<lambda>_.
     get_workflow wid))))))))"

definition last_execution_id :: "workflow \<Rightarrow> string kop" where
  "last_execution_id w = (case rev (wf_execution_ids w) of [] \<Rightarrow> fail IndexError | x # _ \<Rightarrow> ok x)"

definition cancel_workflow :: "kenv \<Rightarrow> string \<Rightarrow> string \<Rightarrow> workflow kop" where
  "cancel_workflow K wid reason = atomic (
     bnd (of_sum (validate_required_string reason ''reason'')) (\<lambda>_.
     bnd (get_workflow wid) (\<lambda>w.
     bnd (of_sum (require_cancellable (wf_stage w))) (\<lambda>_.
     bnd (if wf_stage w = STAGE_ASSIGNED then
            bnd (require_assignment_id w) (\<lambda>aid. bnd (cancel_assignment K aid) (\<lambda>_. ok ()))
          else if wf_stage w = STAGE_FAILED then
            bnd (last_execution_id w) (\<lambda>eid.
            bnd (cancel_failed_assignment K (wf_id w @ '':cancellation'') eid reason) (\<lambda>_. ok ()))
          else ok ()) (\<lambda>_.
     bnd (move_to K wid STAGE_CANCELLED) (\<lambda>_.
     bnd (put_workflow wid (\<lambda>w. w\<lparr>wf_failure_reason := Some reason\<rparr>)) (\<lambda>_.
     bnd (wpublish K wid ''SOFTWARE_WORKFLOW_CANCELLED'' [(''reason'', JStr reason)]) (\<lambda>_.
     get_workflow wid))))))))"

text \<open>The action of a recovery, as the caller names it.\<close>

datatype recovery_kind = Kind_Retry | Kind_Reset | Kind_Cancel | Kind_Other

fun kind_name :: "recovery_kind \<Rightarrow> string" where
  "kind_name Kind_Retry = ''retry''"
| "kind_name Kind_Reset = ''reset''"
| "kind_name Kind_Cancel = ''cancel''"
| "kind_name Kind_Other = []"

text \<open>The handler of a failed retry: the stage stays \<open>FAILED\<close>, the new execution is recorded.\<close>

definition note_failed_retry :: "kenv \<Rightarrow> string \<Rightarrow> string \<Rightarrow> kexn \<Rightarrow> execution kop" where
  "note_failed_retry K wid eid e =
     (if \<not> committed_failure e then fail e else
      bnd (put_workflow wid (\<lambda>w. w\<lparr>wf_execution_ids := wf_execution_ids w @ [eid],
        wf_failure_reason := Some (error_text K e)\<rparr>)) (\<lambda>_.
      bnd (wpublish K wid ''SOFTWARE_EXECUTION_FAILED''
        [(''execution_id'', JStr eid), (''reason'', JStr (error_text K e))]) (\<lambda>_.
      fail (WorkflowExecutionError (error_text K e)))))"

definition recover_by :: "kenv \<Rightarrow> workflow \<Rightarrow> string \<Rightarrow> string \<Rightarrow> recovery_kind \<Rightarrow> string option \<Rightarrow> unit kop" where
  "recover_by K w rid reason kind new_id =
     bnd (last_execution_id w) (\<lambda>failed_id.
     case kind of
       Kind_Retry \<Rightarrow>
         let i = next_execution_id w new_id in
         bnd (catch
           (bnd (execution_context w) (\<lambda>c. retry_failed_execution K rid failed_id i reason (Some c)))
           (note_failed_retry K (wf_id w) i)) (\<lambda>e.
         bnd (put_workflow (wf_id w) (\<lambda>w. w\<lparr>wf_execution_ids := wf_execution_ids w @ [ex_id e],
           wf_failure_reason := None\<rparr>)) (\<lambda>_.
         move_to K (wf_id w) STAGE_REVIEW))
     | Kind_Reset \<Rightarrow>
         bnd (reset_failed_execution K rid failed_id reason) (\<lambda>_.
         bnd (put_workflow (wf_id w) (\<lambda>w. w\<lparr>wf_failure_reason := None\<rparr>)) (\<lambda>_.
         move_to K (wf_id w) STAGE_ASSIGNED))
     | Kind_Cancel \<Rightarrow>
         bnd (cancel_failed_assignment K rid failed_id reason) (\<lambda>_.
         move_to K (wf_id w) STAGE_CANCELLED)
     | Kind_Other \<Rightarrow> fail (ValidationError ''recovery action must be retry, reset, or cancel''))"

definition recover_failed_execution ::
    "kenv \<Rightarrow> string \<Rightarrow> string \<Rightarrow> string \<Rightarrow> recovery_kind \<Rightarrow> string option \<Rightarrow> workflow kop" where
  "recover_failed_execution K wid rid reason kind new_id = atomic (
     bnd (get_workflow wid) (\<lambda>w.
     bnd (of_sum (require_recoverable (wf_stage w))) (\<lambda>_.
     bnd (recover_by K w rid reason kind new_id) (\<lambda>_.
     bnd (last_execution_id w) (\<lambda>failed_id.
     bnd (wpublish K wid ''SOFTWARE_EXECUTION_RECOVERED''
       [(''action'', JStr (kind_name kind)), (''execution_id'', JStr failed_id),
        (''new_execution_id'', if kind = Kind_Retry then JStr (next_execution_id w new_id) else JNull)]) (\<lambda>_.
     bnd (if kind = Kind_Cancel
          then wpublish K wid ''SOFTWARE_WORKFLOW_CANCELLED'' [(''reason'', JStr reason)] else ok ()) (\<lambda>_.
     get_workflow wid)))))))"

end
