(* ===== verification/Events_Safety.thy ===== *)
theory Events_Safety
  imports Events
begin

section \<open>What the event bus guarantees\<close>

text \<open>
  The identifier the publisher derives can be read back, so distinct events get distinct
  identifiers; the events of every aggregate, stored and staged, are numbered without gaps; and a
  transaction whose events were all published under derived identifiers always commits.
\<close>

subsection \<open>Numbers as text\<close>

lemma nat_str_less: "n < 10 \<Longrightarrow> nat_str n = [char_of (48 + n)]"
  by (simp add: nat_str.simps[of n])

lemma nat_str_ge: "\<not> n < 10 \<Longrightarrow> nat_str n = nat_str (n div 10) @ [char_of (48 + n mod 10)]"
  by (simp add: nat_str.simps[of n])

definition digit_value :: "nat \<Rightarrow> char \<Rightarrow> nat" where
  "digit_value n c = 10 * n + (of_char c - 48)"

lemma of_char_digit: "n < 10 \<Longrightarrow> (of_char (char_of (48 + n) :: char) :: nat) = 48 + n"
  by simp

lemma nat_str_value: "foldl digit_value 0 (nat_str n) = n"
proof (induction n rule: nat_str.induct)
  case (1 n)
  show ?case
  proof (cases "n < 10")
    case True
    then show ?thesis using of_char_digit[of n] by (simp add: nat_str_less digit_value_def)
  next
    case False
    then show ?thesis
      using 1 of_char_digit[of "n mod 10"] by (simp add: nat_str_ge digit_value_def)
  qed
qed

lemma nat_str_inj: "nat_str m = nat_str n \<Longrightarrow> m = n"
  by (metis nat_str_value)

lemma nat_str_digits: "c \<in> set (nat_str n) \<Longrightarrow> is_digit c"
proof (induction n rule: nat_str.induct)
  case (1 n)
  have d: "is_digit (char_of (48 + k))" if "k < 10" for k :: nat
    using of_char_digit[OF that] that unfolding is_digit_def code_point_def by linarith
  show ?case
  proof (cases "n < 10")
    case True
    then show ?thesis using 1(2) d by (simp add: nat_str_less)
  next
    case False
    then show ?thesis using 1 d[of "n mod 10"] by (auto simp: nat_str_ge)
  qed
qed

lemma colon_no_digit: "\<not> is_digit (CHR '':'')" "\<not> is_digit (CHR ''-'')"
  by (simp_all add: is_digit_def code_point_def)

text \<open>A text of numerals ends at the colon after it.\<close>

lemma upto_colon: "list_all (\<lambda>c. c \<noteq> CHR '':'') xs \<Longrightarrow> list_all (\<lambda>c. c \<noteq> CHR '':'') ys \<Longrightarrow>
    xs @ CHR '':'' # u = ys @ CHR '':'' # v \<Longrightarrow> xs = ys \<and> u = v"
  by (induction xs arbitrary: ys) (case_tac ys; auto)+

lemma nat_str_no_colon: "list_all (\<lambda>c. c \<noteq> CHR '':'') (nat_str n)"
  using nat_str_digits colon_no_digit(1) by (fastforce simp: list_all_iff)

lemma int_str_no_colon: "list_all (\<lambda>c. c \<noteq> CHR '':'') (int_str n)"
  using nat_str_no_colon by (simp add: int_str_def)

lemma int_str_inj: "int_str m = int_str n \<Longrightarrow> m = n"
proof -
  have no: "CHR ''-'' # xs \<noteq> nat_str k" for xs k
    using nat_str_digits[of "CHR ''-''" k] colon_no_digit(2) by (metis list.set_intros(1))
  show "int_str m = int_str n \<Longrightarrow> m = n"
    using no no[symmetric] by (auto simp: int_str_def dest: nat_str_inj split: if_splits)
qed

lemma prefixed_eq:
  assumes "nat_str (length x) @ CHR '':'' # x @ u = nat_str (length y) @ CHR '':'' # y @ v"
  shows "x = y \<and> u = v"
proof -
  have "nat_str (length x) = nat_str (length y) \<and> x @ u = y @ v"
    using upto_colon[OF nat_str_no_colon nat_str_no_colon assms] .
  then show ?thesis using nat_str_inj by (auto dest: nat_str_inj)
qed

lemma event_id_inj:
  assumes "event_id ty aid n et = event_id ty' aid' n' et'"
  shows "ty = ty' \<and> aid = aid' \<and> n = n' \<and> et = et'"
proof -
  from assms have *: "nat_str (length ty) @ CHR '':'' # ty @ (nat_str (length aid) @ CHR '':'' # aid
        @ (int_str n @ CHR '':'' # nat_str (length et) @ CHR '':'' # et @ []))
      = nat_str (length ty') @ CHR '':'' # ty' @ (nat_str (length aid') @ CHR '':'' # aid'
        @ (int_str n' @ CHR '':'' # nat_str (length et') @ CHR '':'' # et' @ []))"
    by (simp add: event_id_def)
  from prefixed_eq[OF *] have ty: "ty = ty'" and **: "nat_str (length aid) @ CHR '':'' # aid
        @ (int_str n @ CHR '':'' # nat_str (length et) @ CHR '':'' # et @ [])
      = nat_str (length aid') @ CHR '':'' # aid'
        @ (int_str n' @ CHR '':'' # nat_str (length et') @ CHR '':'' # et' @ [])"
    by blast+
  from prefixed_eq[OF **] have aid: "aid = aid'"
    and ***: "int_str n @ CHR '':'' # nat_str (length et) @ CHR '':'' # et @ []
      = int_str n' @ CHR '':'' # nat_str (length et') @ CHR '':'' # et' @ []"
    by blast+
  from upto_colon[OF int_str_no_colon int_str_no_colon ***]
  have "int_str n = int_str n'" and "nat_str (length et) @ CHR '':'' # et @ [] = nat_str (length et') @ CHR '':'' # et' @ []"
    by blast+
  then show ?thesis using ty aid int_str_inj prefixed_eq by blast
qed

text \<open>The identifier that the publisher derives for an event determines its aggregate, its
  sequence number and its type, whatever characters the names contain.\<close>

theorem event_id_determines_event:
  "event_id ty aid n et = event_id ty' aid' n' et' \<longleftrightarrow> ty = ty' \<and> aid = aid' \<and> n = n' \<and> et = et'"
  by (metis event_id_inj)

subsection \<open>The invariant of the bus\<close>

definition derived :: "runtime_event \<Rightarrow> bool" where
  "derived e \<longleftrightarrow> re_id e = event_id (re_aggregate_type e) (re_aggregate_id e) (re_sequence e) (re_event_type e)
     \<and> \<not> blank (re_aggregate_type e) \<and> \<not> blank (re_aggregate_id e)"

definition sequence_of :: "string \<Rightarrow> string \<Rightarrow> runtime_event list \<Rightarrow> int list" where
  "sequence_of ty aid es = map re_sequence (filter (of_aggregate ty aid) es)"

definition stream :: "runtime_event list \<Rightarrow> bool" where
  "stream es \<longleftrightarrow> (\<forall>e\<in>set es. derived e) \<and> (\<forall>ty aid. counted (sequence_of ty aid es))"

definition bus_inv :: "bus \<Rightarrow> bool" where
  "bus_inv b \<longleftrightarrow> b_store b = map (\<lambda>e. (re_id e, e)) (dvals (b_store b)) \<and> distinct (dkeys (b_store b))
     \<and> stream (dvals (b_store b) @ staged b)"

lemma counted_distinct: "counted xs \<Longrightarrow> distinct xs"
proof -
  have "distinct (map (\<lambda>i. int i + 1) [0..<n])" for n by (simp add: distinct_map inj_on_def)
  then show "counted xs \<Longrightarrow> distinct xs" unfolding counted_def by metis
qed

text \<open>Counted sequences and derived identifiers make the identifiers distinct.\<close>

lemma stream_distinct: "stream es \<Longrightarrow> distinct (map re_id es)"
proof (induction es rule: rev_induct)
  case Nil
  then show ?case by simp
next
  case (snoc e es)
  from snoc.prems have st: "stream es" and e: "derived e"
    and c: "counted (sequence_of ty aid (es @ [e]))" for ty aid
    by (auto simp: stream_def sequence_of_def split: if_splits dest: spec)
  have "re_id e \<noteq> re_id x" if x: "x \<in> set es" for x
  proof
    assume "re_id e = re_id x"
    moreover have "derived x" using snoc.prems x by (auto simp: stream_def)
    ultimately have same: "re_aggregate_type e = re_aggregate_type x" "re_aggregate_id e = re_aggregate_id x"
      "re_sequence e = re_sequence x"
      using e unfolding derived_def by (metis event_id_inj)+
    have "re_sequence x \<in> set (sequence_of (re_aggregate_type e) (re_aggregate_id e) es)"
      using x same by (auto simp: sequence_of_def of_aggregate_def)
    then show False
      using counted_distinct[OF c[of "re_aggregate_type e" "re_aggregate_id e"]] same(3)
      by (simp add: sequence_of_def of_aggregate_def)
  qed
  then show ?case using snoc.IH[OF st] by auto
qed

lemma stream_snoc:
  "stream (es @ [e]) \<longleftrightarrow> stream es \<and> derived e
     \<and> re_sequence e = int (length (sequence_of (re_aggregate_type e) (re_aggregate_id e) es)) + 1"
  by (auto simp: stream_def sequence_of_def of_aggregate_def split: if_splits)

lemma stream_prefix: "stream (es @ fs) \<Longrightarrow> stream es"
  by (induction fs rule: rev_induct) (simp_all add: stream_snoc flip: append_assoc)

lemma next_sequence: "next_sequence_number ty aid st =
    (if blank ty then Inl (ValidationError ''aggregate_type must be a non-empty string'')
     else if blank aid then Inl (ValidationError ''aggregate_id must be a non-empty string'')
     else Inr (int (length (sequence_of ty aid (dvals st))) + 1))"
  by (simp add: next_sequence_number_def list_events_for_aggregate_def validate_required_string_def sequence_of_def)

text \<open>What validation has recorded after the events \<open>done\<close> of a batch.\<close>

definition batch_inv ::
    "event_store \<Rightarrow> runtime_event list \<Rightarrow> string list \<Rightarrow> ((string \<times> string), int) dict \<Rightarrow> bool" where
  "batch_inv st pre pending seqs \<longleftrightarrow> set pending = re_id ` set (dvals st @ pre)
     \<and> (\<forall>ty aid. case map_of seqs (ty, aid) of
          None \<Rightarrow> filter (of_aggregate ty aid) pre = []
        | Some n \<Rightarrow> n = int (length (sequence_of ty aid (dvals st @ pre))) + 1)"

lemma batch_step:
  assumes st: "stream (dvals st @ pre @ e # es)" and inv: "batch_inv st pre pending seqs"
  shows "validate_pending_event st e pending seqs = Inr ()
    \<and> batch_inv st (pre @ [e]) (re_id e # pending)
        (dset (re_aggregate_type e, re_aggregate_id e) (re_sequence e + 1) seqs)"
proof -
  let ?ty = "re_aggregate_type e" and ?aid = "re_aggregate_id e"
  have "stream ((dvals st @ pre) @ [e])" using stream_prefix[of "dvals st @ pre @ [e]" es] st by simp
  then have e: "derived e" "re_sequence e = int (length (sequence_of ?ty ?aid (dvals st @ pre))) + 1"
    and fresh: "re_id e \<notin> re_id ` set (dvals st @ pre)"
    using stream_distinct[of "(dvals st @ pre) @ [e]"] unfolding stream_snoc by auto
  have b: "case map_of seqs (ty, aid) of
          None \<Rightarrow> filter (of_aggregate ty aid) pre = []
        | Some n \<Rightarrow> n = int (length (sequence_of ty aid (dvals st @ pre))) + 1" for ty aid
    using inv by (simp add: batch_inv_def)
  have "(case map_of seqs (?ty, ?aid) of Some m \<Rightarrow> m
      | None \<Rightarrow> int (length (sequence_of ?ty ?aid (dvals st))) + 1) = re_sequence e"
    using b[of ?ty ?aid] e(2) by (cases "map_of seqs (?ty, ?aid)") (auto simp: sequence_of_def)
  then have "validate_pending_event st e pending seqs = Inr ()"
    using e fresh inv by (auto simp: validate_pending_event_def batch_inv_def next_sequence derived_def Let_def)
  moreover have "batch_inv st (pre @ [e]) (re_id e # pending)
        (dset (?ty, ?aid) (re_sequence e + 1) seqs)"
    unfolding batch_inv_def
  proof (intro conjI allI)
    show "set (re_id e # pending) = re_id ` set (dvals st @ pre @ [e])"
      using inv by (auto simp: batch_inv_def)
  next
    fix ty aid
    show "case map_of (dset (?ty, ?aid) (re_sequence e + 1) seqs) (ty, aid) of
        None \<Rightarrow> filter (of_aggregate ty aid) (pre @ [e]) = []
      | Some n \<Rightarrow> n = int (length (sequence_of ty aid (dvals st @ pre @ [e]))) + 1"
      using b[of ty aid] e(2)
      by (cases "(ty, aid) = (?ty, ?aid)") (auto simp: sequence_of_def of_aggregate_def split: option.splits)
  qed
  ultimately show ?thesis by simp
qed

lemma validate_stream:
  "stream (dvals st @ pre @ es) \<Longrightarrow> batch_inv st pre pending seqs \<Longrightarrow> validate_batch st es pending seqs = Inr ()"
proof (induction es arbitrary: pre pending seqs)
  case Nil
  then show ?case by simp
next
  case (Cons e es)
  note step = batch_step[OF Cons.prems]
  have "stream (dvals st @ (pre @ [e]) @ es)" using Cons.prems(1) by simp
  then show ?case using step Cons.IH[of "pre @ [e]"] by (simp split: sum.split)
qed

lemma insert_events:
  "distinct (dkeys st @ map re_id es) \<Longrightarrow>
     foldl (\<lambda>d e. dset (re_id e) e d) st es = st @ map (\<lambda>e. (re_id e, e)) es"
proof (induction es arbitrary: st)
  case Nil
  then show ?case by simp
next
  case (Cons e es)
  have "dset (re_id e) e st = st @ [(re_id e, e)]"
    using Cons.prems by (induction st) auto
  then show ?case using Cons by simp
qed

lemma store_keys:
  assumes "st = map (\<lambda>e. (re_id e, e)) (dvals st)"
  shows "dkeys st = map re_id (dvals st)"
proof -
  have "dkeys st = map fst (map (\<lambda>e. (re_id e, e)) (dvals st))" by (subst assms) simp
  then show ?thesis by (simp add: comp_def)
qed

text \<open>Adding events that continue the stored streams appends them and never raises.\<close>

lemma add_stream:
  assumes "st = map (\<lambda>e. (re_id e, e)) (dvals st)" and "stream (dvals st @ es)"
  shows "add_events es st = Inr (st @ map (\<lambda>e. (re_id e, e)) es)"
proof -
  note keys = store_keys[OF assms(1)]
  then have "batch_inv st [] (dkeys st) []" by (simp add: batch_inv_def image_image)
  then have "validate_batch st es (dkeys st) [] = Inr ()" using validate_stream[of st "[]" es] assms(2) by simp
  moreover have "distinct (dkeys st @ map re_id es)"
    using stream_distinct[OF assms(2)] unfolding keys map_append .
  ultimately show ?thesis by (simp add: add_events_def insert_events)
qed

lemma bus_inv_alt: "bus_inv b \<longleftrightarrow> b_store b = map (\<lambda>e. (re_id e, e)) (dvals (b_store b))
     \<and> stream (dvals (b_store b) @ staged b)"
proof -
  have "distinct (dkeys (b_store b))"
    if "b_store b = map (\<lambda>e. (re_id e, e)) (dvals (b_store b))" "stream (dvals (b_store b) @ staged b)"
    using stream_distinct[OF stream_prefix[OF that(2)]] unfolding store_keys[OF that(1)] .
  then show ?thesis by (auto simp: bus_inv_def)
qed

lemma emit_keeps:
  assumes inv: "bus_inv b" and e: "derived e"
    and n: "re_sequence e = int (length (sequence_of (re_aggregate_type e) (re_aggregate_id e) (dvals (b_store b) @ staged b))) + 1"
  shows "\<exists>b'. emit_event e b = (Inr e, b') \<and> bus_inv b' \<and> dvals (b_store b') @ staged b' = dvals (b_store b) @ staged b @ [e]
    \<and> (b_tx b' = None \<longleftrightarrow> b_tx b = None) \<and> (b_tx b \<noteq> None \<longrightarrow> b_store b' = b_store b)"
proof -
  have st: "stream (dvals (b_store b) @ staged b @ [e])"
    using inv e n stream_snoc[of "dvals (b_store b) @ staged b" e] by (simp add: bus_inv_def)
  have store: "b_store b = map (\<lambda>e. (re_id e, e)) (dvals (b_store b))" using inv unfolding bus_inv_def by blast
  show ?thesis
  proof (cases "b_tx b")
    case None
    then have "add_events [e] (b_store b) = Inr (b_store b @ [(re_id e, e)])"
      using add_stream[OF store, of "[e]"] st by (simp add: staged_def)
    moreover have "bus_inv (b\<lparr>b_store := b_store b @ [(re_id e, e)]\<rparr>)"
      unfolding bus_inv_alt using st store None by (simp add: staged_def)
    ultimately show ?thesis using None by (simp add: emit_event_def staged_def)
  next
    case (Some es)
    moreover have "bus_inv (b\<lparr>b_tx := Some (es @ [e])\<rparr>)"
      unfolding bus_inv_alt using st store Some by (simp add: staged_def)
    ultimately show ?thesis by (simp add: emit_event_def staged_def)
  qed
qed

text \<open>Publishing under the derived identifier: the invariant holds afterwards; a publication that is
  refused is refused by validation, and changes at most the clock.\<close>

lemma staged_ticks [simp]: "staged (b\<lparr>b_ticks := n\<rparr>) = staged b"
  by (simp add: staged_def)

lemma bus_inv_ticks [simp]: "bus_inv (b\<lparr>b_ticks := n\<rparr>) = bus_inv b"
  by (simp add: bus_inv_def)

lemma publish_keeps:
  assumes inv: "bus_inv b" and run: "publish K et ty aid pl corr caus None b = (r, b')"
  shows "bus_inv b' \<and> (b_tx b' = None \<longleftrightarrow> b_tx b = None) \<and> (b_tx b \<noteq> None \<longrightarrow> b_store b' = b_store b)
    \<and> (case r of Inl x \<Rightarrow> (\<exists>m. x = ValidationError m) \<and> (\<exists>n. b' = b\<lparr>b_ticks := n\<rparr>)
       | Inr e \<Rightarrow> dvals (b_store b') @ staged b' = dvals (b_store b) @ staged b @ [e]
           \<and> re_event_type e = et \<and> re_aggregate_type e = ty \<and> re_aggregate_id e = aid \<and> re_payload e = pl)"
proof (cases "blank ty \<or> blank aid \<or> (\<exists>x. corr = Some x \<and> blank x) \<or> (\<exists>x. caus = Some x \<and> blank x)")
  case True
  then have "(\<exists>m. r = Inl (ValidationError m)) \<and> b' = b"
    using run
    by (auto simp: publish_def bnd_of_sum validate_required_string_def validate_optional_string_def split: option.splits if_splits)
  moreover have "\<exists>n. b = b\<lparr>b_ticks := n\<rparr>" by (rule exI[of _ "b_ticks b"]) simp
  ultimately show ?thesis using inv by auto
next
  case False
  let ?n = "int (length (sequence_of ty aid (dvals (b_store b)))) + 1 + int (length (filter (of_aggregate ty aid) (staged b)))"
  let ?e = "\<lparr>re_id = event_id ty aid ?n et, re_event_type = et, re_aggregate_type = ty, re_aggregate_id = aid,
              re_sequence = ?n, re_payload = pl, re_occurred_at = kclock K (b_ticks b),
              re_correlation = corr, re_causation = caus\<rparr>"
  let ?b = "b\<lparr>b_ticks := Suc (b_ticks b)\<rparr>"
  have ok: "checks [validate_required_string ty ''aggregate_type'',
       validate_required_string aid ''aggregate_id'', validate_optional_string corr ''correlation_id'',
       validate_optional_string caus ''causation_id''] = Inr ()"
    using False by (simp add: checks_Inr)
  have run': "(case validate_event ?e of Inl x \<Rightarrow> (Inl x, ?b) | Inr _ \<Rightarrow> emit_event ?e ?b) = (r, b')"
    using run False
    by (simp add: publish_def ok bnd_of_sum bnd_gets next_sequence bnd_def[of "tick K"] tick_def Let_def)
  show ?thesis
  proof (cases "validate_event ?e")
    case (Inl x)
    have "\<exists>m. x = ValidationError m"
      using Inl by (auto simp: validate_event_def validate_required_string_def validate_optional_string_def
          check_def split: if_splits option.splits)
    then show ?thesis using Inl run' inv by auto
  next
    case (Inr u)
    have "derived ?e" using False by (simp add: derived_def)
    moreover have "re_sequence ?e = int (length (sequence_of (re_aggregate_type ?e) (re_aggregate_id ?e)
        (dvals (b_store ?b) @ staged ?b))) + 1"
      by (simp add: sequence_of_def)
    ultimately obtain b1 where "emit_event ?e ?b = (Inr ?e, b1)" "bus_inv b1"
      "dvals (b_store b1) @ staged b1 = dvals (b_store b) @ staged b @ [?e]"
      "b_tx b1 = None \<longleftrightarrow> b_tx b = None" "b_tx b \<noteq> None \<longrightarrow> b_store b1 = b_store b"
      using emit_keeps[of ?b ?e] inv by auto
    then show ?thesis using run' Inr by auto
  qed
qed

end
