(* ===== verification/Kernel_Views.thy ===== *)
theory Kernel_Views
  imports Workflows Events_Safety
begin

section \<open>What the kernel operations do to the state of work, assignments and workflows\<close>

text \<open>
  The runtime seen through the states that its rules are about: the life-cycle state of each work
  item, the subject and status of each assignment, the load and capacity of each agent, the
  assignment and status of each execution, and the parts and stage of each workflow. For every operation run inside a transaction: it stays inside, it raises no committed
  failure unless it executes, and the view it leaves when it returns.
\<close>

subsection \<open>The view\<close>

record flow =
  fl_id :: string
  fl_package :: string
  fl_item :: string
  fl_assignment :: "string option"
  fl_executions :: "string list"
  fl_stage :: workflow_stage

record view =
  vi :: "string \<times> string \<Rightarrow> lifecycle_state option"
  va :: "string \<Rightarrow> (string \<times> string \<times> string \<times> string \<times> assignment_status) option"
  vc :: "string \<Rightarrow> int"
  vg :: "(string \<times> string \<times> int) list"
  ve :: "string \<Rightarrow> (string \<times> string \<times> execution_status) option"
  vf :: "string \<Rightarrow> flow option"

definition item_view :: "work_package \<Rightarrow> string \<Rightarrow> lifecycle_state option" where
  "item_view p wid = map_option wi_state (find_item wid (wp_items p))"

definition assignment_view :: "assignment \<Rightarrow> string \<times> string \<times> string \<times> string \<times> assignment_status" where
  "assignment_view a = (wa_id a, wa_package_id a, wa_work_item_id a, wa_agent_id a, wa_status a)"

definition flow_view :: "workflow \<Rightarrow> flow" where
  "flow_view w = \<lparr>fl_id = wf_id w, fl_package = wf_package_id w, fl_item = wf_item_id w,
     fl_assignment = wf_assignment_id w, fl_executions = wf_execution_ids w, fl_stage = wf_stage w\<rparr>"

definition view :: "kernel \<Rightarrow> view" where
  "view s = \<lparr>vi = (\<lambda>(pid, wid). case map_of (k_packages s) pid of None \<Rightarrow> None | Some p \<Rightarrow> item_view p wid),
     va = (\<lambda>i. map_option assignment_view (map_of (k_assignments s) i)),
     vc = (\<lambda>g. count_active_assignments g s),
     vg = map (\<lambda>(k, a). (k, ag_id a, ag_max_parallel_tasks a)) (k_agents s),
     ve = (\<lambda>i. map_option (\<lambda>e. (ex_id e, ex_assignment_id e, ex_status e)) (map_of (k_executions s) i)),
     vf = (\<lambda>i. map_option flow_view (map_of (k_workflows s) i))\<rparr>"

text \<open>Work items found in the list of their package.\<close>

lemma find_item_Nil [simp]: "find_item i [] = None"
  by (simp add: find_item_def)

lemma find_item_Cons [simp]: "find_item i (w # ws) = (if wi_id w = i then Some w else find_item i ws)"
  by (simp add: find_item_def)

lemma find_item_id: "find_item i ws = Some w \<Longrightarrow> wi_id w = i"
  by (induction ws) (auto split: if_splits)

lemma find_update_item:
  assumes "\<And>w. wi_id (f w) = wi_id w"
  shows "find_item j (update_item i f ws) = (if j = i then map_option f (find_item i ws) else find_item j ws)"
  by (induction ws) (auto simp: assms)

lemma find_replace_item:
  assumes "find_item i ws = Some w" and "wi_id w' = i"
  shows "find_item j (update_item i (\<lambda>_. w') ws) = (if j = i then Some w' else find_item j ws)"
  using assms by (induction ws) (auto split: if_splits)

lemma find_item_append: "find_item i (ws @ vs) = (case find_item i ws of None \<Rightarrow> find_item i vs | Some w \<Rightarrow> Some w)"
  by (induction ws) auto

lemma find_item_None: "find_item i ws = None \<longleftrightarrow> i \<notin> set (map wi_id ws)"
  by (induction ws) auto

subsection \<open>Inside a transaction\<close>

definition in_tx :: "kernel \<Rightarrow> bool" where
  "in_tx s \<longleftrightarrow> k_eventing s \<and> b_tx (k_bus s) \<noteq> None"

lemma atomic_joined [simp]: "in_tx s \<Longrightarrow> atomic m s = m s"
  by (simp add: atomic_def in_tx_def)

text \<open>
  \<open>joins m\<close>: run inside a transaction, \<open>m\<close> stays inside it. \<open>plain m\<close>: in addition it raises no
  committed failure. \<open>quiet m\<close>: it writes only to the bus.
\<close>

definition joins :: "'a kop \<Rightarrow> bool" where
  "joins m \<longleftrightarrow> (\<forall>s. in_tx s \<longrightarrow> in_tx (snd (m s)))"

definition plain :: "'a kop \<Rightarrow> bool" where
  "plain m \<longleftrightarrow> (\<forall>s e t. in_tx s \<longrightarrow> m s = (Inl e, t) \<longrightarrow> \<not> committed_failure e)"

definition quiet :: "'a kop \<Rightarrow> bool" where
  "quiet m \<longleftrightarrow> (\<forall>s r t. in_tx s \<longrightarrow> m s = (r, t) \<longrightarrow> (\<exists>b. t = s\<lparr>k_bus := b\<rparr> \<and> b_tx b \<noteq> None))"

named_theorems joins_rules
named_theorems plain_rules
named_theorems quiet_rules

lemma joinsD: "joins m \<Longrightarrow> m s = (r, t) \<Longrightarrow> in_tx s \<Longrightarrow> in_tx t"
  unfolding joins_def by (metis snd_conv)

lemma plainD: "plain m \<Longrightarrow> m s = (Inl e, t) \<Longrightarrow> in_tx s \<Longrightarrow> \<not> committed_failure e"
  unfolding plain_def by blast

lemma quietD: "quiet m \<Longrightarrow> m s = (r, t) \<Longrightarrow> in_tx s \<Longrightarrow> \<exists>b. t = s\<lparr>k_bus := b\<rparr> \<and> b_tx b \<noteq> None"
  unfolding quiet_def by blast

lemma joins_pure [joins_rules]: "joins (ok x)" "joins (fail e)" "joins (gets f)" "joins (require b e)" "joins (of_sum r)"
  by (auto simp: joins_def run_simps)

lemma joins_bnd [joins_rules]: "joins m \<Longrightarrow> (\<And>x. joins (f x)) \<Longrightarrow> joins (bnd m f)"
  unfolding joins_def bnd_def by (fastforce split: prod.splits sum.splits)

lemma joins_catch [joins_rules]: "joins m \<Longrightarrow> (\<And>e. joins (h e)) \<Longrightarrow> joins (catch m h)"
  unfolding joins_def catch_def by (fastforce split: prod.splits sum.splits)

lemma joins_upd [joins_rules]: "(\<And>s. k_eventing (f s) = k_eventing s) \<Longrightarrow> (\<And>s. k_bus (f s) = k_bus s) \<Longrightarrow> joins (upd f)"
  by (auto simp: joins_def upd_def in_tx_def)

lemma joins_atomic [joins_rules]: "joins m \<Longrightarrow> joins (atomic m)"
  by (simp add: joins_def)

lemma joins_if [joins_rules]: "joins m \<Longrightarrow> joins n \<Longrightarrow> joins (if b then m else n)"
  by simp

lemma joins_option [joins_rules]:
  "joins m \<Longrightarrow> (\<And>y. joins (f y)) \<Longrightarrow> joins (case x of None \<Rightarrow> m | Some y \<Rightarrow> f y)"
  by (cases x) auto

lemma joins_quiet: "quiet m \<Longrightarrow> joins m"
  unfolding joins_def quiet_def in_tx_def by (metis kernel.select_convs(9,10) kernel.surjective kernel.update_convs(10) prod.collapse)

lemma plain_pure [plain_rules]: "plain (ok x)" "plain (gets f)" "\<not> committed_failure e \<Longrightarrow> plain (fail e)"
  "\<not> committed_failure e \<Longrightarrow> plain (require b e)" "plain (upd g)"
  by (auto simp: plain_def run_simps split: if_splits)

lemma plain_bnd [plain_rules]: "joins m \<Longrightarrow> plain m \<Longrightarrow> (\<And>x. plain (f x)) \<Longrightarrow> plain (bnd m f)"
  unfolding plain_def by (metis bnd_InlE joinsD)

lemma plain_catch: "joins m \<Longrightarrow> plain m \<Longrightarrow> (\<And>e. \<not> committed_failure e \<Longrightarrow> plain (h e)) \<Longrightarrow> plain (catch m h)"
  unfolding plain_def catch_def by (fastforce split: prod.splits sum.splits dest: joinsD)

lemma plain_atomic [plain_rules]: "plain m \<Longrightarrow> plain (atomic m)"
  by (simp add: plain_def)

lemma plain_if [plain_rules]: "plain m \<Longrightarrow> plain n \<Longrightarrow> plain (if b then m else n)"
  by simp

lemma plain_option [plain_rules]:
  "plain m \<Longrightarrow> (\<And>y. plain (f y)) \<Longrightarrow> plain (case x of None \<Rightarrow> m | Some y \<Rightarrow> f y)"
  by (cases x) auto

subsection \<open>Checks, clock and publication\<close>

lemma checks_Inl: "checks cs = Inl e \<Longrightarrow> Inl e \<in> set cs"
  by (induction cs rule: checks.induct) auto

lemma committed_simps [simp]:
  "\<not> committed_failure (ValidationError m)" "committed_failure (ExecutionFailedError m)"
  "committed_failure (WorkflowExecutionError m)" "\<not> committed_failure InvalidLifecycleTransitionError"
  "\<not> committed_failure InvalidAgentStateTransitionError" "\<not> committed_failure InvalidAssignmentStateTransitionError"
  "\<not> committed_failure InvalidExecutionStateTransitionError" "\<not> committed_failure InvalidWorkflowTransitionError"
  "\<not> committed_failure WorkPackageNotFoundError" "\<not> committed_failure WorkItemNotFoundError"
  "\<not> committed_failure AgentNotFoundError" "\<not> committed_failure AssignmentNotFoundError"
  "\<not> committed_failure ExecutionNotFoundError" "\<not> committed_failure ExecutorNotFoundError"
  "\<not> committed_failure DuplicateExecutionError" "\<not> committed_failure DuplicateWorkPackageError"
  "\<not> committed_failure DuplicateWorkItemError" "\<not> committed_failure DuplicateActiveAssignmentError"
  "\<not> committed_failure AgentCapacityError" "\<not> committed_failure NoEligibleAgentError"
  "\<not> committed_failure DuplicateRecoveryError" "\<not> committed_failure ExecutionNotRecoverableError"
  "\<not> committed_failure WorkflowNotFoundError" "\<not> committed_failure DuplicateWorkflowError"
  "\<not> committed_failure WorkflowApprovalError" "\<not> committed_failure WorkflowReleaseError"
  "\<not> committed_failure KeyError" "\<not> committed_failure IndexError" "\<not> committed_failure DuplicateArtifactError"
  "\<not> committed_failure DuplicateAgentError" "\<not> committed_failure EventNotFoundError"
  by (simp_all add: committed_failure_def)

text \<open>A check is tame when it raises no committed failure.\<close>

definition tame :: "kexn + 'a \<Rightarrow> bool" where
  "tame r \<longleftrightarrow> (\<forall>e. r = Inl e \<longrightarrow> \<not> committed_failure e)"

lemma tame_sum [simp]: "tame (Inr x)" "tame (Inl e) = (\<not> committed_failure e)"
  by (simp_all add: tame_def)

lemma tame_required [simp]: "tame (validate_required_string v n)"
  by (simp add: validate_required_string_def)

lemma tame_optional [simp]: "tame (validate_optional_string v n)"
  by (cases v) (simp_all add: validate_optional_string_def)

lemma tame_check [simp]: "tame (check b y) \<longleftrightarrow> b \<or> \<not> committed_failure y"
  by (simp add: check_def)

lemma tame_all [simp]: "(\<forall>c\<in>set cs. tame c) \<Longrightarrow> tame (checks cs)"
  by (induction cs rule: checks.induct) simp_all

lemma tame_strings [simp]: "tame (validated_strings vs n b)"
  by (simp add: validated_strings_def)

lemma tame_event [simp]: "tame (validate_event x)"
  by (simp add: validate_event_def)

lemma tame_status [simp]: "tame (status_contract e)"
  by (simp add: status_contract_def split: execution_status.split)

lemma tame_validators [simp]:
  "tame (validate_work_package p)" "tame (validate_work_item w)" "tame (validate_assignment a)"
  "tame (validate_execution e)" "tame (validate_recovery_record r)" "tame (validate_workflow f)"
  by (simp_all add: validate_work_package_def validate_work_item_def validate_assignment_def validate_execution_def
      validate_recovery_record_def validate_workflow_def)

lemma tame_policies [simp]:
  "tame (require_active a)" "tame (require_stage b c)" "tame (require_stage_transition b c)"
  "tame (require_approval_stage b)" "tame (require_release_stage b)" "tame (require_cancellable b)"
  "tame (require_recoverable b)" "tame (validate_assignment_status_transition x y)"
  by (simp_all add: require_active_def require_stage_def require_stage_transition_def require_approval_stage_def
      require_release_stage_def require_cancellable_def require_recoverable_def
      validate_assignment_status_transition_def)

lemma tame_case [simp]: "tame r \<Longrightarrow> tame (case r of Inl e \<Rightarrow> Inl e | Inr x \<Rightarrow> Inr (f x))"
  by (cases r) auto

lemma tameD: "tame r \<Longrightarrow> r = Inl e \<Longrightarrow> \<not> committed_failure e"
  by (simp add: tame_def)

lemma plain_of_sum [plain_rules]: "tame r \<Longrightarrow> plain (of_sum r)"
  by (auto simp: plain_def of_sum_def dest: tameD)

lemma view_bus [simp]: "view (s\<lparr>k_bus := b\<rparr>) = view s"
  by (simp add: view_def count_active_assignments_def)

lemma view_packages: "vi (view s) (pid, wid) = (case map_of (k_packages s) pid of None \<Rightarrow> None | Some p \<Rightarrow> item_view p wid)"
  "va (view (s\<lparr>k_packages := d\<rparr>)) = va (view s)" "vc (view (s\<lparr>k_packages := d\<rparr>)) = vc (view s)"
  "vg (view (s\<lparr>k_packages := d\<rparr>)) = vg (view s)" "vf (view (s\<lparr>k_packages := d\<rparr>)) = vf (view s)"
  "ve (view (s\<lparr>k_packages := d\<rparr>)) = ve (view s)"
  by (simp_all add: view_def count_active_assignments_def)

lemma in_tx_bus: "in_tx s \<Longrightarrow> b_tx b \<noteq> None \<Longrightarrow> in_tx (s\<lparr>k_bus := b\<rparr>)"
  by (simp add: in_tx_def)

lemma quiet_view: "quiet m \<Longrightarrow> m s = (r, t) \<Longrightarrow> in_tx s \<Longrightarrow> in_tx t \<and> view t = view s"
  using quietD[of m s r t] by (auto intro: in_tx_bus)

lemma emit_tx: "b_tx b \<noteq> None \<Longrightarrow> emit_event e b = (r, b') \<Longrightarrow> r = Inr e \<and> b_tx b' \<noteq> None"
  by (auto simp: emit_event_def split: option.splits)

lemma quiet_same: "(\<And>s. snd (m s) = s) \<Longrightarrow> quiet m"
  unfolding quiet_def in_tx_def by (metis kernel.cases kernel.select_convs(10) kernel.update_convs(10) snd_conv)

lemma quiet_pure [quiet_rules]: "quiet (ok x)" "quiet (fail e)" "quiet (gets f)" "quiet (require b e)" "quiet (of_sum r)"
  by (rule quiet_same; simp add: run_simps)+

lemma quiet_bnd [quiet_rules]: "quiet m \<Longrightarrow> (\<And>x. quiet (f x)) \<Longrightarrow> quiet (bnd m f)"
proof -
  assume m: "quiet m" and f: "\<And>x. quiet (f x)"
  show "quiet (bnd m f)"
    unfolding quiet_def
  proof (intro allI impI)
    fix s r t
    assume tx: "in_tx s" and run: "bnd m f s = (r, t)"
    obtain r1 u where u: "m s = (r1, u)" by fastforce
    obtain b where b: "u = s\<lparr>k_bus := b\<rparr>" "b_tx b \<noteq> None" using quietD[OF m u tx] by blast
    show "\<exists>b. t = s\<lparr>k_bus := b\<rparr> \<and> b_tx b \<noteq> None"
    proof (cases r1)
      case (Inl e)
      then have "t = u" using run u by (simp add: bnd_def)
      then show ?thesis using b by blast
    next
      case (Inr x)
      then have "f x u = (r, t)" using run u by (simp add: bnd_def)
      then obtain b' where "t = u\<lparr>k_bus := b'\<rparr>" "b_tx b' \<noteq> None"
        using quietD[OF f] in_tx_bus[OF tx b(2)] b(1) by blast
      then have "t = s\<lparr>k_bus := b'\<rparr>" using b by simp
      then show ?thesis using \<open>b_tx b' \<noteq> None\<close> by blast
    qed
  qed
qed

lemma quiet_if [quiet_rules]: "quiet m \<Longrightarrow> quiet n \<Longrightarrow> quiet (if b then m else n)"
  by simp

lemma quiet_option [quiet_rules]:
  "quiet m \<Longrightarrow> (\<And>y. quiet (f y)) \<Longrightarrow> quiet (case x of None \<Rightarrow> m | Some y \<Rightarrow> f y)"
  by (cases x) auto

lemma quiet_on_bus: "(\<And>b r b'. b_tx b \<noteq> None \<Longrightarrow> m b = (r, b') \<Longrightarrow> b_tx b' \<noteq> None) \<Longrightarrow> quiet (on_bus m)"
  unfolding quiet_def on_bus_def zoom_def in_tx_def by (fastforce split: prod.splits)

lemma quiet_now [quiet_rules]: "quiet (utc_now K)"
  unfolding utc_now_def by (rule quiet_on_bus) (auto simp: tick_def)

lemma publish_tx:
  assumes "b_tx b \<noteq> None" and "publish K et ty aid pl corr caus None b = (r, b')"
  shows "b_tx b' \<noteq> None \<and> (\<forall>e. r = Inl e \<longrightarrow> \<not> committed_failure e)"
proof -
  let ?c = "checks [validate_required_string ty ''aggregate_type'', validate_required_string aid ''aggregate_id'',
       validate_optional_string corr ''correlation_id'', validate_optional_string caus ''causation_id'']"
  have n: "tame (next_sequence_number ty aid st)" for st
    by (simp add: next_sequence)
  have c: "tame ?c" by simp
  show ?thesis
  proof (cases ?c)
    case (Inl e)
    then have "r = Inl e \<and> b' = b" using assms(2) by (simp add: publish_def bnd_of_sum)
    then show ?thesis using assms(1) tameD[OF c Inl] by simp
  next
    case (Inr u)
    note run = assms(2)[unfolded publish_def bnd_of_sum Inr sum.case bnd_gets Let_def option.case]
    show ?thesis
    proof (cases "next_sequence_number ty aid (b_store b)")
      case (Inl e)
      then have "r = Inl e \<and> b' = b" using run by (simp add: bnd_of_sum)
      then show ?thesis using assms(1) tameD[OF n Inl] by simp
    next
      case (Inr m)
      let ?k = "m + int (length (filter (of_aggregate ty aid) (staged b)))"
      let ?x = "\<lparr>re_id = event_id ty aid ?k et, re_event_type = et, re_aggregate_type = ty,
        re_aggregate_id = aid, re_sequence = ?k, re_payload = pl, re_occurred_at = kclock K (b_ticks b),
        re_correlation = corr, re_causation = caus\<rparr>"
      have "(case validate_event ?x of Inl e \<Rightarrow> (Inl e, b\<lparr>b_ticks := Suc (b_ticks b)\<rparr>)
          | Inr _ \<Rightarrow> emit_event ?x (b\<lparr>b_ticks := Suc (b_ticks b)\<rparr>)) = (r, b')"
        using run Inr by (simp add: bnd_of_sum bnd_def[of "tick K"] tick_def)
      then show ?thesis
        using assms(1) tameD[OF tame_event, of ?x]
        by (cases "validate_event ?x") (auto dest: emit_tx[rotated])
    qed
  qed
qed

lemma quiet_publish [quiet_rules]: "quiet (kpublish K et ty aid pl corr caus)"
proof -
  have q: "quiet (bnd (on_bus (publish K et ty aid pl corr caus None)) (\<lambda>_. ok ()))"
    by (intro quiet_rules quiet_on_bus) (use publish_tx in blast)
  then show ?thesis
    unfolding quiet_def kpublish_def
    by (metis in_tx_def)
qed

lemma plain_publish [plain_rules]: "plain (kpublish K et ty aid pl corr caus)"
  unfolding plain_def
proof (intro allI impI)
  fix s e t
  assume tx: "in_tx s" and run: "kpublish K et ty aid pl corr caus s = (Inl e, t)"
  obtain r b where p: "publish K et ty aid pl corr caus None (k_bus s) = (r, b)" by fastforce
  then have "r = Inl e" using run tx
    by (cases r) (auto simp: kpublish_def on_bus_def zoom_def bnd_def ok_def in_tx_def)
  then show "\<not> committed_failure e" using publish_tx[OF _ p] tx by (simp add: in_tx_def)
qed

lemma plain_now [plain_rules]: "plain (utc_now K)"
  by (auto simp: plain_def utc_now_def on_bus_def zoom_def tick_def)

end
