(* ===== verification/Kernel_Specs.thy ===== *)
theory Kernel_Specs
  imports Kernel_Views
begin

section \<open>Specifications of the engine, the registry and the orchestrator\<close>

text \<open>
  Inside a transaction: what each lookup returns, and for each operation the view it leaves when it
  returns, the condition under which it returns, and the failures it may raise.
\<close>

subsection \<open>Lookups\<close>

lemma get_work_package_Inr: "get_work_package pid s = (Inr p, t) \<longleftrightarrow> t = s \<and> map_of (k_packages s) pid = Some p"
  by (auto simp: get_work_package_def bnd_gets fail_def ok_def split: option.splits)

lemma get_work_item_run: "get_work_item pid wid s =
    (case map_of (k_packages s) pid of None \<Rightarrow> (Inl WorkPackageNotFoundError, s)
     | Some p \<Rightarrow> (case find_item wid (wp_items p) of None \<Rightarrow> (Inl WorkItemNotFoundError, s) | Some w \<Rightarrow> (Inr w, s)))"
  by (simp add: get_work_item_def get_work_package_def bnd_gets bnd_assoc fail_def ok_def split: option.split)

lemma get_work_item_Inr: "get_work_item pid wid s = (Inr w, t) \<longleftrightarrow>
    t = s \<and> (\<exists>p. map_of (k_packages s) pid = Some p \<and> find_item wid (wp_items p) = Some w)"
  by (auto simp: get_work_item_run split: option.splits)

lemma get_agent_Inr: "get_agent i s = (Inr a, t) \<longleftrightarrow> t = s \<and> \<not> blank i \<and> map_of (k_agents s) i = Some a"
  by (auto simp: get_agent_def bnd_of_sum bnd_gets validate_required_string_def fail_def ok_def split: option.splits)

lemma get_assignment_Inr: "get_assignment i s = (Inr a, t) \<longleftrightarrow> t = s \<and> \<not> blank i \<and> map_of (k_assignments s) i = Some a"
  by (auto simp: get_assignment_def bnd_of_sum bnd_gets validate_required_string_def fail_def ok_def split: option.splits)

lemma get_execution_Inr: "get_execution i s = (Inr a, t) \<longleftrightarrow> t = s \<and> \<not> blank i \<and> map_of (k_executions s) i = Some a"
  by (auto simp: get_execution_def bnd_of_sum bnd_gets validate_required_string_def fail_def ok_def split: option.splits)

lemma get_workflow_Inr: "get_workflow i s = (Inr w, t) \<longleftrightarrow> t = s \<and> \<not> blank i \<and> map_of (k_workflows s) i = Some w"
  by (auto simp: get_workflow_def bnd_of_sum bnd_gets validate_required_string_def fail_def ok_def split: option.splits)

lemma get_request_Inr: "get_request i s = (Inr r, t) \<longleftrightarrow> t = s \<and> map_of (k_requests s) i = Some r"
  by (auto simp: get_request_def bnd_gets fail_def ok_def split: option.splits)

lemmas lookup_Inr = get_work_package_Inr get_work_item_Inr get_agent_Inr get_assignment_Inr get_execution_Inr
  get_workflow_Inr get_request_Inr

lemma quiet_lookups [quiet_rules]:
  "quiet (get_work_package pid)" "quiet (get_work_item pid wid)" "quiet (get_agent i)" "quiet (get_assignment i)"
  "quiet (get_execution i)" "quiet (get_workflow i)" "quiet (get_request i)"
  unfolding get_work_package_def get_work_item_def get_agent_def get_assignment_def get_execution_def
    get_workflow_def get_request_def
  by (intro quiet_rules)+

lemma plain_lookups [plain_rules]:
  "plain (get_work_package pid)" "plain (get_work_item pid wid)" "plain (get_agent i)" "plain (get_assignment i)"
  "plain (get_execution i)" "plain (get_workflow i)" "plain (get_request i)"
  unfolding get_work_package_def get_work_item_def get_agent_def get_assignment_def get_execution_def
    get_workflow_def get_request_def
  by (auto intro!: plain_rules joins_rules)

lemmas joins_quiets [joins_rules] = quiet_lookups[THEN joins_quiet] quiet_now[THEN joins_quiet]
  quiet_publish[THEN joins_quiet]

lemma joins_puts [joins_rules]:
  "joins (put_package pid f)" "joins (put_item pid wid g)" "joins (put_agent i a)" "joins (put_assignment i b)"
  "joins (put_execution e)" "joins (put_workflow i h)" "joins (drop_record rid)" "joins (restore_agent a)"
  unfolding put_package_def put_item_def put_agent_def put_assignment_def put_execution_def put_workflow_def
    drop_record_def restore_agent_def
  by (intro joins_rules; simp)+

lemma plain_puts [plain_rules]:
  "plain (put_package pid f)" "plain (put_item pid wid g)" "plain (put_agent i a)" "plain (put_assignment i b)"
  "plain (put_execution e)" "plain (put_workflow i h)" "plain (drop_record rid)" "plain (restore_agent a)"
  unfolding put_package_def put_item_def put_agent_def put_assignment_def put_execution_def put_workflow_def
    drop_record_def restore_agent_def
  by (intro plain_rules)+

lemma joins_mark [joins_rules]: "joins (mark_updated K pid)"
  unfolding mark_updated_def by (intro joins_rules)

lemma plain_mark [plain_rules]: "plain (mark_updated K pid)"
  unfolding mark_updated_def by (intro plain_rules joins_rules)

text \<open>Running a returning operation: the lookups, the clock and the publications in between.\<close>

lemma publish_Inr: "kpublish K et ty aid pl corr caus s = (Inr u, t) \<Longrightarrow> in_tx s \<Longrightarrow> in_tx t \<and> view t = view s"
  using quiet_view[OF quiet_publish] .

lemma now_Inr: "utc_now K s = (r, t) \<longleftrightarrow> r = Inr (kclock K (b_ticks (k_bus s)))
    \<and> t = s\<lparr>k_bus := (k_bus s)\<lparr>b_ticks := Suc (b_ticks (k_bus s))\<rparr>\<rparr>"
  by (auto simp: utc_now_def on_bus_def zoom_def tick_def)

lemma bnd_utc_now: "bnd (utc_now K) f s = f (kclock K (b_ticks (k_bus s)))
    (s\<lparr>k_bus := (k_bus s)\<lparr>b_ticks := Suc (b_ticks (k_bus s))\<rparr>\<rparr>)"
  by (simp add: bnd_def utc_now_def on_bus_def zoom_def tick_def)

lemma in_tx_ticks [simp]: "in_tx (s\<lparr>k_bus := (k_bus s)\<lparr>b_ticks := n\<rparr>\<rparr>) = in_tx s"
  by (simp add: in_tx_def)

subsection \<open>Moving a work item\<close>

lemma put_package_run: "put_package pid f s = (Inr (), s\<lparr>k_packages :=
    (case map_of (k_packages s) pid of None \<Rightarrow> k_packages s | Some p \<Rightarrow> dset pid (f p) (k_packages s))\<rparr>)"
  by (simp add: put_package_def upd_def)

lemma view_same_items:
  "map_of (k_packages s) pid = Some p \<Longrightarrow> wp_items p' = wp_items p \<Longrightarrow>
    view (s\<lparr>k_packages := dset pid p' (k_packages s)\<rparr>) = view s"
  by (auto simp: view_def fun_eq_iff item_view_def count_active_assignments_def)

lemma view_put_item:
  assumes "map_of (k_packages s) pid = Some p" and "find_item wid (wp_items p) = Some w"
    and "wp_items p' = update_item wid f (wp_items p)" and "\<And>v. wi_id (f v) = wi_id v"
  shows "view (s\<lparr>k_packages := dset pid p' (k_packages s)\<rparr>)
    = (view s)\<lparr>vi := (vi (view s))((pid, wid) \<mapsto> wi_state (f w))\<rparr>"
  using assms(1,2)
  by (auto simp: view_def fun_eq_iff item_view_def count_active_assignments_def assms(3) find_update_item[OF assms(4)])

lemma view_itemI:
  "map_of (k_packages s) pid = Some p \<Longrightarrow> find_item wid (wp_items p) = Some w \<Longrightarrow> vi (view s) (pid, wid) = Some (wi_state w)"
  by (simp add: view_packages(1) item_view_def)

text \<open>The common tail of the two ways to move a work item.\<close>

lemma move_item_run:
  assumes tx: "in_tx s" and p: "map_of (k_packages s) pid = Some p" and w: "find_item wid (wp_items p) = Some w"
    and w': "wi_id w' = wi_id w"
    and run: "bnd (put_item pid wid (\<lambda>_. w')) (\<lambda>_. bnd (mark_updated K pid) (\<lambda>_.
       kpublish K et ''WORK_ITEM'' aid pl None None)) s = (r, t)"
  shows "in_tx t \<and> view t = (view s)\<lparr>vi := (vi (view s))((pid, wid) \<mapsto> wi_state w')\<rparr>
    \<and> (\<forall>e. r = Inl e \<longrightarrow> \<not> committed_failure e)"
proof -
  let ?p = "p\<lparr>wp_items := update_item wid (\<lambda>_. w') (wp_items p)\<rparr>"
  let ?s = "s\<lparr>k_packages := dset pid ?p (k_packages s)\<rparr>"
  let ?n = "b_ticks (k_bus s)"
  let ?p' = "?p\<lparr>wp_updated_at := kclock K ?n\<rparr>"
  let ?u = "?s\<lparr>k_bus := (k_bus s)\<lparr>b_ticks := Suc ?n\<rparr>, k_packages := dset pid ?p' (k_packages ?s)\<rparr>"
  have run': "kpublish K et ''WORK_ITEM'' aid pl None None ?u = (r, t)"
    using run p
    by (simp add: put_item_def mark_updated_def bnd_assoc bnd_def[of "put_package _ _"] put_package_run bnd_utc_now)
  have tx': "in_tx ?u" using tx by (simp add: in_tx_def)
  have "view ?u = (view s)\<lparr>vi := (vi (view s))((pid, wid) \<mapsto> wi_state w')\<rparr>"
  proof -
    have 1: "find_item j (update_item wid (\<lambda>_. w') (wp_items p)) = (if j = wid then Some w' else find_item j (wp_items p))" for j
      using find_replace_item[OF w] w' find_item_id[OF w] by simp
    have "view ?u = view (?s\<lparr>k_packages := dset pid ?p' (k_packages ?s)\<rparr>)"
      by (simp add: view_def count_active_assignments_def)
    also have "\<dots> = view ?s" by (rule view_same_items[where p = ?p]) simp_all
    also have "\<dots> = (view s)\<lparr>vi := (vi (view s))((pid, wid) \<mapsto> wi_state w')\<rparr>"
      using p by (auto simp: view_def fun_eq_iff item_view_def count_active_assignments_def 1)
    finally show ?thesis .
  qed
  then show ?thesis
    using quiet_view[OF quiet_publish run' tx'] plainD[OF plain_publish _ tx'] run' by auto
qed

lemma change_item_spec:
  assumes tx: "in_tx s" and run: "change_work_item_state K pid wid b s = (r, t)"
  shows "in_tx t \<and> (\<forall>e. r = Inl e \<longrightarrow> \<not> committed_failure e) \<and>
    (view t = view s \<and> (\<exists>e. r = Inl e) \<or>
     (\<exists>a. vi (view s) (pid, wid) = Some a \<and> b \<in> set (lifecycle_transitions a))
       \<and> view t = (view s)\<lparr>vi := (vi (view s))((pid, wid) \<mapsto> b)\<rparr>)"
proof (cases "\<exists>p w. map_of (k_packages s) pid = Some p \<and> find_item wid (wp_items p) = Some w
    \<and> b \<in> set (lifecycle_transitions (wi_state w))")
  case True
  then obtain p w where p: "map_of (k_packages s) pid = Some p" "find_item wid (wp_items p) = Some w"
    "b \<in> set (lifecycle_transitions (wi_state w))" by blast
  have get: "get_work_item pid wid s = (Inr w, s)" using p(1,2) by (simp add: get_work_item_Inr)
  have ch: "change_state b w = Inr (w\<lparr>wi_state := b\<rparr>)"
    using p(3) by (simp add: change_state_def validate_lifecycle_transition_def check_def)
  have "in_tx t \<and> view t = (view s)\<lparr>vi := (vi (view s))((pid, wid) \<mapsto> wi_state (w\<lparr>wi_state := b\<rparr>))\<rparr>
      \<and> (\<forall>e. r = Inl e \<longrightarrow> \<not> committed_failure e)"
    using run tx unfolding change_work_item_state_def
    by (intro move_item_run[OF tx p(1,2), where w' = "w\<lparr>wi_state := b\<rparr>"])
      (simp_all add: bnd_Inr[where m = "get_work_item pid wid", OF get] bnd_of_sum ch)
  then show ?thesis using view_itemI[OF p(1,2)] p(3) by auto
next
  case False
  have "\<exists>e. (r, t) = (Inl e, s) \<and> \<not> committed_failure e"
  proof (cases "get_work_item pid wid s")
    case (Pair x u)
    have u: "u = s" using Pair by (auto simp: get_work_item_run split: option.splits)
    show ?thesis
    proof (cases x)
      case (Inl e)
      then show ?thesis
        using run tx Pair u plainD[OF plain_lookups(2) _ tx, of pid wid e s]
        by (simp add: change_work_item_state_def bnd_def) blast
    next
      case (Inr w)
      then have "b \<notin> set (lifecycle_transitions (wi_state w))" using False Pair by (auto simp: get_work_item_Inr)
      then have "change_state b w = Inl InvalidLifecycleTransitionError"
        by (simp add: change_state_def validate_lifecycle_transition_def check_def)
      then show ?thesis using run tx Pair u Inr 
        by (simp add: change_work_item_state_def bnd_Inr bnd_of_sum) (metis committed_simps(4))
    qed
  qed
  then show ?thesis using tx by auto
qed

lemma recover_item_spec:
  assumes tx: "in_tx s" and run: "recover_work_item_state K pid wid b reason s = (r, t)"
  shows "in_tx t \<and> (\<forall>e. r = Inl e \<longrightarrow> \<not> committed_failure e) \<and>
    (view t = view s \<and> (\<exists>e. r = Inl e) \<or>
     b = ASSIGNED \<and> vi (view s) (pid, wid) = Some RUNNING
       \<and> view t = (view s)\<lparr>vi := (vi (view s))((pid, wid) \<mapsto> ASSIGNED)\<rparr>)"
proof (cases "\<exists>p w. map_of (k_packages s) pid = Some p \<and> find_item wid (wp_items p) = Some w
    \<and> (\<exists>w'. recover_state b reason w = Inr w')")
  case True
  then obtain p w w' where p: "map_of (k_packages s) pid = Some p" "find_item wid (wp_items p) = Some w"
    and rec: "recover_state b reason w = Inr w'" by blast
  have get: "get_work_item pid wid s = (Inr w, s)" using p(1,2) by (simp add: get_work_item_Inr)
  have w': "w' = w\<lparr>wi_state := ASSIGNED\<rparr>" "wi_state w = RUNNING" "b = ASSIGNED"
    using rec by (auto simp: recover_state_def checks_Inr split: sum.splits)
  have "in_tx t \<and> view t = (view s)\<lparr>vi := (vi (view s))((pid, wid) \<mapsto> wi_state w')\<rparr>
      \<and> (\<forall>e. r = Inl e \<longrightarrow> \<not> committed_failure e)"
    using run tx unfolding recover_work_item_state_def
    by (intro move_item_run[OF tx p(1,2), where w' = w'])
      (simp_all add: bnd_Inr[where m = "get_work_item pid wid", OF get] bnd_of_sum rec w'(1))
  then show ?thesis using view_itemI[OF p(1,2)] w' by simp
next
  case False
  have "t = s \<and> (\<exists>e. r = Inl e \<and> \<not> committed_failure e)"
  proof (cases "fst (get_work_item pid wid s)")
    case (Inl e)
    then have "get_work_item pid wid s = (Inl e, s)" by (auto simp: get_work_item_run split: option.splits)
    then show ?thesis
      using run tx plainD[OF plain_lookups(2), of pid wid s e s] by (auto simp: recover_work_item_state_def bnd_Inl)
  next
    case (Inr w)
    then have g: "get_work_item pid wid s = (Inr w, s)" by (auto simp: get_work_item_run split: option.splits)
    then obtain e where e: "recover_state b reason w = Inl e"
      using False by (cases "recover_state b reason w") (auto simp: get_work_item_Inr)
    have "tame (recover_state b reason w)" by (simp add: recover_state_def)
    then show ?thesis
      using run tx g e by (auto simp: recover_work_item_state_def bnd_Inr bnd_of_sum dest: tameD)
  qed
  then show ?thesis using tx by auto
qed

subsection \<open>New packages and items\<close>

lemma create_package_spec:
  assumes tx: "in_tx s" and run: "create_work_package K i title descr owner s = (Inr p, t)"
  shows "in_tx t \<and> view t = view s \<and> vi (view s) (i, wid) = None
    \<and> (\<exists>p. map_of (k_packages t) i = Some p \<and> wp_items p = [])"
proof -
  obtain p' n u where fresh: "map_of (k_packages s) i = None" and p': "wp_items p' = []"
    and pub: "kpublish K ''WORK_PACKAGE_CREATED'' ''WORK_PACKAGE'' i
       (JObj [(''title'', JStr title), (''owner'', JStr owner)]) None None
       (s\<lparr>k_bus := (k_bus s)\<lparr>b_ticks := n\<rparr>, k_packages := dset i p' (k_packages s)\<rparr>) = (Inr u, t)"
    using run tx unfolding create_work_package_def atomic_joined[OF tx] Let_def
    by (auto simp: bnd_gets bnd_require bnd_utc_now bnd_of_sum bnd_upd map_of_eq_None_iff image_iff
        split: if_splits sum.splits elim!: bnd_InrE) (force simp: ok_def)
  let ?u = "s\<lparr>k_bus := (k_bus s)\<lparr>b_ticks := n\<rparr>, k_packages := dset i p' (k_packages s)\<rparr>"
  have tx': "in_tx ?u" using tx by (simp add: in_tx_def)
  obtain b where b: "t = ?u\<lparr>k_bus := b\<rparr>" "b_tx b \<noteq> None" using quietD[OF quiet_publish pub tx'] by blast
  have "view t = view s"
    using fresh p' by (auto simp: b view_def fun_eq_iff count_active_assignments_def item_view_def)
  then show ?thesis using b tx' fresh p' in_tx_bus[OF tx' b(2)] by (auto simp: view_packages)
qed

lemma add_item_spec:
  assumes tx: "in_tx s" and run: "add_work_item K pid i title descr prio asg s = (Inr w, t)"
  shows "in_tx t \<and> vi (view s) (pid, i) = None \<and> view t = (view s)\<lparr>vi := (vi (view s))((pid, i) \<mapsto> CREATED)\<rparr>"
proof -
  let ?w = "\<lparr>wi_id = i, wi_title = title, wi_description = descr, wi_priority = prio,
              wi_dependencies = [], wi_assigned_to = asg, wi_state = CREATED\<rparr>"
  let ?pub = "kpublish K ''WORK_ITEM_CREATED'' ''WORK_ITEM'' (pid @ '':'' @ i)
       (JObj [(''package_id'', JStr pid), (''work_item_id'', JStr i)]) None None"
  let ?put = "put_package pid (\<lambda>p. p\<lparr>wp_items := wp_items p @ [?w]\<rparr>)"
  note run1 = run[unfolded add_work_item_def atomic_joined[OF tx] Let_def]
  obtain p where get: "get_work_package pid s = (Inr p, s)"
    using run1 by (auto simp: get_work_package_Inr elim!: bnd_InrE)
  note run2 = run1[unfolded bnd_Inr[where m = "get_work_package pid", OF get] bnd_of_sum]
  have run3: "bnd (package_add_item K pid ?w) (\<lambda>_. bnd ?pub (\<lambda>_. ok ?w)) s = (Inr w, t)"
    using run2 by (cases "validate_work_item ?w") simp_all
  note run4 = run3[unfolded package_add_item_def bnd_assoc bnd_Inr[where m = "get_work_package pid", OF get]
      bnd_require]
  have p: "map_of (k_packages s) pid = Some p" using get by (simp add: get_work_package_Inr)
  have fresh: "i \<notin> set (map wi_id (wp_items p))"
    and run5: "bnd ?put (\<lambda>_. bnd (mark_updated K pid) (\<lambda>_. bnd ?pub (\<lambda>_. ok ?w))) s = (Inr w, t)"
    using run4 by (simp_all split: if_splits)
  have run6: "bnd (bnd ?put (\<lambda>_. mark_updated K pid)) (\<lambda>_. bnd ?pub (\<lambda>_. ok ?w)) s = (Inr w, t)"
    using run5 by (simp add: bnd_assoc)
  obtain u v where upd: "bnd ?put (\<lambda>_. mark_updated K pid) s = (Inr u, v)"
    and run7: "bnd ?pub (\<lambda>_. ok ?w) v = (Inr w, t)"
    using run6 by (rule bnd_InrE)
  have pub: "?pub v = (Inr (), t)" using run7 by (auto simp: ok_def elim!: bnd_InrE)
  let ?p = "p\<lparr>wp_items := wp_items p @ [?w]\<rparr>"
  let ?s = "s\<lparr>k_packages := dset pid ?p (k_packages s)\<rparr>"
  let ?n = "b_ticks (k_bus s)"
  let ?p' = "?p\<lparr>wp_updated_at := kclock K ?n\<rparr>"
  have v: "v = ?s\<lparr>k_bus := (k_bus s)\<lparr>b_ticks := Suc ?n\<rparr>, k_packages := dset pid ?p' (k_packages ?s)\<rparr>"
    using upd p by (simp add: mark_updated_def bnd_def[of "put_package _ _"] put_package_run bnd_utc_now)
  have tx': "in_tx v" using tx by (simp add: in_tx_def v)
  have none: "find_item i (wp_items p) = None" using fresh find_item_None[of i] by simp
  have "view v = view (?s\<lparr>k_packages := dset pid ?p' (k_packages ?s)\<rparr>)"
    by (simp add: v view_def count_active_assignments_def)
  also have "\<dots> = view ?s" by (rule view_same_items[where p = ?p]) simp_all
  also have "\<dots> = (view s)\<lparr>vi := (vi (view s))((pid, i) \<mapsto> CREATED)\<rparr>"
    using p none by (auto simp: view_def fun_eq_iff item_view_def count_active_assignments_def find_item_append
        split: option.splits)
  finally show ?thesis using quiet_view[OF quiet_publish pub tx'] p none by (simp add: view_packages item_view_def)
qed

subsection \<open>Agents\<close>

lemma dset_map_same:
  "map_of d k = Some a \<Longrightarrow> h k b = h k a \<Longrightarrow> map (\<lambda>(k, a). h k a) (dset k b d) = map (\<lambda>(k, a). h k a) d"
  by (induction d) (auto split: if_splits)

lemma update_agent_spec:
  assumes tx: "in_tx s" and run: "update_agent_state K i b s = (r, t)"
  shows "in_tx t \<and> view t = view s \<and> (\<forall>e. r = Inl e \<longrightarrow> \<not> committed_failure e)"
proof (cases "\<exists>a a'. get_agent i s = (Inr a, s) \<and> change_agent_state b a = Inr a'")
  case True
  then obtain a a' where a: "get_agent i s = (Inr a, s)" "change_agent_state b a = Inr a'" by blast
  let ?s = "s\<lparr>k_agents := dset i a' (k_agents s)\<rparr>"
  have same: "ag_id a' = ag_id a" "ag_max_parallel_tasks a' = ag_max_parallel_tasks a" "map_of (k_agents s) i = Some a"
    using a by (auto simp: change_agent_state_def get_agent_Inr split: sum.splits)
  have vg: "map (\<lambda>(k, a). (k, ag_id a, ag_max_parallel_tasks a)) (dset i a' (k_agents s))
      = map (\<lambda>(k, a). (k, ag_id a, ag_max_parallel_tasks a)) (k_agents s)"
    using dset_map_same[OF same(3), where h = "\<lambda>k a. (k, ag_id a, ag_max_parallel_tasks a)" and b = a'] same by simp
  have v: "view ?s = view s" and tx': "in_tx ?s"
    using tx by (auto simp: view_def count_active_assignments_def vg in_tx_def)
  let ?m = "bnd (kpublish K ''AGENT_STATE_CHANGED'' ''AGENT'' i
       (JObj [(''previous_state'', JStr (agent_state_name (ag_state a))),
         (''new_state'', JStr (agent_state_name b))]) None None) (\<lambda>_. ok a')"
  have m: "quiet ?m" "plain ?m"
    by (intro quiet_rules) (intro plain_rules joins_quiet quiet_rules)
  have "?m ?s = (r, t)"
    using run tx a by (simp add: update_agent_state_def bnd_Inr bnd_of_sum put_agent_def bnd_upd)
  then show ?thesis using quiet_view[OF m(1) _ tx'] plainD[OF m(2) _ tx'] v by auto
next
  case False
  have "get_agent i s = (r', s') \<Longrightarrow> s' = s" for r' s'
    by (auto simp: get_agent_def bnd_of_sum bnd_gets fail_def ok_def split: sum.splits option.splits)
  then have "t = s \<and> (\<exists>e. r = Inl e)"
    using run tx False
    by (cases "get_agent i s")
      (auto simp: update_agent_state_def bnd_def[of "get_agent i"] bnd_of_sum split: sum.splits, metis)
  moreover have "plain (update_agent_state K i b)"
    unfolding update_agent_state_def
    by (intro plain_rules joins_rules) (simp add: change_agent_state_def validate_agent_state_transition_def)
  ultimately show ?thesis using tx run plainD by metis
qed

end
