(* ===== verification/Partial_Correctness.thy ===== *)
theory Partial_Correctness
  imports Prelude
begin

section \<open>A calculus for the returning and the raising runs of an operation\<close>

text \<open>
  \<open>post m s Q\<close>: if \<open>m\<close> returns from \<open>s\<close>, then with a value and a state of \<open>Q\<close>; \<open>exc m s E\<close>: if it
  raises, then with an exception and a state of \<open>E\<close>. Each statement of
  the model has one equation that computes it backwards (the collection \<open>post_simps\<close>), and each
  operation a rule (\<open>post_rules\<close>), so that a specification is proved by walking through the body
  once. Claims that an operation does return are proved apart.
\<close>

definition post :: "('s, 'e, 'a) sx \<Rightarrow> 's \<Rightarrow> ('a \<Rightarrow> 's \<Rightarrow> bool) \<Rightarrow> bool" where
  "post m s Q \<longleftrightarrow> (\<forall>x t. m s = (Inr x, t) \<longrightarrow> Q x t)"

named_theorems post_simps \<open>backward equations of the statements\<close>
named_theorems post_rules \<open>rules for operations\<close>

lemma postI: "(\<And>x t. m s = (Inr x, t) \<Longrightarrow> Q x t) \<Longrightarrow> post m s Q"
  by (simp add: post_def)

lemma postD: "post m s Q \<Longrightarrow> m s = (Inr x, t) \<Longrightarrow> Q x t"
  by (simp add: post_def)

lemma post_mono: "post m s P \<Longrightarrow> (\<And>x t. P x t \<Longrightarrow> Q x t) \<Longrightarrow> post m s Q"
  by (simp add: post_def)

lemma post_bnd [post_simps]: "post (bnd m f) s Q = post m s (\<lambda>x t. post (f x) t Q)"
  by (auto simp: post_def bnd_def split: prod.split sum.split)

lemma post_pure [post_simps]:
  "post (ok x) s Q = Q x s" "post (fail e) s Q = True" "post (gets g) s P = P (g s) s"
  "post (upd h) s R = R () (h s)" "post (require b e) s R = (b \<longrightarrow> R () s)"
  by (auto simp: post_def run_simps)

lemma post_of_sum [post_simps]: "post (of_sum r) s Q = (\<forall>x. r = Inr x \<longrightarrow> Q x s)"
  by (simp add: post_def of_sum_def)

lemma post_if [post_simps]: "post (if b then m else n) s Q = ((b \<longrightarrow> post m s Q) \<and> (\<not> b \<longrightarrow> post n s Q))"
  by simp

lemma post_option [post_simps]:
  "post (case x of None \<Rightarrow> m | Some y \<Rightarrow> f y) s Q
    = ((x = None \<longrightarrow> post m s Q) \<and> (\<forall>y. x = Some y \<longrightarrow> post (f y) s Q))"
  by (cases x) auto

lemma post_split [post_simps]: "post (case p of (x, y) \<Rightarrow> f x y) s Q = (\<forall>x y. p = (x, y) \<longrightarrow> post (f x y) s Q)"
  by (cases p) auto

text \<open>A handler that always raises again lets only the body return.\<close>

definition never :: "('s, 'e, 'a) sx \<Rightarrow> bool" where
  "never m \<longleftrightarrow> (\<forall>s x t. m s \<noteq> (Inr x, t))"

named_theorems never_rules

lemma never_fail [never_rules]: "never (fail e)"
  by (simp add: never_def fail_def)

lemma never_bnd [never_rules]: "(\<And>x. never (f x)) \<Longrightarrow> never (bnd m f)"
  by (auto simp: never_def elim: bnd_InrE)

lemma never_if [never_rules]: "never m \<Longrightarrow> never n \<Longrightarrow> never (if b then m else n)"
  by simp

lemma post_catch: "(\<And>e. never (h e)) \<Longrightarrow> post m s Q \<Longrightarrow> post (catch m h) s Q"
  unfolding post_def catch_def never_def by (auto split: prod.splits sum.splits)

subsection \<open>Raising runs\<close>

definition exc :: "('s, 'e, 'a) sx \<Rightarrow> 's \<Rightarrow> ('e \<Rightarrow> 's \<Rightarrow> bool) \<Rightarrow> bool" where
  "exc m s E \<longleftrightarrow> (\<forall>e t. m s = (Inl e, t) \<longrightarrow> E e t)"

named_theorems exc_simps \<open>backward equations of the statements, for the raising runs\<close>
named_theorems exc_rules \<open>rules for the raising runs of operations\<close>

lemma excI: "(\<And>e t. m s = (Inl e, t) \<Longrightarrow> E e t) \<Longrightarrow> exc m s E"
  by (simp add: exc_def)

lemma excD: "exc m s E \<Longrightarrow> m s = (Inl e, t) \<Longrightarrow> E e t"
  by (simp add: exc_def)

lemma exc_mono: "exc m s D \<Longrightarrow> (\<And>e t. D e t \<Longrightarrow> E e t) \<Longrightarrow> exc m s E"
  by (simp add: exc_def)

lemma exc_bnd [exc_simps]: "exc (bnd m f) s E \<longleftrightarrow> exc m s E \<and> post m s (\<lambda>x t. exc (f x) t E)"
  by (force simp: post_def exc_def bnd_def split: prod.splits sum.splits)

lemma exc_catch [exc_simps]: "exc (catch m h) s E \<longleftrightarrow> exc m s (\<lambda>e t. exc (h e) t E)"
  by (force simp: exc_def catch_def split: prod.splits sum.splits)

lemma post_try: "post (catch m h) s Q \<longleftrightarrow> post m s Q \<and> exc m s (\<lambda>e t. post (h e) t Q)"
  by (force simp: exc_def post_def catch_def split: prod.splits sum.splits)

lemma exc_pure [exc_simps]:
  "exc (ok x) s E = True" "exc (fail e) s F = F e s" "exc (gets g) s G = True"
  "exc (upd h) s H = True" "exc (require b e') s I = (b \<or> I e' s)"
  by (auto simp: exc_def run_simps)

lemma exc_of_sum [exc_simps]: "exc (of_sum r) s E = (\<forall>e. r = Inl e \<longrightarrow> E e s)"
  by (simp add: exc_def of_sum_def)

lemma exc_if [exc_simps]: "exc (if b then m else n) s E = ((b \<longrightarrow> exc m s E) \<and> (\<not> b \<longrightarrow> exc n s E))"
  by simp

lemma exc_option [exc_simps]:
  "exc (case x of None \<Rightarrow> m | Some y \<Rightarrow> f y) s E
    = ((x = None \<longrightarrow> exc m s E) \<and> (\<forall>y. x = Some y \<longrightarrow> exc (f y) s E))"
  by (cases x) auto

lemma exc_split [exc_simps]: "exc (case p of (x, y) \<Rightarrow> f x y) s E = (\<forall>x y. p = (x, y) \<longrightarrow> exc (f x y) s E)"
  by (cases p) auto

end
