(* ===== verification/Orchestrator_Specs.thy ===== *)
theory Orchestrator_Specs
  imports Kernel_Specs Partial_Correctness
begin

section \<open>Specifications of the orchestrator\<close>

text \<open>
  What selecting, assigning, completing and cancelling do to the view when they return. The handlers
  of the orchestrator raise again, so a returning run went through its try block.
\<close>

subsection \<open>Rules for the statements of the kernel\<close>

lemma post_lookups [post_simps]:
  "post (get_work_package pid) s Q = (\<forall>p. map_of (k_packages s) pid = Some p \<longrightarrow> Q p s)"
  "post (get_work_item pid wid) s R = (\<forall>p w. map_of (k_packages s) pid = Some p \<longrightarrow>
     find_item wid (wp_items p) = Some w \<longrightarrow> R w s)"
  "post (get_agent i) s S = (\<forall>a. \<not> blank i \<longrightarrow> map_of (k_agents s) i = Some a \<longrightarrow> S a s)"
  "post (get_assignment i) s T = (\<forall>a. \<not> blank i \<longrightarrow> map_of (k_assignments s) i = Some a \<longrightarrow> T a s)"
  "post (get_execution i) s U = (\<forall>a. \<not> blank i \<longrightarrow> map_of (k_executions s) i = Some a \<longrightarrow> U a s)"
  "post (get_workflow i) s V = (\<forall>a. \<not> blank i \<longrightarrow> map_of (k_workflows s) i = Some a \<longrightarrow> V a s)"
  "post (get_request i) s W = (\<forall>a. map_of (k_requests s) i = Some a \<longrightarrow> W a s)"
  by (auto simp: post_def lookup_Inr)

lemma post_atomic: "in_tx s \<Longrightarrow> post (atomic m) s Q = post m s Q"
  by (simp add: post_def)

text \<open>An operation that writes only to the bus: the view stays.\<close>

lemma post_quiet: "quiet m \<Longrightarrow> in_tx s \<Longrightarrow> (\<And>x t. in_tx t \<Longrightarrow> view t = view s \<Longrightarrow> Q x t) \<Longrightarrow> post m s Q"
proof -
  assume a: "quiet m" "in_tx s" "\<And>x t. in_tx t \<Longrightarrow> view t = view s \<Longrightarrow> Q x t"
  show ?thesis
  proof (rule postI)
    fix x t
    assume "m s = (Inr x, t)"
    from quiet_view[OF a(1) this a(2)] show "Q x t" using a(3) by simp
  qed
qed

lemmas post_now [post_rules] = post_quiet[OF quiet_now]
lemmas post_publish [post_rules] = post_quiet[OF quiet_publish]

lemma post_change [post_rules]:
  assumes "in_tx s" and "\<And>a t. in_tx t \<Longrightarrow> vi (view s) (pid, wid) = Some a \<Longrightarrow> b \<in> set (lifecycle_transitions a) \<Longrightarrow>
      view t = (view s)\<lparr>vi := (vi (view s))((pid, wid) \<mapsto> b)\<rparr> \<Longrightarrow> Q () t"
  shows "post (change_work_item_state K pid wid b) s Q"
proof (rule postI)
  fix x t
  assume "change_work_item_state K pid wid b s = (Inr x, t)"
  from change_item_spec[OF assms(1) this] obtain a where "in_tx t" "vi (view s) (pid, wid) = Some a"
    "b \<in> set (lifecycle_transitions a)" "view t = (view s)\<lparr>vi := (vi (view s))((pid, wid) \<mapsto> b)\<rparr>" by blast
  then show "Q x t" using assms(2)[of t a] by (cases x) blast
qed

lemma post_recover [post_rules]:
  assumes "in_tx s" and "\<And>t. in_tx t \<Longrightarrow> vi (view s) (pid, wid) = Some RUNNING \<Longrightarrow> b = ASSIGNED \<Longrightarrow>
      view t = (view s)\<lparr>vi := (vi (view s))((pid, wid) \<mapsto> ASSIGNED)\<rparr> \<Longrightarrow> Q () t"
  shows "post (recover_work_item_state K pid wid b reason) s Q"
proof (rule postI)
  fix x t
  assume "recover_work_item_state K pid wid b reason s = (Inr x, t)"
  from recover_item_spec[OF assms(1) this] have "in_tx t \<and> b = ASSIGNED \<and> vi (view s) (pid, wid) = Some RUNNING
    \<and> view t = (view s)\<lparr>vi := (vi (view s))((pid, wid) \<mapsto> ASSIGNED)\<rparr>" by simp
  then show "Q x t" using assms(2)[of t] by (cases x) blast
qed

lemma post_update_agent [post_rules]:
  assumes "in_tx s" and "\<And>x t. in_tx t \<Longrightarrow> view t = view s \<Longrightarrow> Q x t"
  shows "post (update_agent_state K i b) s Q"
proof (rule postI)
  fix x t
  assume "update_agent_state K i b s = (Inr x, t)"
  from update_agent_spec[OF assms(1) this] show "Q x t" using assms(2) by simp
qed

text \<open>Writing attributes of a work item that the view does not show.\<close>

lemma find_update_same:
  assumes "\<And>w. wi_id (f w) = wi_id w" and "\<And>w. wi_state (f w) = wi_state w"
  shows "map_option wi_state (find_item j (update_item i f ws)) = map_option wi_state (find_item j ws)"
  by (induction ws) (auto simp: assms)

lemma post_put_item_same:
  assumes "in_tx s" and "\<And>w. wi_id (f w) = wi_id w" and "\<And>w. wi_state (f w) = wi_state w"
    and "\<And>t. in_tx t \<Longrightarrow> view t = view s \<Longrightarrow> Q () t"
  shows "post (put_item pid wid f) s Q"
proof (rule postI)
  fix x t
  assume "put_item pid wid f s = (Inr x, t)"
  then have t: "t = s\<lparr>k_packages := (case map_of (k_packages s) pid of None \<Rightarrow> k_packages s
      | Some p \<Rightarrow> dset pid (p\<lparr>wp_items := update_item wid f (wp_items p)\<rparr>) (k_packages s))\<rparr>"
    by (simp add: put_item_def put_package_run)
  have "view t = view s"
    by (auto simp: t view_def fun_eq_iff count_active_assignments_def item_view_def find_update_same[OF assms(2,3)]
        split: option.split)
  moreover have "in_tx t" using assms(1) by (simp add: t in_tx_def)
  ultimately show "Q x t" using assms(4) by (cases x) simp
qed

lemma post_put_assigned [post_rules]:
  "in_tx s \<Longrightarrow> (\<And>t. in_tx t \<Longrightarrow> view t = view s \<Longrightarrow> Q () t) \<Longrightarrow>
    post (put_item pid wid (\<lambda>v. v\<lparr>wi_assigned_to := x\<rparr>)) s Q"
  by (rule post_put_item_same) simp_all

subsection \<open>Counting the load of agents\<close>

definition load :: "(string \<times> string \<times> string \<times> string \<times> assignment_status) option \<Rightarrow> string \<Rightarrow> int" where
  "load x g = (case x of Some (k, p, w, h, st) \<Rightarrow> if h = g \<and> st = ACTIVE then 1 else 0 | None \<Rightarrow> 0)"

lemma load_simps [simp]:
  "load None g = 0" "load (Some (k, p, w, h, ACTIVE)) g = (if h = g then 1 else 0)"
  "st \<noteq> ACTIVE \<Longrightarrow> load (Some (k, p, w, h, st)) g = 0"
  by (simp_all add: load_def)

lemma load_assignment: "load (Some (assignment_view a)) g = (if wa_agent_id a = g \<and> wa_status a = ACTIVE then 1 else 0)"
  by (simp add: load_def assignment_view_def)

lemma count_dset:
  "int (length (filter P (dvals (dset i b d)))) = int (length (filter P (dvals d)))
     - (case map_of d i of Some a \<Rightarrow> if P a then 1 else 0 | None \<Rightarrow> 0) + (if P b then 1 else 0)"
proof (induction d)
  case Nil
  then show ?case by simp
next
  case (Cons x d)
  then show ?case by (cases x) auto
qed

lemma view_put_assignment:
  "view (s\<lparr>k_assignments := dset i a (k_assignments s)\<rparr>)
    = (view s)\<lparr>va := (va (view s))(i \<mapsto> assignment_view a),
        vc := (\<lambda>g. vc (view s) g - load (va (view s) i) g + load (Some (assignment_view a)) g)\<rparr>"
proof -
  have "count_active_assignments g (s\<lparr>k_assignments := dset i a (k_assignments s)\<rparr>) = count_active_assignments g s
      - load (map_option assignment_view (map_of (k_assignments s) i)) g + load (Some (assignment_view a)) g" for g
    using count_dset[where P = "\<lambda>a. wa_agent_id a = g \<and> wa_status a = ACTIVE" and i = i and b = a and d = "k_assignments s"]
    by (cases "map_of (k_assignments s) i") (simp_all add: count_active_assignments_def load_assignment)
  then show ?thesis by (auto simp: view_def fun_eq_iff)
qed

lemma post_put_assignment [post_rules]:
  assumes "in_tx s" and "\<And>t. in_tx t \<Longrightarrow> view t = (view s)\<lparr>va := (va (view s))(i \<mapsto> assignment_view a),
        vc := (\<lambda>g. vc (view s) g - load (va (view s) i) g + load (Some (assignment_view a)) g)\<rparr> \<Longrightarrow> Q () t"
  shows "post (put_assignment i a) s Q"
  unfolding put_assignment_def post_simps
  by (rule assms(2)) (use assms(1) in \<open>simp_all add: view_put_assignment in_tx_def\<close>)

subsection \<open>Selecting an agent\<close>

lemma ranked_mem:
  "(k, a) \<in> set (ranked role caps s) \<longleftrightarrow>
     (\<exists>i < length (list_agents s). list_agents s ! i = a \<and> matches role caps a \<and> \<not> at_capacity s a
        \<and> ag_state a = AVAILABLE
        \<and> k = (- int (length caps), - ag_priority a, count_active_assignments (ag_id a) s, i))"
  by (auto simp: ranked_def in_set_enumerate_eq image_iff)

lemma select_agent_least:
  "post (select_agent role caps) s (\<lambda>sl t. t = s \<and> (\<exists>k. (k, sl_agent sl) \<in> set (ranked role caps s)
     \<and> (\<forall>k' a. (k', a) \<in> set (ranked role caps s) \<longrightarrow> k \<le> k')))"
proof -
  let ?r = "ranked role caps s"
  have m: "arg_min_list fst ?r \<in> set ?r" "\<forall>x\<in>set ?r. fst (arg_min_list fst ?r) \<le> fst x" if "?r \<noteq> []"
    using that by (simp_all add: arg_min_list_in f_arg_min_list_f)
  show ?thesis
    unfolding select_agent_def post_simps using m by fastforce
qed

lemma post_select [post_rules]:
  assumes "in_tx s" and "\<And>sl. sl_agent sl \<in> set (list_agents s) \<Longrightarrow>
      vc (view s) (ag_id (sl_agent sl)) < ag_max_parallel_tasks (sl_agent sl) \<Longrightarrow> Q sl s"
  shows "post (select_agent role caps) s Q"
proof (rule postI)
  fix sl t
  assume "select_agent role caps s = (Inr sl, t)"
  from postD[OF select_agent_least this] obtain k where "t = s" "(k, sl_agent sl) \<in> set (ranked role caps s)" by blast
  moreover from this(2) have "sl_agent sl \<in> set (list_agents s) \<and> \<not> at_capacity s (sl_agent sl)"
    unfolding ranked_mem by (metis nth_mem)
  ultimately show "Q sl t" using assms(2)[of sl] by (simp add: at_capacity_def view_def)
qed

subsection \<open>Assigning\<close>

lemma never_restores [never_rules]: "never (restore_closing i a w p ag e)"
  unfolding restore_closing_def by (intro never_rules)

lemma view_assignment: "va (view s) i = map_option assignment_view (map_of (k_assignments s) i)"
  by (simp add: view_def)

lemma view_agents: "a \<in> set (list_agents s) \<Longrightarrow> \<exists>k. (k, ag_id a, ag_max_parallel_tasks a) \<in> set (vg (view s))"
  by (force simp: view_def list_agents_def)

text \<open>What an assignment that was made has checked, and what it has changed.\<close>

definition assigned :: "string \<Rightarrow> string \<Rightarrow> string \<Rightarrow> view \<Rightarrow> string \<Rightarrow> view \<Rightarrow> bool" where
  "assigned i pid wid v g v' \<longleftrightarrow> va v i = None \<and> vi v (pid, wid) = Some READY
     \<and> (\<forall>j k h. va v j \<noteq> Some (k, pid, wid, h, ACTIVE))
     \<and> (\<exists>k m. (k, g, m) \<in> set (vg v) \<and> vc v g < m)
     \<and> v' = v\<lparr>vi := (vi v)((pid, wid) \<mapsto> ASSIGNED), va := (va v)(i \<mapsto> (i, pid, wid, g, ACTIVE)),
          vc := (vc v)(g := vc v g + 1)\<rparr>"

lemma change_status_post [post_rules]:
  assumes "in_tx s" and "\<And>t tm. in_tx t \<Longrightarrow> view t = view s \<Longrightarrow> b \<in> set (assignment_transitions (wa_status a)) \<Longrightarrow>
      Q (a\<lparr>wa_status := b, wa_updated_at := tm\<rparr>) t"
  shows "post (change_status K b a) s Q"
  unfolding change_status_def post_simps validate_assignment_status_transition_def
  by (intro allI impI post_rules assms) auto


lemma no_active_view:
  "\<not> list_ex (\<lambda>a. wa_package_id a = pid \<and> wa_work_item_id a = wid \<and> wa_status a = ACTIVE) (dvals (k_assignments s)) \<Longrightarrow>
    va (view s) j \<noteq> Some (k, pid, wid, h, ACTIVE)"
  by (auto simp: view_assignment assignment_view_def list_ex_iff dest!: map_of_vals)

lemma assignedI:
  assumes "i \<notin> fst ` set (k_assignments s)" and "map_of (k_packages s) pid = Some p"
    and "find_item wid (wp_items p) = Some w" and "wi_state w = READY"
    and "\<not> list_ex (\<lambda>a. wa_package_id a = pid \<and> wa_work_item_id a = wid \<and> wa_status a = ACTIVE) (dvals (k_assignments s))"
    and "ag \<in> set (list_agents s)" and "vc (view s) (ag_id ag) < ag_max_parallel_tasks ag"
    and "v' = (view s)\<lparr>vi := (vi (view s))((pid, wid) \<mapsto> ASSIGNED), va := (va (view s))(i \<mapsto> (i, pid, wid, ag_id ag, ACTIVE)),
          vc := (\<lambda>g. vc (view s) g - load (va (view s) i) g + load (Some (i, pid, wid, ag_id ag, ACTIVE)) g)\<rparr>"
  shows "va (view s) i = None \<and> assigned i pid wid (view s) (ag_id ag) v'"
proof -
  have none: "va (view s) i = None" using assms(1) by (simp add: view_assignment map_of_eq_None_iff)
  have "(\<lambda>g. vc (view s) g - load (va (view s) i) g + load (Some (i, pid, wid, ag_id ag, ACTIVE)) g)
      = (vc (view s))(ag_id ag := vc (view s) (ag_id ag) + 1)"
    by (auto simp: none)
  then show ?thesis
    unfolding assigned_def
    using none assms(7,8) no_active_view[OF assms(5)] view_agents[OF assms(6)] view_itemI[OF assms(2,3)] assms(4)
    by auto
qed

lemma assign_post:
  assumes tx: "in_tx s"
  shows "post (assign_work_item K i pid wid role caps) s
    (\<lambda>a t. in_tx t \<and> wa_id a = i \<and> assigned i pid wid (view s) (wa_agent_id a) (view t))"
  unfolding assign_work_item_def post_atomic[OF tx] Let_def post_simps publish_assignment_def
  by (intro allI impI conjI post_rules post_catch never_rules tx | assumption | simp only: post_simps)+
    (simp_all (no_asm_use), (rule assignedI[THEN conjunct2];
      (assumption | simp add: assignment_view_def))+)

subsection \<open>Completing and cancelling\<close>

definition closed ::
    "string \<Rightarrow> lifecycle_state \<Rightarrow> lifecycle_state \<Rightarrow> assignment_status \<Rightarrow> view \<Rightarrow> view \<Rightarrow> bool" where
  "closed i a b st v v' \<longleftrightarrow> (\<exists>k pid wid g. va v i = Some (k, pid, wid, g, ACTIVE) \<and> vi v (pid, wid) = Some a
     \<and> v' = v\<lparr>vi := (vi v)((pid, wid) \<mapsto> b), va := (va v)(i \<mapsto> (k, pid, wid, g, st)),
          vc := (vc v)(g := vc v g - 1)\<rparr>)"

lemma require_active_Inr [simp]: "require_active a = Inr u \<longleftrightarrow> wa_status a = ACTIVE"
  by (simp add: require_active_def)

lemma closedI:
  assumes "map_of (k_assignments s) i = Some x" and "wa_status x = ACTIVE" and "wi_state w = c"
    and "map_of (k_packages s) (wa_package_id x) = Some p" and "find_item (wa_work_item_id x) (wp_items p) = Some w"
    and "st \<noteq> ACTIVE"
    and "v' = (view s)\<lparr>vi := (vi (view s))((wa_package_id x, wa_work_item_id x) \<mapsto> b),
          va := (va (view s))(i \<mapsto> (wa_id x, wa_package_id x, wa_work_item_id x, wa_agent_id x, st)),
          vc := (\<lambda>g. vc (view s) g - load (va (view s) i) g
            + load (Some (wa_id x, wa_package_id x, wa_work_item_id x, wa_agent_id x, st)) g)\<rparr>"
  shows "closed i c b st (view s) v'"
proof -
  have va: "va (view s) i = Some (wa_id x, wa_package_id x, wa_work_item_id x, wa_agent_id x, ACTIVE)"
    using assms(1,2) by (simp add: view_assignment assignment_view_def)
  have vc: "(\<lambda>g. vc (view s) g - load (va (view s) i) g
            + load (Some (wa_id x, wa_package_id x, wa_work_item_id x, wa_agent_id x, st)) g)
      = (vc (view s))(wa_agent_id x := vc (view s) (wa_agent_id x) - 1)"
    using assms(6) by (auto simp: va)
  show ?thesis
    unfolding closed_def assms(7) vc using va view_itemI[OF assms(4,5)] assms(3) by blast
qed

lemma post_release [post_rules]:
  assumes "in_tx s" and "\<And>t. in_tx t \<Longrightarrow> view t = view s \<Longrightarrow> Q () t"
  shows "post (release_agent_capacity K i) s Q"
  unfolding release_agent_capacity_def post_simps
  by (intro allI impI conjI post_rules assms | assumption | simp only: post_simps)+

lemma complete_post:
  assumes tx: "in_tx s"
  shows "post (complete_assignment K i) s
    (\<lambda>a t. in_tx t \<and> closed i APPROVED COMPLETED ASSIGNMENT_COMPLETED (view s) (view t))"
  unfolding complete_assignment_def post_atomic[OF tx] post_simps publish_assignment_def
  by (intro allI impI conjI post_rules post_catch never_rules tx | assumption | simp only: post_simps)+
    (simp_all (no_asm_use), rule closedI; (assumption | simp add: assignment_view_def))

lemma cancel_post:
  assumes tx: "in_tx s"
  shows "post (cancel_assignment K i) s
    (\<lambda>a t. in_tx t \<and> closed i ASSIGNED READY ASSIGNMENT_CANCELLED (view s) (view t))"
  unfolding cancel_assignment_def post_atomic[OF tx] post_simps publish_assignment_def
  by (intro allI impI conjI post_rules post_catch never_rules tx | assumption | simp only: post_simps)+
    (simp_all (no_asm_use), rule closedI; (assumption | simp add: assignment_view_def))

end
