(* ===== verification/Execution_Specs.thy ===== *)
theory Execution_Specs
  imports Orchestrator_Specs
begin

section \<open>Specifications of the execution and recovery services\<close>

text \<open>
  An execution that returns moves its work item to review and is recorded as succeeded; one that
  raises a recorded failure leaves its work item running and its record failed, or running when
  the executor itself raised the failure; the recoveries take the work item back.
\<close>

subsection \<open>Rules for the raising runs\<close>

lemma exc_plain: "plain m \<Longrightarrow> in_tx s \<Longrightarrow> (\<And>e t. \<not> committed_failure e \<Longrightarrow> E e t) \<Longrightarrow> exc m s E"
  by (auto simp: exc_def dest: plainD)

lemma exc_atomic: "in_tx s \<Longrightarrow> exc (atomic m) s E = exc m s E"
  by (simp add: exc_def)

text \<open>An operation that writes only to the bus raises without a change of the view.\<close>

lemma exc_quiet:
  assumes "quiet m" and "plain m" and "in_tx s"
    and "\<And>e t. in_tx t \<Longrightarrow> view t = view s \<Longrightarrow> \<not> committed_failure e \<Longrightarrow> E e t"
  shows "exc m s E"
  by (rule excI) (use assms(4) quiet_view[OF assms(1) _ assms(3)] plainD[OF assms(2) _ assms(3)] in blast)

lemma exc_now [exc_rules]: "exc (utc_now K) s E"
  by (simp add: exc_def now_Inr)

lemmas exc_publish [exc_rules] = exc_quiet[OF quiet_publish plain_publish]
lemmas exc_get_execution [exc_rules] = exc_quiet[OF quiet_lookups(5) plain_lookups(5)]

lemma exc_put [exc_rules]:
  "exc (put_item pid wid f) s E" "exc (put_package pid g) s E" "exc (put_execution x) s E" "exc (put_workflow i h) s E"
  by (simp_all add: exc_def put_item_def put_package_def put_execution_def put_workflow_def upd_def)

lemma exc_change [exc_rules]:
  assumes "in_tx s" and "\<And>e t. in_tx t \<Longrightarrow> \<not> committed_failure e \<Longrightarrow>
      view t = view s \<or> vi (view s) (pid, wid) \<noteq> None \<and> view t = (view s)\<lparr>vi := (vi (view s))((pid, wid) \<mapsto> b)\<rparr>
      \<Longrightarrow> E e t"
  shows "exc (change_work_item_state K pid wid b) s E"
proof (rule excI)
  fix e t
  assume "change_work_item_state K pid wid b s = (Inl e, t)"
  from change_item_spec[OF assms(1) this] show "E e t"
    by (intro assms(2)) auto
qed

subsection \<open>Rules for the statements\<close>

lemma post_put_execution [post_rules]:
  assumes "in_tx s" and "\<And>t. in_tx t \<Longrightarrow>
      view t = (view s)\<lparr>ve := (ve (view s))(ex_id e \<mapsto> (ex_id e, ex_assignment_id e, ex_status e))\<rparr> \<Longrightarrow> Q () t"
  shows "post (put_execution e) s Q"
  unfolding put_execution_def post_simps
  by (rule assms(2)) (use assms(1) in \<open>simp_all add: in_tx_def view_def fun_eq_iff count_active_assignments_def\<close>)

lemma view_execution: "ve (view s) i = map_option (\<lambda>e. (ex_id e, ex_assignment_id e, ex_status e)) (map_of (k_executions s) i)"
  by (simp add: view_def)

lemma post_package_same:
  assumes "in_tx s" and "\<And>p. wp_items (f p) = wp_items p" and "\<And>t. in_tx t \<Longrightarrow> view t = view s \<Longrightarrow> Q () t"
  shows "post (put_package pid f) s Q"
proof -
  have "view (s\<lparr>k_packages := (case map_of (k_packages s) pid of None \<Rightarrow> k_packages s
      | Some p \<Rightarrow> dset pid (f p) (k_packages s))\<rparr>) = view s"
  proof (cases "map_of (k_packages s) pid")
    case None
    then show ?thesis by simp
  next
    case (Some p)
    then show ?thesis using view_same_items[OF Some assms(2)] by simp
  qed
  then show ?thesis
    unfolding put_package_def post_simps by (intro assms(3)) (use assms(1) in \<open>simp_all add: in_tx_def\<close>)
qed

lemma post_put_updated [post_rules]:
  "in_tx s \<Longrightarrow> (\<And>t. in_tx t \<Longrightarrow> view t = view s \<Longrightarrow> Q () t) \<Longrightarrow>
    post (put_package pid (\<lambda>v. v\<lparr>wp_updated_at := x\<rparr>)) s Q"
  by (rule post_package_same) simp_all

text \<open>Writing the state of a work item past its policy, as the handlers do.\<close>

lemma post_put_state [post_rules]:
  assumes "in_tx s" and "vi (view s) (pid, wid) \<noteq> None"
    and "\<And>t. in_tx t \<Longrightarrow> view t = (view s)\<lparr>vi := (vi (view s))((pid, wid) \<mapsto> b)\<rparr> \<Longrightarrow> Q () t"
  shows "post (put_item pid wid (\<lambda>v. v\<lparr>wi_state := b\<rparr>)) s Q"
proof -
  obtain p w where p: "map_of (k_packages s) pid = Some p" "find_item wid (wp_items p) = Some w"
    using assms(2) by (auto simp: view_packages(1) item_view_def split: option.splits)
  let ?p = "p\<lparr>wp_items := update_item wid (\<lambda>v. v\<lparr>wi_state := b\<rparr>) (wp_items p)\<rparr>"
  have "view (s\<lparr>k_packages := dset pid ?p (k_packages s)\<rparr>) = (view s)\<lparr>vi := (vi (view s))((pid, wid) \<mapsto> b)\<rparr>"
    using view_put_item[OF p, of ?p "\<lambda>v. v\<lparr>wi_state := b\<rparr>"] by simp
  then show ?thesis
    unfolding put_item_def put_package_def post_simps
    by (intro assms(3)) (use assms(1) p in \<open>simp_all add: in_tx_def\<close>)
qed

text \<open>The plugged-in executor reads the clock only; what it returns or raises is not known.\<close>

lemma run_executor_state: "run_executor K x rc s = (r, t) \<Longrightarrow> \<exists>n. t = s\<lparr>k_bus := (k_bus s)\<lparr>b_ticks := n\<rparr>\<rparr>"
  by (auto simp: run_executor_def zoom_def split: prod.splits)

lemma post_run [post_rules]:
  "in_tx s \<Longrightarrow> (\<And>r t. in_tx t \<Longrightarrow> view t = view s \<Longrightarrow> Q r t) \<Longrightarrow> post (run_executor K x rc) s Q"
  by (rule postI) (auto dest!: run_executor_state)

lemma exc_run [exc_rules]:
  "in_tx s \<Longrightarrow> (\<And>e t. in_tx t \<Longrightarrow> view t = view s \<Longrightarrow> E e t) \<Longrightarrow> exc (run_executor K x rc) s E"
  by (rule excI) (auto dest!: run_executor_state)

text \<open>The marks compute the next record of the execution.\<close>

lemma post_marks [post_rules]:
  assumes "in_tx s"
  shows "(\<And>t tm. in_tx t \<Longrightarrow> view t = view s \<Longrightarrow> Q1 (e\<lparr>ex_status := EXECUTION_RUNNING, ex_started_at := Some tm\<rparr>) t)
      \<Longrightarrow> post (mark_running K e) s Q1"
    and "(\<And>t tm. in_tx t \<Longrightarrow> view t = view s \<Longrightarrow> Q2 (e\<lparr>ex_status := SUCCEEDED, ex_output := Some out, ex_error := None,
       ex_completed_at := Some tm\<rparr>) t) \<Longrightarrow> post (mark_succeeded K out e) s Q2"
    and "(\<And>t tm. in_tx t \<Longrightarrow> view t = view s \<Longrightarrow> Q3 (e\<lparr>ex_status := FAILED, ex_error := Some err, ex_completed_at := Some tm\<rparr>) t)
      \<Longrightarrow> post (mark_failed K err e) s Q3"
    and "(\<And>t tm. in_tx t \<Longrightarrow> view t = view s \<Longrightarrow> EXECUTION_CANCELLED \<in> set (execution_transitions (ex_status e)) \<Longrightarrow>
        Q4 (e\<lparr>ex_status := EXECUTION_CANCELLED, ex_completed_at := Some tm\<rparr>) t)
      \<Longrightarrow> post (mark_cancelled K e) s Q4"
  unfolding mark_running_def mark_succeeded_def mark_failed_def mark_cancelled_def post_simps
    validate_execution_status_transition_def
  by (intro allI impI post_now assms; simp)+

lemma exc_marks [exc_rules]:
  assumes "in_tx s"
  shows "(\<And>x. \<not> committed_failure x \<Longrightarrow> E1 x s) \<Longrightarrow> exc (mark_running K e) s E1"
    and "(\<And>x. \<not> committed_failure x \<Longrightarrow> E2 x s) \<Longrightarrow> exc (mark_succeeded K out e) s E2"
    and "(\<And>x. \<not> committed_failure x \<Longrightarrow> E3 x s) \<Longrightarrow> exc (mark_failed K err e) s E3"
    and "(\<And>x. \<not> committed_failure x \<Longrightarrow> E4 x s) \<Longrightarrow> exc (mark_cancelled K e) s E4"
  unfolding mark_running_def mark_succeeded_def mark_failed_def mark_cancelled_def exc_simps post_simps
    validate_execution_status_transition_def
  by (auto intro!: exc_now post_now assms dest!: tameD[rotated])

subsection \<open>Running an assignment\<close>

text \<open>The work item \<open>c\<close> and the execution \<open>i\<close> of assignment \<open>k\<close>, set.\<close>

definition outcome ::
    "string \<times> string \<Rightarrow> lifecycle_state \<Rightarrow> string \<Rightarrow> string \<Rightarrow> execution_status \<Rightarrow> view \<Rightarrow> view" where
  "outcome c b i k st v = v\<lparr>vi := (vi v)(c \<mapsto> b), ve := (ve v)(i \<mapsto> (i, k, st))\<rparr>"

lemma outcome_sel [simp]:
  "vi (outcome c b i k st v) = (vi v)(c \<mapsto> b)" "ve (outcome c b i k st v) = (ve v)(i \<mapsto> (i, k, st))"
  "va (outcome c b i k st v) = va v" "vc (outcome c b i k st v) = vc v"
  "vg (outcome c b i k st v) = vg v" "vf (outcome c b i k st v) = vf v"
  by (simp_all add: outcome_def)

lemma outcome_item [simp]: "outcome c b i k st v\<lparr>vi := (vi v)(c \<mapsto> a)\<rparr> = outcome c a i k st v"
  by (simp add: outcome_def)

lemma outcome_again [simp]: "outcome c b i k st (outcome c b' i k' st' v) = outcome c b i k st v"
  by (simp add: outcome_def)

lemma outcome_same: "vi v c = Some b \<Longrightarrow> ve v i = Some (i, k, st) \<Longrightarrow> outcome c b i k st v = v"
  by (simp add: outcome_def fun_upd_idem)

lemma outcome_execution [simp]:
  "v\<lparr>ve := (ve v)(i \<mapsto> (i, k, st))\<rparr>\<lparr>vi := m\<rparr> = v\<lparr>vi := m, ve := (ve v)(i \<mapsto> (i, k, st))\<rparr>"
  by simp

lemma conclude_post:
  assumes "in_tx s"
  shows "post (conclude_execution K x rc a e c) s (\<lambda>e' t. in_tx t \<and> ex_id e' = ex_id e \<and>
    view t = outcome (wa_package_id a, wa_work_item_id a) REVIEW (ex_id e) (ex_assignment_id e) SUCCEEDED (view s))"
  unfolding conclude_execution_def post_simps publish_execution_def
  by (intro allI impI conjI post_rules assms | assumption | simp only: post_simps)+
    (simp_all add: outcome_def)

text \<open>Where the run was when it raised: a recorded failure left the work item running.\<close>

definition halted :: "string \<times> string \<Rightarrow> string \<Rightarrow> string \<Rightarrow> view \<Rightarrow> kexn \<Rightarrow> view \<Rightarrow> bool" where
  "halted c i k v y v' \<longleftrightarrow> (\<exists>b st. v' = outcome c b i k st v \<and> (st = EXECUTION_RUNNING \<or> st = FAILED)
     \<and> (committed_failure y \<longrightarrow> b = RUNNING))"

lemma haltedI:
  assumes "vi v c = Some RUNNING" and "ve v i = Some (i, k, EXECUTION_RUNNING)"
  shows "v' = v \<Longrightarrow> halted c i k v y v'"
    and "v' = v\<lparr>ve := (ve v)(i \<mapsto> (i, k, FAILED))\<rparr> \<Longrightarrow> halted c i k v y v'"
    and "\<not> committed_failure y \<Longrightarrow> v' = v\<lparr>vi := (vi v)(c \<mapsto> b)\<rparr> \<Longrightarrow> halted c i k v y v'"
proof -
  assume "v' = v"
  then show "halted c i k v y v'"
    using outcome_same[of v c RUNNING i k EXECUTION_RUNNING] assms unfolding halted_def by metis
next
  assume "v' = v\<lparr>ve := (ve v)(i \<mapsto> (i, k, FAILED))\<rparr>"
  then have "v' = outcome c RUNNING i k FAILED v" using assms(1) by (simp add: outcome_def fun_upd_idem)
  then show "halted c i k v y v'" unfolding halted_def by blast
next
  assume a: "\<not> committed_failure y" "v' = v\<lparr>vi := (vi v)(c \<mapsto> b)\<rparr>"
  then have "v' = outcome c b i k EXECUTION_RUNNING v" using assms(2) by (simp add: outcome_def fun_upd_idem)
  then show "halted c i k v y v'" using a(1) unfolding halted_def by blast
qed

lemma conclude_exc:
  assumes tx: "in_tx s" and item: "vi (view s) (wa_package_id a, wa_work_item_id a) = Some RUNNING"
    and run: "ve (view s) (ex_id e) = Some (ex_id e, ex_assignment_id e, EXECUTION_RUNNING)"
  shows "exc (conclude_execution K x rc a e c) s (\<lambda>y t. in_tx t \<and>
    halted (wa_package_id a, wa_work_item_id a) (ex_id e) (ex_assignment_id e) (view s) y (view t))"
  unfolding conclude_execution_def exc_simps post_simps publish_execution_def
  by (intro allI impI conjI post_rules exc_rules assms | assumption | simp only: post_simps exc_simps)+
    (auto intro: haltedI[OF item run])

lemma joins_marks [joins_rules]:
  "joins (mark_running K e)" "joins (mark_succeeded K out e)" "joins (mark_failed K err e)" "joins (mark_cancelled K e)"
  unfolding mark_running_def mark_succeeded_def mark_failed_def mark_cancelled_def
  by (intro joins_rules)+

lemma plain_marks [plain_rules]:
  "plain (mark_running K e)" "plain (mark_succeeded K out e)" "plain (mark_failed K err e)" "plain (mark_cancelled K e)"
  unfolding mark_running_def mark_succeeded_def mark_failed_def mark_cancelled_def
    validate_execution_status_transition_def
  by (intro plain_rules joins_rules; simp)+

lemma joins_change [joins_rules]: "joins (change_work_item_state K pid wid b)"
  unfolding joins_def using change_item_spec by (metis prod.collapse)

lemma plain_change [plain_rules]: "plain (change_work_item_state K pid wid b)"
  unfolding plain_def using change_item_spec by blast

lemma joins_recover [joins_rules]: "joins (recover_work_item_state K pid wid b reason)"
  unfolding joins_def using recover_item_spec by (metis prod.collapse)

lemma plain_recover [plain_rules]: "plain (recover_work_item_state K pid wid b reason)"
  unfolding plain_def using recover_item_spec by blast

lemma joins_publish_execution [joins_rules]: "joins (publish_execution K et e pl c)"
  unfolding publish_execution_def by (intro joins_rules)

lemma plain_publish_execution [plain_rules]: "plain (publish_execution K et e pl c)"
  unfolding publish_execution_def by (intro plain_rules)

lemma plain_start [plain_rules]: "plain (start_execution K a w p e c)"
  unfolding start_execution_def by (intro plain_catch plain_rules joins_rules | simp)+

lemma start_post:
  assumes "in_tx s"
  shows "post (start_execution K a w p e c) s (\<lambda>e' t. in_tx t \<and> ex_id e' = ex_id e
    \<and> ex_assignment_id e' = ex_assignment_id e \<and> vi (view s) (wa_package_id a, wa_work_item_id a) \<noteq> None
    \<and> view t = outcome (wa_package_id a, wa_work_item_id a) RUNNING (ex_id e) (ex_assignment_id e) EXECUTION_RUNNING (view s))"
  unfolding start_execution_def post_simps publish_execution_def
  by (intro allI impI conjI post_rules post_catch never_rules assms | assumption | simp only: post_simps)+
    (auto simp: outcome_def)

lemma never_record: "never (record_failure K a p e c x)"
  unfolding record_failure_def by (intro never_rules)

text \<open>The record of a failure leaves the work item running and the execution as it was, or failed.\<close>

definition recorded :: "string \<times> string \<Rightarrow> string \<Rightarrow> string \<Rightarrow> view \<Rightarrow> kexn \<Rightarrow> view \<Rightarrow> bool" where
  "recorded c i k v y v' \<longleftrightarrow> (committed_failure y \<longrightarrow>
     (\<exists>st. (st = EXECUTION_RUNNING \<or> st = FAILED) \<and> v' = outcome c RUNNING i k st v))"

lemma view_executionI:
  "map_of (k_executions s) i = Some e \<Longrightarrow> ve (view s) i = Some (ex_id e, ex_assignment_id e, ex_status e)"
  by (simp add: view_def)

lemma recordedI:
  "\<not> committed_failure y \<Longrightarrow> recorded c i k v y v'"
  "v' = outcome c RUNNING i k EXECUTION_RUNNING v \<or> v' = outcome c RUNNING i k FAILED v \<Longrightarrow> recorded c i k v y v'"
  by (auto simp: recorded_def)

lemma record_exc:
  assumes tx: "in_tx s" and item: "vi (view s) (wa_package_id a, wa_work_item_id a) \<noteq> None"
    and run: "ve (view s) (ex_id e) = Some (ex_id e, k, st)" "st = EXECUTION_RUNNING \<or> st = FAILED"
    and com: "committed_failure x \<Longrightarrow> vi (view s) (wa_package_id a, wa_work_item_id a) = Some RUNNING"
  shows "exc (record_failure K a p e c x) s (\<lambda>y t. in_tx t \<and>
    recorded (wa_package_id a, wa_work_item_id a) (ex_id e) k (view s) y (view t))"
proof (cases "committed_failure x")
  case True
  then show ?thesis
    using tx run(2) outcome_same[OF com[OF True] run(1)]
    unfolding record_failure_def exc_simps by (auto intro!: recordedI(2))
next
  case False
  show ?thesis
    unfolding record_failure_def exc_simps post_simps publish_execution_def
    by (intro allI impI conjI post_rules exc_rules assms | assumption | simp only: post_simps exc_simps)+
      (use False run in \<open>auto intro: recordedI(1) intro!: recordedI(2) dest!: view_executionI simp: outcome_def fun_upd_idem\<close>)
qed

lemma post_start [post_rules]:
  assumes "in_tx s" and "\<And>e' t. in_tx t \<Longrightarrow> ex_id e' = ex_id e \<Longrightarrow> ex_assignment_id e' = ex_assignment_id e \<Longrightarrow>
      view t = outcome (wa_package_id a, wa_work_item_id a) RUNNING (ex_id e) (ex_assignment_id e) EXECUTION_RUNNING (view s)
      \<Longrightarrow> Q e' t"
  shows "post (start_execution K a w p e c) s Q"
  by (rule post_mono[OF start_post[OF assms(1)]]) (use assms(2) in blast)

lemma post_conclude [post_rules]:
  assumes "in_tx s" and "\<And>e' t. in_tx t \<Longrightarrow> ex_id e' = ex_id e \<Longrightarrow>
      view t = outcome (wa_package_id a, wa_work_item_id a) REVIEW (ex_id e) (ex_assignment_id e) SUCCEEDED (view s) \<Longrightarrow> Q e' t"
  shows "post (catch (conclude_execution K x rc a e c) (record_failure K a p e c)) s Q"
  by (rule post_catch[OF never_record], rule post_mono[OF conclude_post[OF assms(1)]]) (use assms(2) in blast)

lemma exc_conclude [exc_rules]:
  assumes tx: "in_tx s" and item: "vi (view s) (wa_package_id a, wa_work_item_id a) = Some RUNNING"
    and run: "ve (view s) (ex_id e) = Some (ex_id e, ex_assignment_id e, EXECUTION_RUNNING)"
    and E: "\<And>y t. in_tx t \<Longrightarrow> recorded (wa_package_id a, wa_work_item_id a) (ex_id e) (ex_assignment_id e) (view s) y (view t)
      \<Longrightarrow> E y t"
  shows "exc (catch (conclude_execution K x rc a e c) (record_failure K a p e c)) s E"
  unfolding exc_catch
proof (rule exc_mono[OF conclude_exc[OF tx item run]], goal_cases)
  case (1 y t)
  then obtain b st where t: "in_tx t" "view t = outcome (wa_package_id a, wa_work_item_id a) b (ex_id e) (ex_assignment_id e) st (view s)"
    "st = EXECUTION_RUNNING \<or> st = FAILED" "committed_failure y \<longrightarrow> b = RUNNING" unfolding halted_def by blast
  show ?case
    by (rule exc_mono[OF record_exc[where k = "ex_assignment_id e" and st = st]])
      (use t E in \<open>auto simp: recorded_def\<close>)
qed

definition has_run ::
    "string \<Rightarrow> string \<Rightarrow> lifecycle_state \<Rightarrow> lifecycle_state \<Rightarrow> execution_status \<Rightarrow> view \<Rightarrow> view \<Rightarrow> bool" where
  "has_run i aid a b st v v' \<longleftrightarrow> (\<exists>k pid wid g. va v aid = Some (k, pid, wid, g, ACTIVE) \<and> ve v i = None
     \<and> vi v (pid, wid) = Some a \<and> v' = outcome (pid, wid) b i k st v)"

lemma has_runI:
  assumes "map_of (k_assignments s) aid = Some a" and "wa_status a = ACTIVE" and "i \<notin> fst ` set (k_executions s)"
    and "map_of (k_packages s) (wa_package_id a) = Some p" and "find_item (wa_work_item_id a) (wp_items p) = Some w"
    and "wi_state w = r" and "v' = outcome (wa_package_id a, wa_work_item_id a) b i (wa_id a) st (view s)"
  shows "has_run i aid r b st (view s) v'"
  unfolding has_run_def
  using assms view_itemI[OF assms(4,5)]
  by (auto simp: view_assignment view_execution assignment_view_def map_of_eq_None_iff)

lemma post_select_executor [post_rules]:
  "in_tx s \<Longrightarrow> (\<And>x. Q x s) \<Longrightarrow> post (select_executor a) s Q"
  unfolding select_executor_def post_simps by simp

lemma plain_select_executor [plain_rules]: "plain (select_executor a)"
  unfolding select_executor_def by (intro plain_rules joins_rules; simp)

lemma execute_post:
  assumes tx: "in_tx s"
  shows "post (execute K i aid c required) s (\<lambda>e t. in_tx t \<and> ex_id e = i \<and> has_run i aid required REVIEW SUCCEEDED (view s) (view t))"
  unfolding execute_def Let_def post_simps publish_execution_def
  by (intro allI impI conjI post_rules tx | assumption | simp only: post_simps)+
    (auto intro!: has_runI)

text \<open>What a recorded failure leaves; an operation that raises another exception is rolled back.\<close>

definition failing :: "(view \<Rightarrow> bool) \<Rightarrow> kexn \<Rightarrow> kernel \<Rightarrow> bool" where
  "failing P y t \<longleftrightarrow> (committed_failure y \<longrightarrow> in_tx t \<and> P (view t))"

lemma failing_plain [simp]: "\<not> committed_failure y \<Longrightarrow> failing P y t"
  by (simp add: failing_def)

lemma exc_failing: "plain m \<Longrightarrow> in_tx s \<Longrightarrow> exc m s (failing P)"
  by (rule exc_plain) simp_all

lemma exc_bnd_failing:
  "plain m \<Longrightarrow> in_tx s \<Longrightarrow> post m s (\<lambda>x t. exc (f x) t (failing P)) \<Longrightarrow> exc (bnd m f) s (failing P)"
  by (simp add: exc_bnd exc_failing)

definition failed_run :: "string \<Rightarrow> string \<Rightarrow> lifecycle_state \<Rightarrow> view \<Rightarrow> view \<Rightarrow> bool" where
  "failed_run i aid a v v' \<longleftrightarrow> (\<exists>st. (st = EXECUTION_RUNNING \<or> st = FAILED) \<and> has_run i aid a RUNNING st v v')"

lemma failed_runI:
  "st = EXECUTION_RUNNING \<or> st = FAILED \<Longrightarrow> has_run i aid a RUNNING st v v' \<Longrightarrow> failed_run i aid a v v'"
  unfolding failed_run_def by blast

lemma conclude_failing:
  assumes tx: "in_tx s" and item: "vi (view s) (wa_package_id a, wa_work_item_id a) = Some RUNNING"
    and run: "ve (view s) (ex_id e) = Some (ex_id e, ex_assignment_id e, EXECUTION_RUNNING)"
    and P: "\<And>st. st = EXECUTION_RUNNING \<or> st = FAILED \<Longrightarrow>
      P (outcome (wa_package_id a, wa_work_item_id a) RUNNING (ex_id e) (ex_assignment_id e) st (view s))"
  shows "exc (bnd (catch (conclude_execution K x rc a e c) (record_failure K a p e c))
    (\<lambda>e'. bnd (publish_execution K et e' (pl e') c) (\<lambda>_. ok e'))) s (failing P)"
proof -
  have "exc (catch (conclude_execution K x rc a e c) (record_failure K a p e c)) s (failing P)"
    by (rule exc_conclude[OF tx item run]) (use P in \<open>auto simp: recorded_def failing_def\<close>)
  moreover have "post (catch (conclude_execution K x rc a e c) (record_failure K a p e c)) s (\<lambda>_. in_tx)"
    by (rule post_conclude[OF tx])
  moreover have "exc (publish_execution K et y (pl y) c) t (failing P) \<and> post (publish_execution K et y (pl y) c) t (\<lambda>_ _. True)"
    if "in_tx t" for y t
    by (simp add: exc_failing[OF plain_publish_execution that] post_def)
  ultimately show ?thesis
    unfolding exc_bnd exc_pure by (intro conjI) (assumption, erule post_mono)
qed

lemma execute_exc:
  assumes tx: "in_tx s"
  shows "exc (execute K i aid c required) s (failing (failed_run i aid required (view s)))"
  unfolding execute_def Let_def
  by (rule conclude_failing exc_bnd_failing plain_rules tx post_rules | intro allI impI | assumption
      | simp only: post_simps | (simp; fail))+
    (rule failed_runI; auto intro!: has_runI)

lemma post_execute [post_rules]:
  assumes "in_tx s" and "\<And>e t. in_tx t \<Longrightarrow> ex_id e = i \<Longrightarrow> has_run i aid ASSIGNED REVIEW SUCCEEDED (view s) (view t) \<Longrightarrow> Q e t"
  shows "post (execute_assignment K i aid c) s Q"
  unfolding execute_assignment_def post_atomic[OF assms(1)]
  by (rule post_mono[OF execute_post[OF assms(1)]]) (use assms(2) in blast)

lemma post_correct [post_rules]:
  assumes "in_tx s" and "\<And>e t. in_tx t \<Longrightarrow> ex_id e = i \<Longrightarrow> has_run i aid REJECTED REVIEW SUCCEEDED (view s) (view t) \<Longrightarrow> Q e t"
  shows "post (execute_correction K i aid c) s Q"
  unfolding execute_correction_def post_atomic[OF assms(1)]
  by (rule post_mono[OF execute_post[OF assms(1)]]) (use assms(2) in blast)

lemma exc_execute:
  assumes "in_tx s"
  shows "exc (execute_assignment K i aid c) s (failing (failed_run i aid ASSIGNED (view s)))"
    and "exc (execute_correction K i aid c) s (failing (failed_run i aid REJECTED (view s)))"
  unfolding execute_assignment_def execute_correction_def exc_atomic[OF assms]
  by (rule execute_exc[OF assms])+

subsection \<open>The other operations raise no recorded failure\<close>

lemma joins_select [joins_rules]: "joins (select_agent role caps)"
  unfolding select_agent_def by (intro joins_rules) (auto intro: joins_rules split: prod.split)

lemma plain_select [plain_rules]: "plain (select_agent role caps)"
  unfolding select_agent_def
  by (intro plain_rules joins_rules) (auto intro: plain_rules simp: validate_required_capabilities_def split: prod.split)

lemma joins_change_status [joins_rules]: "joins (change_status K b a)"
  unfolding change_status_def by (intro joins_rules)

lemma plain_change_status [plain_rules]: "plain (change_status K b a)"
  unfolding change_status_def by (intro plain_rules joins_rules tame_policies)

lemma joins_update_agent [joins_rules]: "joins (update_agent_state K i b)"
  unfolding joins_def using update_agent_spec by (metis prod.collapse)

lemma plain_update_agent [plain_rules]: "plain (update_agent_state K i b)"
  unfolding plain_def using update_agent_spec by blast

lemma joins_restore [joins_rules]: "joins (restore_item pid wid w p)" "joins (restore_closing i a w p ag e)"
  unfolding restore_item_def restore_closing_def by (intro joins_rules; simp)+

lemma plain_restore [plain_rules]:
  "plain (restore_item pid wid w p)" "\<not> committed_failure e \<Longrightarrow> plain (restore_closing i a w p ag e)"
  unfolding restore_item_def restore_closing_def by (intro plain_rules joins_rules; simp)+

lemma joins_release [joins_rules]: "joins (release_agent_capacity K i)"
  unfolding release_agent_capacity_def by (intro joins_rules)

lemma plain_release [plain_rules]: "plain (release_agent_capacity K i)"
  unfolding release_agent_capacity_def by (intro plain_rules joins_rules)

lemma joins_publish_assignment [joins_rules]: "joins (publish_assignment K et a pl)"
  unfolding publish_assignment_def by (intro joins_rules)

lemma plain_publish_assignment [plain_rules]: "plain (publish_assignment K et a pl)"
  unfolding publish_assignment_def by (intro plain_rules)

lemma plain_orchestrator [plain_rules]:
  "plain (assign_work_item K i pid wid role caps)" "plain (complete_assignment K i)" "plain (cancel_assignment K i)"
  unfolding assign_work_item_def complete_assignment_def cancel_assignment_def Let_def
  by (intro plain_rules plain_catch joins_rules; simp)+

lemma joins_orchestrator [joins_rules]: "joins (complete_assignment K i)" "joins (cancel_assignment K i)"
  unfolding complete_assignment_def cancel_assignment_def
  by (intro joins_rules; simp)+

subsection \<open>Recovery\<close>

lemma view_recoveries [simp]: "view (s\<lparr>k_recoveries := d\<rparr>) = view s" "in_tx (s\<lparr>k_recoveries := d\<rparr>) = in_tx s"
  by (simp_all add: view_def count_active_assignments_def in_tx_def)

lemma post_drop_record [post_rules]:
  "in_tx s \<Longrightarrow> (\<And>t. in_tx t \<Longrightarrow> view t = view s \<Longrightarrow> Q () t) \<Longrightarrow> post (drop_record rid) s Q"
  unfolding drop_record_def post_simps by simp

lemma joins_store_record [joins_rules]: "joins (store_record K rid e act reason)"
  unfolding store_record_def Let_def by (intro joins_rules; simp)

lemma plain_store_record [plain_rules]: "plain (store_record K rid e act reason)"
  unfolding store_record_def Let_def by (intro plain_rules plain_catch joins_rules; simp)

lemma post_store_record [post_rules]:
  assumes "in_tx s" and "\<And>r t. in_tx t \<Longrightarrow> view t = view s \<Longrightarrow> Q r t"
  shows "post (store_record K rid e act reason) s Q"
  unfolding store_record_def Let_def post_simps
  by (intro allI impI conjI post_rules post_catch never_rules assms | assumption | simp only: post_simps)+ simp_all

lemma joins_split [joins_rules]: "(\<And>x y. joins (f x y)) \<Longrightarrow> joins (case p of (x, y) \<Rightarrow> f x y)"
  by (cases p) simp

lemma plain_split [plain_rules]: "(\<And>x y. plain (f x y)) \<Longrightarrow> plain (case p of (x, y) \<Rightarrow> f x y)"
  by (cases p) simp

lemma joins_validate [joins_rules]: "joins (validate_recoverable rid eid reason)"
  unfolding validate_recoverable_def by (intro joins_rules)

lemma plain_validate [plain_rules]: "plain (validate_recoverable rid eid reason)"
  unfolding validate_recoverable_def by (intro plain_rules joins_rules; simp)

text \<open>What the validation finds: the execution, its assignment, and the work item they are about.\<close>

lemma post_validate [post_rules]:
  assumes "\<And>e a p w. map_of (k_executions s) eid = Some e \<Longrightarrow> ex_status e = FAILED \<Longrightarrow>
      map_of (k_assignments s) (ex_assignment_id e) = Some a \<Longrightarrow> wa_status a = ACTIVE \<Longrightarrow>
      map_of (k_packages s) (wa_package_id a) = Some p \<Longrightarrow> find_item (wa_work_item_id a) (wp_items p) = Some w \<Longrightarrow>
      wi_state w = RUNNING \<Longrightarrow> Q (e, a) s"
  shows "post (validate_recoverable rid eid reason) s Q"
  unfolding validate_recoverable_def post_simps
  by (intro allI impI) (rule assms; assumption)

definition recoverable :: "string \<Rightarrow> string \<Rightarrow> string \<Rightarrow> string \<Rightarrow> string \<Rightarrow> view \<Rightarrow> bool" where
  "recoverable eid k pid wid g v \<longleftrightarrow> (\<exists>x k0. ve v eid = Some (x, k0, FAILED)
     \<and> va v k0 = Some (k, pid, wid, g, ACTIVE) \<and> vi v (pid, wid) = Some RUNNING)"

lemma recoverableI:
  assumes "map_of (k_executions s) eid = Some e" and "ex_status e = FAILED"
    and "map_of (k_assignments s) (ex_assignment_id e) = Some a" and "wa_status a = ACTIVE"
    and "map_of (k_packages s) (wa_package_id a) = Some p" and "find_item (wa_work_item_id a) (wp_items p) = Some w"
    and "wi_state w = RUNNING"
  shows "recoverable eid (wa_id a) (wa_package_id a) (wa_work_item_id a) (wa_agent_id a) (view s)"
  unfolding recoverable_def using assms view_itemI[OF assms(5,6)]
  by (auto simp: view_assignment assignment_view_def view_execution)

lemma reset_post:
  assumes tx: "in_tx s"
  shows "post (reset_failed_execution K rid eid reason) s (\<lambda>_ t. in_tx t \<and>
    (\<exists>k pid wid g. recoverable eid k pid wid g (view s)
      \<and> view t = (view s)\<lparr>vi := (vi (view s))((pid, wid) \<mapsto> ASSIGNED)\<rparr>))"
  unfolding reset_failed_execution_def post_atomic[OF tx] post_simps
  by (intro allI impI post_rules post_catch never_rules tx | assumption | simp only: post_simps prod.inject)+
    (auto intro!: recoverableI exI)

lemma plain_recoveries [plain_rules]:
  "plain (reset_failed_execution K rid eid reason)" "plain (cancel_failed_assignment K rid eid reason)"
  unfolding reset_failed_execution_def cancel_failed_assignment_def restore_work_def
  by (intro plain_rules plain_catch joins_rules; simp)+

lemma never_restore_closing [never_rules]: "never (restore_closing i a w p ag e)"
  unfolding restore_closing_def by (intro never_rules)

lemma post_cancel [post_rules]:
  assumes "in_tx s" and "\<And>a t. in_tx t \<Longrightarrow> closed i ASSIGNED READY ASSIGNMENT_CANCELLED (view s) (view t) \<Longrightarrow> Q a t"
  shows "post (cancel_assignment K i) s Q"
  by (rule post_mono[OF cancel_post[OF assms(1)]]) (use assms(2) in blast)

lemma cancel_failed_post:
  assumes tx: "in_tx s"
  shows "post (cancel_failed_assignment K rid eid reason) s (\<lambda>_ t. in_tx t \<and>
    (\<exists>k pid wid g. recoverable eid k pid wid g (view s)
      \<and> closed k ASSIGNED READY ASSIGNMENT_CANCELLED ((view s)\<lparr>vi := (vi (view s))((pid, wid) \<mapsto> ASSIGNED)\<rparr>) (view t)))"
  unfolding cancel_failed_assignment_def post_atomic[OF tx] post_simps
  by (intro allI impI post_rules post_catch never_rules tx | assumption | simp only: post_simps prod.inject)+
    (auto intro!: recoverableI exI)

definition retried ::
    "string \<Rightarrow> (string \<Rightarrow> view \<Rightarrow> view \<Rightarrow> bool) \<Rightarrow> view \<Rightarrow> view \<Rightarrow> bool" where
  "retried eid run v v' \<longleftrightarrow> (\<exists>k pid wid g. recoverable eid k pid wid g v
     \<and> run k (v\<lparr>vi := (vi v)((pid, wid) \<mapsto> ASSIGNED)\<rparr>) v')"

lemma retriedI:
  assumes "map_of (k_executions s) eid = Some e" and "ex_status e = FAILED"
    and "map_of (k_assignments s) (ex_assignment_id e) = Some a" and "wa_status a = ACTIVE"
    and "map_of (k_packages s) (wa_package_id a) = Some p" and "find_item (wa_work_item_id a) (wp_items p) = Some w"
    and "wi_state w = RUNNING"
    and "run (wa_id a) ((view s)\<lparr>vi := (vi (view s))((wa_package_id a, wa_work_item_id a) \<mapsto> ASSIGNED)\<rparr>) v'"
  shows "retried eid run (view s) v'"
  unfolding retried_def using recoverableI[OF assms(1-7)] assms(8) by blast

lemma retry_post:
  assumes tx: "in_tx s"
  shows "post (retry_failed_execution K rid eid i reason c) s (\<lambda>e t. in_tx t \<and> ex_id e = i \<and>
    retried eid (\<lambda>k. has_run i k ASSIGNED REVIEW SUCCEEDED) (view s) (view t))"
  unfolding retry_failed_execution_def post_atomic[OF tx] post_simps
  by (intro allI impI post_rules post_catch never_rules tx | assumption | simp only: post_simps prod.inject)+
    (auto intro: retriedI)

text \<open>A retry that fails again keeps its execution, so that its handler restores nothing.\<close>

lemma failed_run_kept:
  assumes "failed_run i k a v (view t)"
  shows "i \<in> ex_id ` set (list_executions t)"
proof -
  obtain st k' where "ve (view t) i = Some (i, k', st)" using assms unfolding failed_run_def has_run_def by auto
  then obtain e where "map_of (k_executions t) i = Some e" "ex_id e = i" by (auto simp: view_execution)
  then show ?thesis by (force simp: list_executions_def dest: map_of_vals)
qed

lemma retry_run_exc:
  assumes tx: "in_tx s" and v: "view s = v"
  shows "exc (bnd (catch (execute_assignment K i k c)
      (\<lambda>x. if committed_failure x then bnd (store_record K rid e RETRY reason) (\<lambda>_. fail x) else fail x)) (\<lambda>r.
    bnd (store_record K rid e RETRY reason) (\<lambda>_. ok r))) s (failing (failed_run i k ASSIGNED v))"
  (is "exc (bnd (catch ?m ?h) ?f) s (failing ?P)")
proof -
  have "exc ?m s (\<lambda>x t. exc (?h x) t (failing ?P))"
  proof (rule exc_mono[OF exc_execute(1)[OF tx, unfolded v]])
    fix x t
    assume f: "failing ?P x t"
    show "exc (?h x) t (failing ?P)"
    proof (cases "committed_failure x")
      case True
      then have "in_tx t" "?P (view t)" using f by (simp_all add: failing_def)
      then have "exc (bnd (store_record K rid e RETRY reason) (\<lambda>_. fail x)) t (failing ?P)"
        by (intro exc_bnd_failing plain_rules post_store_record) (simp_all add: exc_pure failing_def)
      then show ?thesis using True by simp
    qed (simp add: exc_pure)
  qed
  moreover have "post (catch ?m ?h) s (\<lambda>x t. exc (?f x) t (failing ?P))"
    by (intro post_catch never_rules post_execute[OF tx] exc_failing plain_rules joins_rules)
  ultimately show ?thesis by (simp add: exc_bnd exc_catch)
qed

lemma exc_restoring:
  assumes "exc m s (failing Q)"
    and "\<And>t. in_tx t \<Longrightarrow> Q (view t) \<Longrightarrow> i \<in> ex_id ` set (list_executions t) \<and> P (view t)"
  shows "exc (catch m (\<lambda>x. bnd (gets (\<lambda>s. i \<in> set (map ex_id (list_executions s)))) (\<lambda>kept.
    bnd (if kept then ok () else bnd (put_item pid wid f) (\<lambda>_. put_package pid g)) (\<lambda>_. fail x)))) s (failing P)"
  unfolding exc_catch
proof (rule exc_mono[OF assms(1)])
  fix x t
  assume f: "failing Q x t"
  show "exc (bnd (gets (\<lambda>s. i \<in> set (map ex_id (list_executions s)))) (\<lambda>kept.
    bnd (if kept then ok () else bnd (put_item pid wid f) (\<lambda>_. put_package pid g)) (\<lambda>_. fail x))) t (failing P)"
  proof (cases "committed_failure x")
    case True
    then have "in_tx t" "i \<in> ex_id ` set (list_executions t)" "P (view t)" using f assms(2)[of t] by (simp_all add: failing_def)
    then show ?thesis by (simp add: exc_simps post_simps failing_def)
  next
    case False
    then show ?thesis by (simp add: exc_simps post_simps exc_put) (auto simp: post_def)
  qed
qed

lemma retry_exc:
  assumes tx: "in_tx s"
  shows "exc (retry_failed_execution K rid eid i reason c) s
    (failing (retried eid (\<lambda>k. failed_run i k ASSIGNED) (view s)))"
  unfolding retry_failed_execution_def exc_atomic[OF tx] restore_work_def
  by (rule exc_bnd_failing plain_rules tx post_rules | intro allI impI | assumption
      | simp only: post_simps exc_split prod.inject | (simp; fail))+
    (rule exc_restoring, rule exc_bnd_failing, rule plain_recover, rule tx, rule post_recover, rule tx,
      rule retry_run_exc, assumption, assumption, auto intro: failed_run_kept[simplified] retriedI)

end
