(* ===== verification/Delivery.thy ===== *)
theory Delivery
  imports Execution_Specs
begin

section \<open>The delivery machine: what a delivery workflow may do\<close>

text \<open>
  The abstract system that the workflow service implements. A step takes one workflow from a stage
  to the next together with its work item, its assignment and its executions; the tables list
  the moves. The invariants of the machine are proved here, without the code: the stage of a workflow
  determines the state of its work item and of its assignment, no agent is given more active assignments
  than its capacity, and no work item has two active assignments.
\<close>

subsection \<open>The parts of a workflow\<close>

definition cell :: "string \<Rightarrow> string \<times> string" where
  "cell i = (i @ '':package'', i @ '':work-item'')"

definition duty :: "string \<Rightarrow> string" where
  "duty i = i @ '':assignment''"

definition new_flow :: "string \<Rightarrow> flow" where
  "new_flow i = \<lparr>fl_id = i, fl_package = i @ '':package'', fl_item = i @ '':work-item'',
     fl_assignment = None, fl_executions = [], fl_stage = INTAKE\<rparr>"

lemma cell_eq [simp]: "cell i = cell j \<longleftrightarrow> i = j"
  by (auto simp: cell_def)

lemma duty_eq [simp]: "duty i = duty j \<longleftrightarrow> i = j"
  by (auto simp: duty_def)

lemma new_flow_sel [simp]:
  "fl_id (new_flow i) = i" "fl_package (new_flow i) = fst (cell i)" "fl_item (new_flow i) = snd (cell i)"
  "fl_assignment (new_flow i) = None" "fl_executions (new_flow i) = []" "fl_stage (new_flow i) = INTAKE"
  by (simp_all add: new_flow_def cell_def)

subsection \<open>Steps\<close>

text \<open>Stage and item state before, item state and stage after: moves that touch nothing else.\<close>

definition plain_moves :: "(workflow_stage \<times> lifecycle_state \<times> lifecycle_state \<times> workflow_stage) list" where
  "plain_moves = [
     (INTAKE, CREATED, READY, STAGE_READY),
     (STAGE_REVIEW, REVIEW, APPROVED, APPROVAL),
     (STAGE_REVIEW, REVIEW, REJECTED, EXECUTING),
     (STAGE_COMPLETED, COMPLETED, RELEASED, STAGE_RELEASED),
     (STAGE_FAILED, RUNNING, ASSIGNED, STAGE_ASSIGNED),
     (INTAKE, CREATED, CREATED, STAGE_CANCELLED),
     (STAGE_READY, READY, READY, STAGE_CANCELLED)]"

text \<open>Moves that close the assignment.\<close>

definition closing_moves ::
    "(workflow_stage \<times> lifecycle_state \<times> lifecycle_state \<times> assignment_status \<times> workflow_stage) list" where
  "closing_moves = [
     (APPROVAL, APPROVED, COMPLETED, ASSIGNMENT_COMPLETED, STAGE_COMPLETED),
     (STAGE_ASSIGNED, ASSIGNED, READY, ASSIGNMENT_CANCELLED, STAGE_CANCELLED),
     (STAGE_FAILED, RUNNING, READY, ASSIGNMENT_CANCELLED, STAGE_CANCELLED)]"

text \<open>Where an execution may start, and how it may end.\<close>

definition run_from :: "(workflow_stage \<times> lifecycle_state) list" where
  "run_from = [(STAGE_ASSIGNED, ASSIGNED), (EXECUTING, REJECTED), (STAGE_FAILED, RUNNING)]"

definition run_to :: "(lifecycle_state \<times> execution_status \<times> workflow_stage) list" where
  "run_to = [(REVIEW, SUCCEEDED, STAGE_REVIEW), (RUNNING, FAILED, STAGE_FAILED),
     (RUNNING, EXECUTION_RUNNING, STAGE_FAILED)]"

definition put_flow :: "string \<Rightarrow> flow \<Rightarrow> view \<Rightarrow> view" where
  "put_flow i fl v = v\<lparr>vf := (vf v)(i \<mapsto> fl)\<rparr>"

lemma put_flow_sel [simp]:
  "vi (put_flow i fl v) = vi v" "va (put_flow i fl v) = va v" "vc (put_flow i fl v) = vc v"
  "vg (put_flow i fl v) = vg v" "ve (put_flow i fl v) = ve v" "vf (put_flow i fl v) = (vf v)(i \<mapsto> fl)"
  by (simp_all add: put_flow_def)

inductive delivery_step :: "view \<Rightarrow> view \<Rightarrow> bool" where
  register: "g \<notin> (\<lambda>(k, h, m). k) ` set (vg v) \<Longrightarrow> 1 \<le> m \<Longrightarrow> delivery_step v (v\<lparr>vg := vg v @ [(g, g, m)]\<rparr>)"
| submit: "vf v i = None \<Longrightarrow> vi v (cell i) = None \<Longrightarrow>
    delivery_step v (put_flow i (new_flow i) (v\<lparr>vi := (vi v)(cell i \<mapsto> CREATED)\<rparr>))"
| move: "vf v i = Some fl \<Longrightarrow> vi v (cell i) = Some a \<Longrightarrow> (fl_stage fl, a, b, st) \<in> set plain_moves \<Longrightarrow>
    delivery_step v (put_flow i (fl\<lparr>fl_stage := st\<rparr>) (v\<lparr>vi := (vi v)(cell i \<mapsto> b)\<rparr>))"
| assign: "vf v i = Some fl \<Longrightarrow> fl_stage fl = STAGE_READY \<Longrightarrow>
    assigned (duty i) (fst (cell i)) (snd (cell i)) v g v' \<Longrightarrow>
    delivery_step v (put_flow i (fl\<lparr>fl_assignment := Some (duty i), fl_stage := STAGE_ASSIGNED\<rparr>) v')"
| close: "vf v i = Some fl \<Longrightarrow> (fl_stage fl, a, b, as, st) \<in> set closing_moves \<Longrightarrow> closed (duty i) a b as v v' \<Longrightarrow>
    delivery_step v (put_flow i (fl\<lparr>fl_stage := st\<rparr>) v')"
| run: "vf v i = Some fl \<Longrightarrow> ve v x = None \<Longrightarrow> vi v (cell i) = Some a \<Longrightarrow> (fl_stage fl, a) \<in> set run_from \<Longrightarrow>
    (b, es, st) \<in> set run_to \<Longrightarrow>
    delivery_step v (put_flow i (fl\<lparr>fl_executions := fl_executions fl @ [x], fl_stage := st\<rparr>)
      (outcome (cell i) b x (duty i) es v))"

inductive_cases delivery_stepE: "delivery_step v v'"

subsection \<open>The invariant\<close>

text \<open>The states of the work item of a workflow in each stage.\<close>

fun item_states :: "workflow_stage \<Rightarrow> lifecycle_state list" where
  "item_states INTAKE = [CREATED]"
| "item_states PLANNING = []"
| "item_states STAGE_READY = [READY]"
| "item_states STAGE_ASSIGNED = [ASSIGNED]"
| "item_states EXECUTING = [REJECTED]"
| "item_states STAGE_REVIEW = [REVIEW]"
| "item_states APPROVAL = [APPROVED]"
| "item_states STAGE_COMPLETED = [COMPLETED]"
| "item_states STAGE_RELEASED = [RELEASED]"
| "item_states STAGE_FAILED = [RUNNING]"
| "item_states STAGE_CANCELLED = [CREATED, READY]"

definition held_stages :: "workflow_stage list" where
  "held_stages = [STAGE_ASSIGNED, EXECUTING, STAGE_REVIEW, APPROVAL, STAGE_FAILED]"

definition flow_ok :: "view \<Rightarrow> string \<Rightarrow> flow \<Rightarrow> bool" where
  "flow_ok v i fl \<longleftrightarrow> fl_id fl = i \<and> (fl_package fl, fl_item fl) = cell i
     \<and> (\<exists>b \<in> set (item_states (fl_stage fl)). vi v (cell i) = Some b)
     \<and> (fl_stage fl \<in> set held_stages \<longrightarrow> fl_assignment fl = Some (duty i)
         \<and> (\<exists>g. va v (duty i) = Some (duty i, fst (cell i), snd (cell i), g, ACTIVE)))
     \<and> (\<forall>x \<in> set (fl_executions fl). \<exists>st. ve v x = Some (x, duty i, st))"

definition coherent :: "view \<Rightarrow> bool" where
  "coherent v \<longleftrightarrow> (\<forall>i fl. vf v i = Some fl \<longrightarrow> flow_ok v i fl)"

lemma coherentD: "coherent v \<Longrightarrow> vf v i = Some fl \<Longrightarrow> flow_ok v i fl"
  by (simp add: coherent_def)

text \<open>A step on workflow \<open>i\<close> touches only its own item, assignment and a fresh execution.\<close>

lemma coherent_put:
  assumes "coherent v" and "flow_ok v' i fl"
    and "\<And>j. j \<noteq> i \<Longrightarrow> vf v' j = vf v j" and "\<And>j. j \<noteq> i \<Longrightarrow> vi v' (cell j) = vi v (cell j)"
    and "\<And>j. j \<noteq> i \<Longrightarrow> va v' (duty j) = va v (duty j)" and "\<And>x k st. ve v x = Some (x, k, st) \<Longrightarrow> ve v' x = ve v x"
    and "vf v' i = Some fl"
  shows "coherent v'"
  unfolding coherent_def
proof (intro allI impI)
  fix j fl'
  assume j: "vf v' j = Some fl'"
  show "flow_ok v' j fl'"
  proof (cases "j = i")
    case True
    then show ?thesis using assms(2,7) j by simp
  next
    case False
    then have ok: "flow_ok v j fl'" using coherentD[OF assms(1)] assms(3) j by simp
    moreover have "\<exists>st. ve v' x = Some (x, duty j, st)" if "x \<in> set (fl_executions fl')" for x
      using ok that assms(6) unfolding flow_ok_def by metis
    ultimately show ?thesis
      using assms(4)[OF False] assms(5)[OF False] unfolding flow_ok_def by auto
  qed
qed

lemma flow_okI:
  assumes "flow_ok v i fl" and "fl_id fl' = fl_id fl" and "fl_package fl' = fl_package fl" and "fl_item fl' = fl_item fl"
    and "b \<in> set (item_states (fl_stage fl'))" and "vi v' (cell i) = Some b"
    and "fl_stage fl' \<in> set held_stages \<Longrightarrow> fl_assignment fl' = Some (duty i)
      \<and> (\<exists>g. va v' (duty i) = Some (duty i, fst (cell i), snd (cell i), g, ACTIVE))"
    and "\<And>x. x \<in> set (fl_executions fl') \<Longrightarrow> \<exists>st. ve v' x = Some (x, duty i, st)"
  shows "flow_ok v' i fl'"
  using assms unfolding flow_ok_def by auto

lemma closed_cell:
  assumes "flow_ok v i fl" and "fl_stage fl \<in> set held_stages" and "closed (duty i) a b as v v'"
  shows "\<exists>g. vi v (cell i) = Some a \<and> v' = v\<lparr>vi := (vi v)(cell i \<mapsto> b),
    va := (va v)(duty i \<mapsto> (duty i, fst (cell i), snd (cell i), g, as)), vc := (vc v)(g := vc v g - 1)\<rparr>"
  using assms unfolding flow_ok_def closed_def by auto

theorem delivery_coherent: "delivery_step v v' \<Longrightarrow> coherent v \<Longrightarrow> coherent v'"
proof (induction rule: delivery_step.induct)
  case (register g v m)
  then show ?case by (simp add: coherent_def flow_ok_def)
next
  case (submit v i)
  then show ?case
    by - (rule coherent_put[where i = i and fl = "new_flow i"],
      auto simp: flow_ok_def held_stages_def)
next
  case (move v i fl a b st)
  then show ?case
    using coherentD[OF move.prems move.hyps(1)]
    by - (rule coherent_put[where i = i and fl = "fl\<lparr>fl_stage := st\<rparr>"],
      auto simp: flow_ok_def plain_moves_def held_stages_def)
next
  case (assign v i fl g v')
  then show ?case
    using coherentD[OF assign.prems assign.hyps(1)]
    by - (rule coherent_put[where v = v and i = i],
      auto simp: flow_ok_def held_stages_def assigned_def)
next
  case (close v i fl a b as st v')
  note ok = coherentD[OF close.prems close.hyps(1)]
  have held: "fl_stage fl \<in> set held_stages" using close.hyps(2) by (auto simp: closing_moves_def held_stages_def)
  obtain g where v': "v' = v\<lparr>vi := (vi v)(cell i \<mapsto> b),
    va := (va v)(duty i \<mapsto> (duty i, fst (cell i), snd (cell i), g, as)), vc := (vc v)(g := vc v g - 1)\<rparr>"
    using closed_cell[OF ok held close.hyps(3)] by blast
  have "b \<in> set (item_states st)" "st \<notin> set held_stages" 
    using close.hyps(2) by (auto simp: closing_moves_def held_stages_def)
  then have "flow_ok (put_flow i (fl\<lparr>fl_stage := st\<rparr>) v') i (fl\<lparr>fl_stage := st\<rparr>)"
    using ok by (intro flow_okI[OF ok, where b = b]) (auto simp: v' flow_ok_def)
  then show ?case
    by (rule coherent_put[OF close.prems]) (auto simp: v')
next
  case (run v i fl x a b es st)
  note ok = coherentD[OF run.prems run.hyps(1)]
  have "fl_stage fl \<in> set held_stages" "b \<in> set (item_states st)"
    using run.hyps(4,5) by (auto simp: run_from_def run_to_def held_stages_def)
  then have "flow_ok (put_flow i (fl\<lparr>fl_executions := fl_executions fl @ [x], fl_stage := st\<rparr>)
      (outcome (cell i) b x (duty i) es v)) i (fl\<lparr>fl_executions := fl_executions fl @ [x], fl_stage := st\<rparr>)"
    using ok by (intro flow_okI[OF ok, where b = b]) (auto simp: flow_ok_def)
  then show ?case
    by (rule coherent_put[OF run.prems]) (auto simp: run.hyps(2))
qed

subsection \<open>Capacity and exclusiveness\<close>

definition fits :: "view \<Rightarrow> bool" where
  "fits v \<longleftrightarrow> distinct (map fst (vg v))
     \<and> (\<forall>k g m. (k, g, m) \<in> set (vg v) \<longrightarrow> k = g \<and> vc v g \<le> m)
     \<and> (\<forall>g. g \<notin> fst ` set (vg v) \<longrightarrow> vc v g \<le> 0)"

definition exclusive :: "view \<Rightarrow> bool" where
  "exclusive v \<longleftrightarrow> (\<forall>i j k l pid wid g h. va v i = Some (k, pid, wid, g, ACTIVE) \<longrightarrow>
     va v j = Some (l, pid, wid, h, ACTIVE) \<longrightarrow> i = j)"

lemma fits_same: "fits v \<Longrightarrow> vg v' = vg v \<Longrightarrow> vc v' = vc v \<Longrightarrow> fits v'"
  by (simp add: fits_def)

lemma fits_less:
  assumes "fits v" and "vg v' = vg v" and "\<And>g. vc v' g \<le> vc v g"
  shows "fits v'"
  using assms unfolding fits_def by (metis order_trans)

lemma fits_assigned:
  assumes "fits v" and "assigned i pid wid v g v'"
  shows "fits v'"
proof -
  obtain k m where g: "(k, g, m) \<in> set (vg v)" "vc v g < m"
    and v': "v' = v\<lparr>vi := (vi v)((pid, wid) \<mapsto> ASSIGNED), va := (va v)(i \<mapsto> (i, pid, wid, g, ACTIVE)),
      vc := (vc v)(g := vc v g + 1)\<rparr>"
    using assms(2) unfolding assigned_def by blast
  have d: "distinct (map fst (vg v))" and all: "\<And>k g m. (k, g, m) \<in> set (vg v) \<Longrightarrow> k = g \<and> vc v g \<le> m"
    and out: "\<And>g. g \<notin> fst ` set (vg v) \<Longrightarrow> vc v g \<le> 0"
    using assms(1) unfolding fits_def by blast+
  have same: "m' = m" if "(k', g, m') \<in> set (vg v)" for k' m'
    using that g(1) all d by (metis eq_key_imp_eq_value prod.inject)
  have "g \<in> fst ` set (vg v)" using g(1) all by force
  then show ?thesis
    using d all out g(2) same unfolding fits_def v' by auto
qed

lemma exclusive_less:
  assumes "exclusive v" and "\<And>i k pid wid g. va v' i = Some (k, pid, wid, g, ACTIVE) \<Longrightarrow> va v i = Some (k, pid, wid, g, ACTIVE)"
  shows "exclusive v'"
  using assms unfolding exclusive_def by blast

lemma exclusive_assigned:
  assumes "exclusive v" and "assigned i pid wid v g v'"
  shows "exclusive v'"
  using assms unfolding exclusive_def assigned_def by (auto split: if_splits)

lemma put_flow_keeps [simp]: "fits (put_flow i fl v) = fits v" "exclusive (put_flow i fl v) = exclusive v"
  by (simp_all add: fits_def exclusive_def)

lemma closed_less:
  assumes "closed i a b as v v'" and "as \<noteq> ACTIVE"
  shows "vg v' = vg v" and "vc v' g \<le> vc v g"
    and "va v' j = Some (k, pid, wid, h, ACTIVE) \<Longrightarrow> va v j = Some (k, pid, wid, h, ACTIVE)"
  using assms unfolding closed_def by (auto split: if_splits)

lemma closing_status: "(st, a, b, as, st') \<in> set closing_moves \<Longrightarrow> as \<noteq> ACTIVE"
  by (auto simp: closing_moves_def)

theorem delivery_fits: "delivery_step v v' \<Longrightarrow> fits v \<Longrightarrow> fits v'"
proof (induction rule: delivery_step.induct)
  case (register g v m)
  then have "g \<notin> fst ` set (vg v)" by force
  then show ?case using register unfolding fits_def by fastforce
next
  case (assign v i fl g v')
  then show ?case using fits_assigned by simp
next
  case (close v i fl a b as st v')
  note less = closed_less[OF close.hyps(3) closing_status[OF close.hyps(2)]]
  show ?case unfolding put_flow_keeps by (rule fits_less[OF close.prems less(1,2)])
qed (auto elim: fits_same)

theorem delivery_exclusive: "delivery_step v v' \<Longrightarrow> exclusive v \<Longrightarrow> exclusive v'"
proof (induction rule: delivery_step.induct)
  case (assign v i fl g v')
  then show ?case using exclusive_assigned by simp
next
  case (close v i fl a b as st v')
  note less = closed_less[OF close.hyps(3) closing_status[OF close.hyps(2)]]
  show ?case unfolding put_flow_keeps by (rule exclusive_less[OF close.prems less(3)])
qed (auto elim: exclusive_less)

subsection \<open>Stages only move along the policy\<close>

definition stage_of :: "view \<Rightarrow> string \<Rightarrow> workflow_stage option" where
  "stage_of v i = map_option fl_stage (vf v i)"

text \<open>What a step does to one workflow.\<close>

definition stage_move :: "workflow_stage \<Rightarrow> workflow_stage \<Rightarrow> bool" where
  "stage_move a b \<longleftrightarrow> (\<exists>x y. (a, x, y, b) \<in> set plain_moves) \<or> (\<exists>x y as. (a, x, y, as, b) \<in> set closing_moves)
     \<or> (\<exists>x. (a, x) \<in> set run_from) \<and> (\<exists>y es. (y, es, b) \<in> set run_to) \<or> a = STAGE_READY \<and> b = STAGE_ASSIGNED"

lemma closed_flows: "closed i a b as v v' \<Longrightarrow> vf v' = vf v"
  by (auto simp: closed_def)

lemma assigned_flows: "assigned i pid wid v g v' \<Longrightarrow> vf v' = vf v"
  by (auto simp: assigned_def)

lemma stage_put: "stage_of (put_flow i fl v) j = (if j = i then Some (fl_stage fl) else stage_of v j)"
  by (simp add: stage_of_def)

lemma stage_same: "vf v' = vf v \<Longrightarrow> stage_of v' j = stage_of v j"
  by (simp add: stage_of_def)

lemma stage_flow: "vf v i = Some fl \<Longrightarrow> stage_of v i = Some (fl_stage fl)"
  by (simp add: stage_of_def)

lemma stage_changed:
  assumes "stage_of v j = Some a" and "stage_move a st" and "v' = put_flow j fl u" and "fl_stage fl = st" and "vf u = vf v"
  shows "stage_of v' i = stage_of v i \<or> stage_of v i = None \<and> stage_of v' i = Some INTAKE
    \<or> (\<exists>a b. stage_of v i = Some a \<and> stage_of v' i = Some b \<and> stage_move a b)"
  using assms by (cases "i = j") (simp_all add: stage_put stage_same[of u v])

lemma delivery_stage:
  assumes "delivery_step v v'"
  shows "stage_of v' i = stage_of v i \<or> stage_of v i = None \<and> stage_of v' i = Some INTAKE
    \<or> (\<exists>a b. stage_of v i = Some a \<and> stage_of v' i = Some b \<and> stage_move a b)"
  using assms
proof cases
  case (register g m)
  then show ?thesis by (simp add: stage_of_def)
next
  case (submit j)
  then show ?thesis by (simp add: stage_of_def)
next
  case (move j fl a b st)
  then have "stage_move (fl_stage fl) st" unfolding stage_move_def by blast
  then show ?thesis by (rule stage_changed[OF stage_flow[OF move(2)] _ move(1)]) simp_all
next
  case (assign j fl g u)
  then have "stage_move (fl_stage fl) STAGE_ASSIGNED" unfolding stage_move_def by blast
  then show ?thesis by (rule stage_changed[OF stage_flow[OF assign(2)] _ assign(1)]) (simp_all add: assigned_flows[OF assign(4)])
next
  case (close j fl a b as st u)
  then have "stage_move (fl_stage fl) st" unfolding stage_move_def by blast
  then show ?thesis by (rule stage_changed[OF stage_flow[OF close(2)] _ close(1)]) (simp_all add: closed_flows[OF close(4)])
next
  case (run j fl x a b es st)
  then have "stage_move (fl_stage fl) st" unfolding stage_move_def by blast
  then show ?thesis by (rule stage_changed[OF stage_flow[OF run(2)] _ run(1)]) simp_all
qed

end
