(* ===== verification/Workflow_Specs.thy ===== *)
theory Workflow_Specs
  imports Delivery
begin

section \<open>The workflow service implements the delivery machine\<close>

text \<open>
  Each operation of \<^verbatim>\<open>workflows/service.py\<close>, run in a transaction from a kernel whose view is
  coherent, leaves a view that is the same or one step of the delivery machine further, when it returns
  and when it raises a recorded failure. The other failures are rolled back by the transaction.
\<close>

subsection \<open>Rules for the statements of the workflow service\<close>

definition at_flow :: "string \<Rightarrow> (flow \<Rightarrow> flow) \<Rightarrow> view \<Rightarrow> view" where
  "at_flow i f v = (case vf v i of None \<Rightarrow> v | Some fl \<Rightarrow> put_flow i (f fl) v)"

lemma at_flow_simp [simp]: "vf v i = Some fl \<Longrightarrow> at_flow i f v = put_flow i (f fl) v"
  by (simp add: at_flow_def)

lemma view_put_workflow:
  assumes "\<And>w. flow_view (f w) = F (flow_view w)"
  shows "view (s\<lparr>k_workflows := (case map_of (k_workflows s) i of None \<Rightarrow> k_workflows s
      | Some w \<Rightarrow> dset i (f w) (k_workflows s))\<rparr>) = at_flow i F (view s)"
  by (auto simp: at_flow_def view_def put_flow_def fun_eq_iff assms count_active_assignments_def split: option.split)

lemma in_tx_workflows [simp]: "in_tx (s\<lparr>k_workflows := d\<rparr>) = in_tx s"
  by (simp add: in_tx_def)

lemma post_put_workflow:
  assumes "in_tx s" and "\<And>w. flow_view (f w) = F (flow_view w)"
    and "\<And>t. in_tx t \<Longrightarrow> view t = at_flow i F (view s) \<Longrightarrow> Q () t"
  shows "post (put_workflow i f) s Q"
  unfolding put_workflow_def post_simps
  by (rule assms(3)) (simp_all add: view_put_workflow[where F = F, OF assms(2)] assms(1))

text \<open>The writes of the service, and what they do to the flow.\<close>

lemma at_flow_id [simp]: "at_flow i (\<lambda>fl. fl) v = v"
  by (auto simp: at_flow_def put_flow_def fun_upd_idem split: option.split)

lemma post_put_notes [post_rules]:
  assumes "in_tx s" and "\<And>t. in_tx t \<Longrightarrow> view t = view s \<Longrightarrow> Q () t"
  shows "post (put_workflow i (\<lambda>w. w\<lparr>wf_failure_reason := a\<rparr>)) s Q"
    and "post (put_workflow i (\<lambda>w. w\<lparr>wf_rejection_reason := a, wf_approved_at := b\<rparr>)) s Q"
    and "post (put_workflow i (\<lambda>w. w\<lparr>wf_approved_at := b, wf_rejection_reason := a\<rparr>)) s Q"
  by (rule post_put_workflow[where F = "\<lambda>fl. fl"]; use assms in \<open>simp add: flow_view_def\<close>)+

lemma post_put_duty [post_rules]:
  "in_tx s \<Longrightarrow> (\<And>t. in_tx t \<Longrightarrow> view t = at_flow i (\<lambda>fl. fl\<lparr>fl_assignment := a\<rparr>) (view s) \<Longrightarrow> Q () t) \<Longrightarrow>
    post (put_workflow i (\<lambda>w. w\<lparr>wf_assignment_id := a\<rparr>)) s Q"
  by (rule post_put_workflow[where F = "\<lambda>fl. fl\<lparr>fl_assignment := a\<rparr>"]) (simp_all add: flow_view_def)

lemma post_put_execution_id [post_rules]:
  "in_tx s \<Longrightarrow> (\<And>t. in_tx t \<Longrightarrow> view t = at_flow i (\<lambda>fl. fl\<lparr>fl_executions := fl_executions fl @ [x]\<rparr>) (view s) \<Longrightarrow> Q () t) \<Longrightarrow>
    post (put_workflow i (\<lambda>w. w\<lparr>wf_execution_ids := wf_execution_ids w @ [x], wf_failure_reason := r\<rparr>)) s Q"
  by (rule post_put_workflow[where F = "\<lambda>fl. fl\<lparr>fl_executions := fl_executions fl @ [x]\<rparr>"]) (simp_all add: flow_view_def)

lemma post_put_execution_once [post_rules]:
  "in_tx s \<Longrightarrow> (\<And>t. in_tx t \<Longrightarrow> view t = at_flow i (\<lambda>fl. fl\<lparr>fl_executions :=
      (if x \<in> set (fl_executions fl) then fl_executions fl else fl_executions fl @ [x])\<rparr>) (view s) \<Longrightarrow> Q () t) \<Longrightarrow>
    post (put_workflow i (\<lambda>w. w\<lparr>wf_execution_ids :=
      (if x \<in> set (wf_execution_ids w) then wf_execution_ids w else wf_execution_ids w @ [x]), wf_failure_reason := r\<rparr>)) s Q"
  by (rule post_put_workflow[where F = "\<lambda>fl. fl\<lparr>fl_executions :=
      (if x \<in> set (fl_executions fl) then fl_executions fl else fl_executions fl @ [x])\<rparr>"]) (simp_all add: flow_view_def)

lemma post_move [post_rules]:
  "in_tx s \<Longrightarrow> (\<And>t. in_tx t \<Longrightarrow> view t = at_flow i (\<lambda>fl. fl\<lparr>fl_stage := b\<rparr>) (view s) \<Longrightarrow> Q () t) \<Longrightarrow>
    post (move_to K i b) s Q"
  unfolding move_to_def post_simps
  by (intro allI impI post_now post_put_workflow[where F = "\<lambda>fl. fl\<lparr>fl_stage := b\<rparr>"])
    (simp_all add: flow_view_def)

lemma joins_move [joins_rules]: "joins (move_to K i b)"
  unfolding move_to_def by (intro joins_rules)

lemma plain_move [plain_rules]: "plain (move_to K i b)"
  unfolding move_to_def by (intro plain_rules joins_rules tame_policies)

text \<open>Publications and the identifiers they carry.\<close>

lemma quiet_correlation [quiet_rules]: "quiet (correlation_id w)"
  unfolding correlation_id_def by (intro quiet_rules)

lemma plain_correlation [plain_rules]: "plain (correlation_id w)"
  unfolding correlation_id_def by (intro plain_rules joins_rules)

lemmas joins_correlation [joins_rules] = quiet_correlation[THEN joins_quiet]

lemma quiet_eventing:
  "quiet m \<Longrightarrow> (\<And>s. k_eventing s \<Longrightarrow> n s = m s) \<Longrightarrow> quiet n"
  unfolding quiet_def in_tx_def by metis

lemma plain_eventing:
  "plain m \<Longrightarrow> (\<And>s. k_eventing s \<Longrightarrow> n s = m s) \<Longrightarrow> plain n"
  unfolding plain_def in_tx_def by metis

lemma tame_correlation_list [simp]: "tame (list_events_for_correlation c st)"
  by (simp add: list_events_for_correlation_def validate_required_string_def)

lemma quiet_last_event [quiet_rules]: "quiet (last_event_id w)"
  by (rule quiet_eventing[rotated], simp add: last_event_id_def) (intro quiet_rules)

lemma plain_gets_sum:
  "(\<And>s. tame (f s)) \<Longrightarrow> (\<And>x. plain (g x)) \<Longrightarrow> plain (bnd (gets f) (\<lambda>r. bnd (of_sum r) g))"
  unfolding plain_def by (auto simp: bnd_gets bnd_of_sum dest: tameD split: sum.splits)

lemma plain_last_event [plain_rules]: "plain (last_event_id w)"
  by (rule plain_eventing[rotated], simp add: last_event_id_def)
    (rule plain_gets_sum plain_rules joins_rules | simp)+

lemmas joins_last_event [joins_rules] = quiet_last_event[THEN joins_quiet]

lemma quiet_wpublish [quiet_rules]: "quiet (wpublish K i et pl)"
  by (rule quiet_eventing[rotated], simp add: wpublish_def) (intro quiet_rules)

lemma plain_wpublish [plain_rules]: "plain (wpublish K i et pl)"
  by (rule plain_eventing[rotated], simp add: wpublish_def) (intro plain_rules joins_rules)

lemmas joins_wpublish [joins_rules] = quiet_wpublish[THEN joins_quiet]

lemma quiet_context [quiet_rules]: "quiet (execution_context w)"
  unfolding execution_context_def by (intro quiet_rules)

lemma plain_context [plain_rules]: "plain (execution_context w)"
  unfolding execution_context_def by (intro plain_rules joins_rules)

lemmas joins_context [joins_rules] = quiet_context[THEN joins_quiet]

lemmas post_wpublish [post_rules] = post_quiet[OF quiet_wpublish]
lemmas post_context [post_rules] = post_quiet[OF quiet_context]

subsection \<open>Operations that move the stage and the item\<close>

definition moved :: "view \<Rightarrow> view \<Rightarrow> bool" where
  "moved v v' \<longleftrightarrow> v' = v \<or> delivery_step v v'"

lemma moved_same [simp]: "moved v v"
  by (simp add: moved_def)

lemma put_flow_again [simp]: "put_flow i a (put_flow i b v) = put_flow i a v"
  by (simp add: put_flow_def)

lemma put_flow_swap [simp]:
  "(put_flow i fl v)\<lparr>vi := m\<rparr> = put_flow i fl (v\<lparr>vi := m\<rparr>)"
  "(put_flow i fl v)\<lparr>va := n\<rparr> = put_flow i fl (v\<lparr>va := n\<rparr>)"
  "(put_flow i fl v)\<lparr>vc := c\<rparr> = put_flow i fl (v\<lparr>vc := c\<rparr>)"
  by (simp_all add: put_flow_def)

lemma view_flow: "vf (view s) i = map_option flow_view (map_of (k_workflows s) i)"
  by (simp add: view_def)

lemma flow_view_sel [simp]:
  "fl_id (flow_view w) = wf_id w" "fl_package (flow_view w) = wf_package_id w" "fl_item (flow_view w) = wf_item_id w"
  "fl_assignment (flow_view w) = wf_assignment_id w" "fl_executions (flow_view w) = wf_execution_ids w"
  "fl_stage (flow_view w) = wf_stage w"
  by (simp_all add: flow_view_def)

lemma workflow_ok:
  assumes "coherent (view s)" and "map_of (k_workflows s) i = Some w"
  shows "vf (view s) i = Some (flow_view w)" and "flow_ok (view s) i (flow_view w)"
    and "wf_id w = i" and "(wf_package_id w, wf_item_id w) = cell i"
proof -
  show v: "vf (view s) i = Some (flow_view w)" using assms(2) by (simp add: view_flow)
  show ok: "flow_ok (view s) i (flow_view w)" by (rule coherentD[OF assms(1) v])
  show "wf_id w = i" "(wf_package_id w, wf_item_id w) = cell i" using ok by (simp_all add: flow_ok_def)
qed

lemma plain_move_from: "(st, a, b, st') \<in> set plain_moves \<Longrightarrow> item_states st = [a]"
  by (auto simp: plain_moves_def)

lemma moved_plain:
  assumes "coherent (view s)" and "map_of (k_workflows s) i = Some w" and "\<exists>a. (wf_stage w, a, b, st) \<in> set plain_moves"
  shows "moved (view s)
    (put_flow i ((flow_view w)\<lparr>fl_stage := st\<rparr>) ((view s)\<lparr>vi := (vi (view s))(cell i \<mapsto> b)\<rparr>))"
proof -
  note w = workflow_ok[OF assms(1,2)]
  obtain a where a: "(wf_stage w, a, b, st) \<in> set plain_moves" using assms(3) by blast
  have "vi (view s) (cell i) = Some a" using w(2) plain_move_from[OF a] by (simp add: flow_ok_def)
  then show ?thesis using delivery_step.move[OF w(1), of a b st] a by (simp add: moved_def)
qed

lemma stage_Inr [simp]:
  "require_stage a b = Inr u \<longleftrightarrow> a = b" "require_approval_stage a = Inr u \<longleftrightarrow> a = STAGE_REVIEW"
  "require_release_stage a = Inr u \<longleftrightarrow> a = STAGE_COMPLETED" "require_recoverable a = Inr u \<longleftrightarrow> a = STAGE_FAILED"
  by (simp_all add: require_stage_def require_approval_stage_def require_release_stage_def require_recoverable_def)

lemma plan_post:
  assumes tx: "in_tx s" and co: "coherent (view s)"
  shows "post (plan_request K i) s (\<lambda>_ t. in_tx t \<and> moved (view s) (view t))"
  unfolding plan_request_def post_atomic[OF tx] post_simps
  by (intro allI impI conjI post_rules tx | assumption | simp only: post_simps)+
    (simp add: workflow_ok[OF co], rule moved_plain[OF co]; simp add: plain_moves_def)

lemma prepare_post:
  assumes tx: "in_tx s" and co: "coherent (view s)"
  shows "post (prepare_work K i) s (\<lambda>_ t. in_tx t \<and> moved (view s) (view t))"
  unfolding prepare_work_def post_atomic[OF tx] post_simps
  using tx co by (auto dest!: workflow_ok(2)[OF co] simp: flow_ok_def)

lemma approve_post:
  assumes tx: "in_tx s" and co: "coherent (view s)"
  shows "post (approve_work K i) s (\<lambda>_ t. in_tx t \<and> moved (view s) (view t))"
  unfolding approve_work_def post_atomic[OF tx] post_simps
  by (intro allI impI conjI post_rules tx | assumption | simp only: post_simps)+
    (simp add: workflow_ok[OF co], rule moved_plain[OF co]; simp add: plain_moves_def)

lemma reject_post:
  assumes tx: "in_tx s" and co: "coherent (view s)"
  shows "post (reject_work K i reason) s (\<lambda>_ t. in_tx t \<and> moved (view s) (view t))"
  unfolding reject_work_def post_atomic[OF tx] post_simps
  by (intro allI impI conjI post_rules tx | assumption | simp only: post_simps)+
    (simp add: workflow_ok[OF co], rule moved_plain[OF co]; simp add: plain_moves_def)

lemma release_post:
  assumes tx: "in_tx s" and co: "coherent (view s)"
  shows "post (release_work K i) s (\<lambda>_ t. in_tx t \<and> moved (view s) (view t))"
  unfolding release_work_def post_atomic[OF tx] post_simps
  by (intro allI impI conjI post_rules tx | assumption | simp only: post_simps)+
    (simp add: workflow_ok[OF co], rule moved_plain[OF co]; simp add: plain_moves_def)

subsection \<open>Submitting, assigning, completing\<close>

lemma post_create [post_rules]:
  assumes "in_tx s" and "\<And>p t. in_tx t \<Longrightarrow> view t = view s \<Longrightarrow> Q p t"
  shows "post (create_work_package K pid title descr owner) s Q"
proof (rule postI)
  fix p t
  assume "create_work_package K pid title descr owner s = (Inr p, t)"
  from create_package_spec[OF assms(1) this] show "Q p t" using assms(2) by blast
qed

lemma post_add_item [post_rules]:
  assumes "in_tx s" and "\<And>w t. in_tx t \<Longrightarrow> vi (view s) (pid, wid) = None \<Longrightarrow>
      view t = (view s)\<lparr>vi := (vi (view s))((pid, wid) \<mapsto> CREATED)\<rparr> \<Longrightarrow> Q w t"
  shows "post (add_work_item K pid wid title descr prio asg) s Q"
proof (rule postI)
  fix w t
  assume "add_work_item K pid wid title descr prio asg s = (Inr w, t)"
  from add_item_spec[OF assms(1) this] show "Q w t" using assms(2) by blast
qed

lemma view_new_workflow [simp]:
  "view (s\<lparr>k_workflows := dset i w (k_workflows s), k_requests := r\<rparr>) = put_flow i (flow_view w) (view s)"
  "in_tx (s\<lparr>k_workflows := d, k_requests := r\<rparr>) = in_tx s"
  by (auto simp: view_def put_flow_def fun_eq_iff count_active_assignments_def in_tx_def)

lemma submit_post:
  assumes tx: "in_tx s"
  shows "post (submit_request K r i) s (\<lambda>_ t. in_tx t \<and> moved (view s) (view t))"
proof -
  have new: "\<lparr>fl_id = j, fl_package = j @ '':package'', fl_item = j @ '':work-item'', fl_assignment = None,
      fl_executions = [], fl_stage = INTAKE\<rparr> = new_flow j" for j
    by (simp add: new_flow_def)
  have cell: "(j @ '':package'', j @ '':work-item'') = cell j" for j by (simp add: cell_def)
  have step: "moved (view s) (put_flow j (new_flow j) ((view s)\<lparr>vi := (vi (view s))(cell j \<mapsto> CREATED)\<rparr>))"
    if "j \<notin> fst ` set (k_workflows s)" "vi (view s) (cell j) = None" for j
    using delivery_step.submit[of "view s" j] that by (simp add: moved_def view_flow map_of_eq_None_iff)
  show ?thesis
    unfolding submit_request_def post_atomic[OF tx] post_simps Let_def
    by (intro allI impI conjI post_rules tx | assumption | simp only: post_simps view_new_workflow)+
      (simp add: flow_view_def new cell step)
qed

lemma post_assign [post_rules]:
  assumes "in_tx s" and "\<And>a t. in_tx t \<Longrightarrow> wa_id a = i \<Longrightarrow> assigned i pid wid (view s) (wa_agent_id a) (view t) \<Longrightarrow> Q a t"
  shows "post (assign_work_item K i pid wid role caps) s Q"
  by (rule post_mono[OF assign_post[OF assms(1)]]) (use assms(2) in blast)

lemma post_complete [post_rules]:
  assumes "in_tx s" and "\<And>a t. in_tx t \<Longrightarrow> closed i APPROVED COMPLETED ASSIGNMENT_COMPLETED (view s) (view t) \<Longrightarrow> Q a t"
  shows "post (complete_assignment K i) s Q"
  by (rule post_mono[OF complete_post[OF assms(1)]]) (use assms(2) in blast)

lemma moved_assigned:
  assumes "coherent (view s)" and "map_of (k_workflows s) i = Some w" and "wf_stage w = STAGE_READY"
    and "assigned (i @ '':assignment'') (wf_package_id w) (wf_item_id w) (view s) g v'"
  shows "moved (view s) (put_flow i ((flow_view w)\<lparr>fl_assignment := Some (i @ '':assignment''), fl_stage := STAGE_ASSIGNED\<rparr>) v')"
proof -
  note w = workflow_ok[OF assms(1,2)]
  have "wf_package_id w = fst (cell i)" "wf_item_id w = snd (cell i)" using w(4) by (metis fst_conv snd_conv)+
  then show ?thesis
    using delivery_step.assign[OF w(1), of g v'] assms(3,4) by (simp add: moved_def duty_def)
qed

lemma assign_work_post:
  assumes tx: "in_tx s" and co: "coherent (view s)"
  shows "post (assign_work K i) s (\<lambda>_ t. in_tx t \<and> moved (view s) (view t))"
  unfolding assign_work_def post_atomic[OF tx] post_simps
  by (intro allI impI conjI post_rules tx | assumption | simp only: post_simps)+
    (simp add: workflow_ok(1,3)[OF co] assigned_flows, rule moved_assigned[OF co]; simp add: workflow_ok(3)[OF co])

lemma moved_closed:
  assumes "coherent (view s)" and "map_of (k_workflows s) i = Some w" and "(wf_stage w, a, b, as, st) \<in> set closing_moves"
    and "wf_assignment_id w = Some k" and "closed k a b as (view s) v'"
  shows "moved (view s) (put_flow i ((flow_view w)\<lparr>fl_stage := st\<rparr>) v')"
proof -
  note w = workflow_ok[OF assms(1,2)]
  have "wf_stage w \<in> set held_stages" using assms(3) by (auto simp: closing_moves_def held_stages_def)
  then have "k = duty i" using w(2) assms(4) by (simp add: flow_ok_def)
  then show ?thesis using delivery_step.close[OF w(1), of a b as st v'] assms(3,5) by (simp add: moved_def)
qed

lemma post_duty [post_simps]:
  "post (require_assignment_id w) s Q = (\<forall>k. wf_assignment_id w = Some k \<longrightarrow> Q k s)"
  by (auto simp: post_def require_assignment_id_def fail_def ok_def split: option.split)

lemma quiet_ids [quiet_rules]: "quiet (require_assignment_id w)" "quiet (last_execution_id w)"
  unfolding require_assignment_id_def last_execution_id_def
  by (auto intro: quiet_rules split: option.split list.split)

lemma plain_ids [plain_rules]: "plain (require_assignment_id w)" "plain (last_execution_id w)"
  unfolding require_assignment_id_def last_execution_id_def
  by (auto intro: plain_rules split: option.split list.split)

lemmas joins_ids [joins_rules] = quiet_ids[THEN joins_quiet]

lemma complete_work_post:
  assumes tx: "in_tx s" and co: "coherent (view s)"
  shows "post (complete_work K i) s (\<lambda>_ t. in_tx t \<and> moved (view s) (view t))"
  unfolding complete_work_def post_atomic[OF tx] post_simps
  by (intro allI impI conjI post_rules tx | assumption | simp only: post_simps)+
    (simp add: workflow_ok(1,3)[OF co] closed_flows, rule moved_closed[OF co]; (assumption | simp add: closing_moves_def)?)

subsection \<open>Executing, recovering, cancelling\<close>

lemma post_last_execution [post_simps]:
  "post (last_execution_id w) s Q = (\<forall>x. wf_execution_ids w \<noteq> [] \<and> x = last (wf_execution_ids w) \<longrightarrow> Q x s)"
  by (cases "wf_execution_ids w" rule: rev_cases) (auto simp: post_def last_execution_id_def fail_def ok_def)

text \<open>The failed execution of a workflow belongs to its assignment, and that to its work item.\<close>

lemma recover_cell:
  assumes "coherent (view s)" and "map_of (k_workflows s) i = Some w" and "wf_stage w = STAGE_FAILED"
    and "eid \<in> set (wf_execution_ids w)" and "recoverable eid k pid wid g (view s)"
  shows "k = duty i" and "(pid, wid) = cell i"
    and "va (view s) (duty i) = Some (duty i, fst (cell i), snd (cell i), g, ACTIVE)"
    and "vi (view s) (cell i) = Some RUNNING"
proof -
  note w = workflow_ok[OF assms(1,2)]
  obtain st where "ve (view s) eid = Some (eid, duty i, st)" using w(2) assms(4) by (auto simp: flow_ok_def)
  moreover obtain h where duty: "va (view s) (duty i) = Some (duty i, fst (cell i), snd (cell i), h, ACTIVE)"
    using w(2) assms(3) by (auto simp: flow_ok_def held_stages_def)
  ultimately have e: "(k, pid, wid, g) = (duty i, fst (cell i), snd (cell i), h)"
    and r: "vi (view s) (pid, wid) = Some RUNNING" using assms(5) by (auto simp: recoverable_def)
  show "k = duty i" "(pid, wid) = cell i"
    "va (view s) (duty i) = Some (duty i, fst (cell i), snd (cell i), g, ACTIVE)" "vi (view s) (cell i) = Some RUNNING"
    using e r duty by simp_all
qed

lemma post_reset [post_rules]:
  assumes "in_tx s" and "\<And>a t k pid wid g. in_tx t \<Longrightarrow> recoverable eid k pid wid g (view s) \<Longrightarrow>
      view t = (view s)\<lparr>vi := (vi (view s))((pid, wid) \<mapsto> ASSIGNED)\<rparr> \<Longrightarrow> Q a t"
  shows "post (reset_failed_execution K rid eid reason) s Q"
  by (rule post_mono[OF reset_post[OF assms(1)]]) (use assms(2) in blast)

lemma post_cancel_failed [post_rules]:
  assumes "in_tx s" and "\<And>a t k pid wid g. in_tx t \<Longrightarrow> recoverable eid k pid wid g (view s) \<Longrightarrow>
      closed k ASSIGNED READY ASSIGNMENT_CANCELLED ((view s)\<lparr>vi := (vi (view s))((pid, wid) \<mapsto> ASSIGNED)\<rparr>) (view t) \<Longrightarrow> Q a t"
  shows "post (cancel_failed_assignment K rid eid reason) s Q"
  by (rule post_mono[OF cancel_failed_post[OF assms(1)]]) (use assms(2) in blast)

lemma post_retry [post_rules]:
  assumes "in_tx s" and "\<And>e t. in_tx t \<Longrightarrow> ex_id e = j \<Longrightarrow>
      retried eid (\<lambda>k. has_run j k ASSIGNED REVIEW SUCCEEDED) (view s) (view t) \<Longrightarrow> Q e t"
  shows "post (retry_failed_execution K rid eid j reason c) s Q"
  by (rule post_mono[OF retry_post[OF assms(1)]]) (use assms(2) in blast)

text \<open>Cancelling a failed assignment closes it from the running item.\<close>

lemma closed_failed:
  assumes "coherent (view s)" and "map_of (k_workflows s) i = Some w" and "wf_stage w = STAGE_FAILED"
    and "eid \<in> set (wf_execution_ids w)" and "recoverable eid k pid wid g (view s)"
    and "closed k ASSIGNED READY as ((view s)\<lparr>vi := (vi (view s))((pid, wid) \<mapsto> ASSIGNED)\<rparr>) v'"
  shows "closed (duty i) RUNNING READY as (view s) v'"
proof -
  note r = recover_cell[OF assms(1-5)]
  show ?thesis
    using assms(6) r unfolding closed_def by auto
qed

lemma moved_failed:
  assumes "coherent (view s)" and "map_of (k_workflows s) i = Some w" and "wf_stage w = STAGE_FAILED"
    and "eid \<in> set (wf_execution_ids w)" and "recoverable eid k pid wid g (view s)"
    and "closed k ASSIGNED READY ASSIGNMENT_CANCELLED ((view s)\<lparr>vi := (vi (view s))((pid, wid) \<mapsto> ASSIGNED)\<rparr>) v'"
  shows "moved (view s) (put_flow i ((flow_view w)\<lparr>fl_stage := STAGE_CANCELLED\<rparr>) v')"
proof -
  have "wf_assignment_id w = Some (duty i)"
    using workflow_ok(2)[OF assms(1,2)] assms(3) by (simp add: flow_ok_def held_stages_def)
  from moved_closed[OF assms(1,2) _ this closed_failed[OF assms]] show ?thesis
    using assms(3) by (simp add: closing_moves_def)
qed

lemma moved_idle:
  assumes "coherent (view s)" and "map_of (k_workflows s) i = Some w" and "\<exists>a. (wf_stage w, a, a, st) \<in> set plain_moves"
  shows "moved (view s) (put_flow i ((flow_view w)\<lparr>fl_stage := st\<rparr>) (view s))"
proof -
  obtain a where a: "(wf_stage w, a, a, st) \<in> set plain_moves" using assms(3) by blast
  then have "vi (view s) (cell i) = Some a"
    using workflow_ok(2)[OF assms(1,2)] plain_move_from[OF a] by (simp add: flow_ok_def)
  then have "(view s)\<lparr>vi := (vi (view s))(cell i \<mapsto> a)\<rparr> = view s" by (simp add: fun_upd_idem)
  then show ?thesis using moved_plain[OF assms(1,2), of a st] a by auto
qed

lemma cancellable_Inr: "require_cancellable a = Inr u \<longleftrightarrow> a = INTAKE \<or> a = STAGE_READY \<or> a = STAGE_ASSIGNED \<or> a = STAGE_FAILED"
  by (auto simp: require_cancellable_def cancellable_stages_def)

lemma cancel_work_post:
  assumes tx: "in_tx s" and co: "coherent (view s)"
  shows "post (cancel_workflow K i reason) s (\<lambda>_ t. in_tx t \<and> moved (view s) (view t))"
  unfolding cancel_workflow_def post_atomic[OF tx] post_simps
proof (intro allI impI conjI post_rules tx | assumption | simp only: post_simps)+
qed (simp_all add: workflow_ok(1,3)[OF co] closed_flows cancellable_Inr,
    (rule moved_closed[OF co]; (assumption | (simp add: closing_moves_def; fail)))
    | (rule moved_idle[OF co]; (assumption | (auto simp: plain_moves_def; fail)))
    | (rule moved_failed[OF co]; (assumption | (simp; fail))))+

subsection \<open>Executing\<close>

text \<open>The run of a workflow's assignment works on its own item.\<close>

lemma run_cell:
  assumes "coherent (view s)" and "map_of (k_workflows s) i = Some w" and "wf_stage w \<in> set held_stages"
    and "va v = va (view s)" and "vi v = vi (view s)" and "ve v = ve (view s)"
    and "wf_assignment_id w = Some k" and "has_run j k a b es v u"
  shows "ve (view s) j = None" and "vi (view s) (cell i) = Some a" and "u = outcome (cell i) b j (duty i) es v"
    and "j \<notin> set (wf_execution_ids w)"
proof -
  note ok = workflow_ok(2)[OF assms(1,2)]
  have k: "k = duty i" using ok assms(3,7) by (simp add: flow_ok_def)
  obtain h where duty: "va (view s) (duty i) = Some (duty i, fst (cell i), snd (cell i), h, ACTIVE)"
    using ok assms(3) by (auto simp: flow_ok_def)
  have run: "ve (view s) j = None \<and> vi (view s) (cell i) = Some a \<and> u = outcome (cell i) b j (duty i) es v"
    using assms(4-6,8) duty unfolding has_run_def k by auto
  then show none: "ve (view s) j = None" and "vi (view s) (cell i) = Some a" and "u = outcome (cell i) b j (duty i) es v"
    by simp_all
  show "j \<notin> set (wf_execution_ids w)" using ok none by (force simp: flow_ok_def)
qed

lemma outcome_put [simp]: "outcome c b j k es (put_flow i fl v) = put_flow i fl (outcome c b j k es v)"
  by (simp add: outcome_def put_flow_def)

definition flow_run :: "string \<Rightarrow> string \<Rightarrow> workflow_stage \<Rightarrow> view \<Rightarrow> view" where
  "flow_run i j st v = at_flow i (\<lambda>fl. fl\<lparr>fl_stage := st\<rparr>) (at_flow i (\<lambda>fl. fl\<lparr>fl_executions := fl_executions fl @ [j]\<rparr>) v)"

definition begun :: "string \<Rightarrow> view \<Rightarrow> view \<Rightarrow> bool" where
  "begun i v v' \<longleftrightarrow> v' = v \<or> (\<exists>st. v' = at_flow i (\<lambda>fl. fl\<lparr>fl_stage := st\<rparr>) v)"

lemma begunI: "begun i v v" "begun i v (at_flow i (\<lambda>fl. fl\<lparr>fl_stage := st\<rparr>) v)"
  by (auto simp: begun_def)

lemma moved_run:
  assumes "coherent (view s)" and "map_of (k_workflows s) i = Some w" and "wf_stage w = STAGE_ASSIGNED \<or> wf_stage w = EXECUTING"
    and "has_run j k a b es v u" and "(b, es, st) \<in> set run_to" and "wf_assignment_id w = Some k"
    and "begun i (view s) v"
  shows "moved (view s) (flow_run i j st u)"
    and "at_flow i (\<lambda>fl. fl\<lparr>fl_executions := (if j \<in> set (fl_executions fl) then fl_executions fl
      else fl_executions fl @ [j])\<rparr>) u = at_flow i (\<lambda>fl. fl\<lparr>fl_executions := fl_executions fl @ [j]\<rparr>) u"
proof -
  note w = workflow_ok[OF assms(1,2)]
  have held: "wf_stage w \<in> set held_stages" using assms(3) by (auto simp: held_stages_def)
  have same: "va v = va (view s)" "vi v = vi (view s)" "ve v = ve (view s)" using assms(7) w(1) by (auto simp: begun_def)
  note r = run_cell[OF assms(1,2) held same assms(6,4)]
  have start: "(wf_stage w, a) \<in> set run_from" using w(2) r(2) assms(3) by (auto simp: flow_ok_def run_from_def)
  have "delivery_step (view s) (put_flow i ((flow_view w)\<lparr>fl_executions := wf_execution_ids w @ [j], fl_stage := st\<rparr>)
      (outcome (cell i) b j (duty i) es (view s)))"
    using delivery_step.run[OF w(1) r(1,2) _ assms(5)] start by simp
  moreover have fl: "\<exists>st'. vf u i = Some ((flow_view w)\<lparr>fl_stage := st'\<rparr>)"
    using assms(7) w(1) by (auto simp: r(3) flow_view_def begun_def)
  moreover have "flow_run i j st u = put_flow i ((flow_view w)\<lparr>fl_executions := wf_execution_ids w @ [j], fl_stage := st\<rparr>)
      (outcome (cell i) b j (duty i) es (view s))"
    using assms(7) w(1) by (auto simp: flow_run_def r(3) begun_def)
  ultimately show "moved (view s) (flow_run i j st u)" by (simp add: moved_def)
  show "at_flow i (\<lambda>fl. fl\<lparr>fl_executions := (if j \<in> set (fl_executions fl) then fl_executions fl
      else fl_executions fl @ [j])\<rparr>) u = at_flow i (\<lambda>fl. fl\<lparr>fl_executions := fl_executions fl @ [j]\<rparr>) u"
    using fl r(4) by auto
qed

lemma never_note [never_rules]: "never (note_failed_execution K i j e)" "never (note_failed_retry K i j e)"
  unfolding note_failed_execution_def note_failed_retry_def by (intro never_rules)+

lemma flow_run_fold:
  "at_flow i (\<lambda>fl. fl\<lparr>fl_stage := st\<rparr>) (at_flow i (\<lambda>fl. fl\<lparr>fl_executions := fl_executions fl @ [j]\<rparr>) v) = flow_run i j st v"
  by (simp add: flow_run_def)

lemma moved_success:
  assumes "coherent (view s)" and "map_of (k_workflows s) i = Some w" and "wf_stage w = STAGE_ASSIGNED \<or> wf_stage w = EXECUTING"
    and "wf_assignment_id w = Some k" and "begun i (view s) v"
    and "has_run j k a REVIEW SUCCEEDED v u"
  shows "moved (view s) (flow_run i j STAGE_REVIEW u)"
  by (rule moved_run(1)[OF assms(1-3,6) _ assms(4,5)]) (simp add: run_to_def)

lemma moved_failure:
  assumes "coherent (view s)" and "map_of (k_workflows s) i = Some w" and "wf_stage w = STAGE_ASSIGNED \<or> wf_stage w = EXECUTING"
    and "wf_assignment_id w = Some k" and "begun i (view s) v"
    and "failed_run j k a v u"
  shows "moved (view s) (at_flow i (\<lambda>fl. fl\<lparr>fl_stage := STAGE_FAILED\<rparr>) (at_flow i (\<lambda>fl. fl\<lparr>fl_executions :=
      (if j \<in> set (fl_executions fl) then fl_executions fl else fl_executions fl @ [j])\<rparr>) u))"
proof -
  obtain st where st: "st = EXECUTION_RUNNING \<or> st = FAILED" and run: "has_run j k a RUNNING st v u"
    using assms(6) unfolding failed_run_def by blast
  have "(RUNNING, st, STAGE_FAILED) \<in> set run_to" using st by (auto simp: run_to_def)
  from moved_run[OF assms(1-3) run this assms(4,5)] show ?thesis by (simp add: flow_run_def)
qed

text \<open>The call of the execution service, with the handler and what follows.\<close>

lemma run_phase_post:
  assumes co: "coherent (view s)" and w: "map_of (k_workflows s) i = Some w"
    and st: "wf_stage w = STAGE_ASSIGNED \<or> wf_stage w = EXECUTING" and k: "wf_assignment_id w = Some k"
    and tx: "in_tx u" and v: "begun i (view s) (view u)"
  shows "post (catch (bnd (execution_context w) (\<lambda>c.
        if r then execute_correction K j k (Some c) else execute_assignment K j k (Some c)))
      (note_failed_execution K i j)) u
    (\<lambda>e t. in_tx t \<and> ex_id e = j \<and> moved (view s) (flow_run i j STAGE_REVIEW (view t)))"
proof -
  note fin = moved_success[OF co w st k v]
  show ?thesis
    by (cases r; intro post_catch never_rules; simp; simp only: post_simps; intro post_context post_execute post_correct tx;
        (assumption | simp add: fin))
qed

lemma note_failing:
  assumes "failing P e t" and "\<And>v. P v \<Longrightarrow> R (at_flow i (\<lambda>fl. fl\<lparr>fl_stage := STAGE_FAILED\<rparr>) (at_flow i (\<lambda>fl. fl\<lparr>fl_executions :=
      (if j \<in> set (fl_executions fl) then fl_executions fl else fl_executions fl @ [j])\<rparr>) v))"
  shows "exc (note_failed_execution K i j e) t (failing R)"
proof (cases "committed_failure e")
  case True
  then have "in_tx t" "P (view t)" using assms(1) by (simp_all add: failing_def)
  then show ?thesis
    unfolding note_failed_execution_def using True
    by (simp only: not_True_eq_False if_False)
      (rule exc_bnd_failing plain_rules post_rules | assumption | simp add: exc_pure failing_def assms(2))+
next
  case False
  then show ?thesis by (simp add: note_failed_execution_def exc_pure)
qed

lemma run_phase_exc:
  assumes co: "coherent (view s)" and w: "map_of (k_workflows s) i = Some w"
    and st: "wf_stage w = STAGE_ASSIGNED \<or> wf_stage w = EXECUTING" and k: "wf_assignment_id w = Some k"
    and tx: "in_tx u" and v: "begun i (view s) (view u)"
    and rest: "\<And>e. plain (rest e)"
  shows "exc (bnd (catch (bnd (execution_context w) (\<lambda>c.
        if r then execute_correction K j k (Some c) else execute_assignment K j k (Some c)))
      (note_failed_execution K i j)) rest) u (failing (moved (view s)))"
proof -
  let ?m = "bnd (execution_context w) (\<lambda>c.
        if r then execute_correction K j k (Some c) else execute_assignment K j k (Some c))"
  let ?P = "\<lambda>v'. \<exists>a. failed_run j k a (view u) v'"
  have run: "exc (if r then execute_correction K j k (Some c) else execute_assignment K j k (Some c)) t (failing ?P)"
    if "in_tx t" "view t = view u" for t c
    using exc_execute[OF that(1), of K j k "Some c", unfolded that(2)]
    by (cases r) (auto elim!: exc_mono simp: failing_def)
  have "exc ?m u (failing ?P)"
    by (intro exc_bnd_failing plain_context tx post_context run)
  then have "exc (catch ?m (note_failed_execution K i j)) u (failing (moved (view s)))"
    unfolding exc_catch
    by (rule exc_mono) (erule note_failing, auto intro: moved_failure[OF co w st k v])
  moreover have "post (catch ?m (note_failed_execution K i j)) u (\<lambda>e t. exc (rest e) t (failing (moved (view s))))"
    by (rule post_mono[OF run_phase_post[OF co w st k tx v]]) (simp add: exc_failing[OF rest])
  ultimately show ?thesis by (simp add: exc_bnd)
qed

lemma execute_work_post:
  assumes tx: "in_tx s" and co: "coherent (view s)"
  shows "post (execute_work K i eid) s (\<lambda>_ t. in_tx t \<and> moved (view s) (view t))"
  unfolding execute_work_def post_atomic[OF tx] post_simps Let_def
  by (intro allI impI conjI tx begunI post_rules | assumption | erule conjE
      | (rule post_mono, rule run_phase_post[OF co]) | simp only: post_simps | (simp add: flow_run_fold; fail))+

lemma execute_work_exc:
  assumes tx: "in_tx s" and co: "coherent (view s)"
  shows "exc (execute_work K i eid) s (failing (moved (view s)))"
  unfolding execute_work_def exc_atomic[OF tx] Let_def
  by (intro allI impI conjI tx begunI | rule run_phase_exc[OF co] exc_bnd_failing plain_rules joins_rules post_rules | assumption
      | simp only: post_simps | (simp; fail))+

subsection \<open>Recovering\<close>

lemma moved_retry:
  assumes co: "coherent (view s)" and w: "map_of (k_workflows s) i = Some w" and st: "wf_stage w = STAGE_FAILED"
    and eid: "eid \<in> set (wf_execution_ids w)" and run: "retried eid (\<lambda>k. has_run j k ASSIGNED b es) (view s) u"
    and to: "(b, es, st') \<in> set run_to"
  shows "moved (view s) (flow_run i j st' u)"
    and "vf u i = Some (flow_view w)"
proof -
  obtain k pid wid g where rec: "recoverable eid k pid wid g (view s)"
    and has: "has_run j k ASSIGNED b es ((view s)\<lparr>vi := (vi (view s))((pid, wid) \<mapsto> ASSIGNED)\<rparr>) u"
    using run unfolding retried_def by blast
  note r = recover_cell[OF co w st eid rec]
  have u: "ve (view s) j = None \<and> u = outcome (cell i) b j (duty i) es (view s)"
    using has r unfolding has_run_def by (auto simp: outcome_def)
  have "(fl_stage (flow_view w), RUNNING) \<in> set run_from" using st by (simp add: run_from_def)
  from delivery_step.run[OF workflow_ok(1)[OF co w] _ r(4) this to] u
  show "moved (view s) (flow_run i j st' u)"
    by (simp add: moved_def flow_run_def workflow_ok(1)[OF co w])
  show "vf u i = Some (flow_view w)" using u workflow_ok(1)[OF co w] by simp
qed

lemma moved_retry_failed:
  assumes co: "coherent (view s)" and w: "map_of (k_workflows s) i = Some w" and st: "wf_stage w = STAGE_FAILED"
    and eid: "eid \<in> set (wf_execution_ids w)" and run: "retried eid (\<lambda>k. failed_run j k ASSIGNED) (view s) u"
  shows "moved (view s) (at_flow i (\<lambda>fl. fl\<lparr>fl_executions := fl_executions fl @ [j]\<rparr>) u)"
proof -
  obtain es where "es = EXECUTION_RUNNING \<or> es = FAILED" and r: "retried eid (\<lambda>k. has_run j k ASSIGNED RUNNING es) (view s) u"
    using run unfolding retried_def failed_run_def by blast
  then have es: "(RUNNING, es, STAGE_FAILED) \<in> set run_to" by (auto simp: run_to_def)
  note m = moved_retry[OF co w st eid r es]
  have "flow_run i j STAGE_FAILED u = at_flow i (\<lambda>fl. fl\<lparr>fl_executions := fl_executions fl @ [j]\<rparr>) u"
    using st m(2) by (simp add: flow_run_def flow_view_def)
  then show ?thesis using m(1) by simp
qed

lemma moved_reset:
  assumes co: "coherent (view s)" and w: "map_of (k_workflows s) i = Some w" and st: "wf_stage w = STAGE_FAILED"
    and eid: "eid \<in> set (wf_execution_ids w)" and rec: "recoverable eid k pid wid g (view s)"
  shows "moved (view s) (at_flow i (\<lambda>fl. fl\<lparr>fl_stage := STAGE_ASSIGNED\<rparr>)
    ((view s)\<lparr>vi := (vi (view s))((pid, wid) \<mapsto> ASSIGNED)\<rparr>))"
proof -
  have "\<exists>a. (wf_stage w, a, ASSIGNED, STAGE_ASSIGNED) \<in> set plain_moves" using st by (simp add: plain_moves_def)
  from moved_plain[OF co w this] show ?thesis
    using recover_cell(2)[OF co w st eid rec] workflow_ok(1)[OF co w] by simp
qed

text \<open>The three recoveries, for a workflow whose stage is \<open>FAILED\<close>.\<close>

lemma recover_by_post:
  assumes tx: "in_tx s" and co: "coherent (view s)" and w: "map_of (k_workflows s) i = Some w" and st: "wf_stage w = STAGE_FAILED"
  shows "post (recover_by K w rid reason kind new_id) s (\<lambda>_ t. in_tx t \<and> moved (view s) (view t))"
proof -
  note flow = workflow_ok(1,3)[OF co w] 
  show ?thesis
  proof (cases kind)
    case Kind_Retry
    show ?thesis
      unfolding Kind_Retry recover_by_def post_simps Let_def recovery_kind.case
      by (intro allI impI conjI tx post_rules post_catch never_rules | assumption | simp only: post_simps
          | (simp add: flow flow_run_fold, rule moved_retry(1)[OF co w st]; (simp add: run_to_def; fail | assumption)))+
  next
    case Kind_Reset
    show ?thesis
      unfolding Kind_Reset recover_by_def post_simps Let_def recovery_kind.case
      by (intro allI impI conjI tx post_rules | assumption | simp only: post_simps)+
        (simp only: flow(2), rule moved_reset[OF co w st, rotated], assumption, simp)
  next
    case Kind_Cancel
    show ?thesis
      unfolding Kind_Cancel recover_by_def post_simps Let_def recovery_kind.case
      by (intro allI impI conjI tx post_rules | assumption | simp only: post_simps
          | (simp add: flow closed_flows, rule moved_failed[OF co w st]; (assumption | (simp; fail))))+
  next
    case Kind_Other
    show ?thesis unfolding Kind_Other recover_by_def post_simps Let_def recovery_kind.case by simp
  qed
qed

lemma note_retry_failing:
  assumes "failing P e t" and "\<And>v. P v \<Longrightarrow> R (at_flow i (\<lambda>fl. fl\<lparr>fl_executions := fl_executions fl @ [j]\<rparr>) v)"
  shows "exc (note_failed_retry K i j e) t (failing R)"
proof (cases "committed_failure e")
  case True
  then have "in_tx t" "P (view t)" using assms(1) by (simp_all add: failing_def)
  then show ?thesis
    unfolding note_failed_retry_def using True
    by (simp only: not_True_eq_False if_False)
      (rule exc_bnd_failing plain_rules post_rules | assumption | simp add: exc_pure failing_def assms(2))+
next
  case False
  then show ?thesis by (simp add: note_failed_retry_def exc_pure)
qed

lemma retry_phase_exc:
  assumes tx: "in_tx s" and co: "coherent (view s)" and w: "map_of (k_workflows s) i = Some w" and st: "wf_stage w = STAGE_FAILED"
    and eid: "eid \<in> set (wf_execution_ids w)"
  shows "exc (catch (bnd (execution_context w) (\<lambda>c. retry_failed_execution K rid eid j reason (Some c)))
      (note_failed_retry K i j)) s (failing (moved (view s)))"
proof -
  let ?P = "retried eid (\<lambda>k. failed_run j k ASSIGNED) (view s)"
  have "exc (retry_failed_execution K rid eid j reason (Some c)) t (failing ?P)"
    if "in_tx t" "view t = view s" for t c
    using retry_exc[OF that(1)] unfolding that(2) .
  then have "exc (bnd (execution_context w) (\<lambda>c. retry_failed_execution K rid eid j reason (Some c))) s (failing ?P)"
    by (intro exc_bnd_failing plain_context tx post_context)
  then show ?thesis
    unfolding exc_catch
    by (rule exc_mono) (erule note_retry_failing, rule moved_retry_failed[OF co w st eid])
qed

lemma joins_recoveries [joins_rules]:
  "joins (reset_failed_execution K rid eid reason)" "joins (cancel_failed_assignment K rid eid reason)"
  unfolding reset_failed_execution_def cancel_failed_assignment_def restore_work_def
  by (intro joins_rules; simp)+

lemma recover_by_exc:
  assumes tx: "in_tx s" and co: "coherent (view s)" and w: "map_of (k_workflows s) i = Some w" and st: "wf_stage w = STAGE_FAILED"
  shows "exc (recover_by K w rid reason kind new_id) s (failing (moved (view s)))"
proof (cases kind)
  case Kind_Retry
  have i: "wf_id w = i" by (rule workflow_ok(3)[OF co w])
  have rest: "plain (bnd (put_workflow i (\<lambda>w. w\<lparr>wf_execution_ids := wf_execution_ids w @ [ex_id e], wf_failure_reason := None\<rparr>))
      (\<lambda>_. move_to K i STAGE_REVIEW))" for e
    by (intro plain_rules joins_rules)
  have "exc (bnd (catch (bnd (execution_context w) (\<lambda>c. retry_failed_execution K rid eid j reason (Some c)))
      (note_failed_retry K i j)) (\<lambda>e. bnd (put_workflow i (\<lambda>w. w\<lparr>wf_execution_ids := wf_execution_ids w @ [ex_id e],
        wf_failure_reason := None\<rparr>)) (\<lambda>_. move_to K i STAGE_REVIEW))) s (failing (moved (view s)))"
    if "eid \<in> set (wf_execution_ids w)" for eid j
    unfolding exc_bnd[of "catch _ _"]
    by (intro conjI retry_phase_exc[OF tx co w st that] post_catch never_rules)
      (simp only: post_simps, intro post_context tx post_retry exc_failing[OF rest])
  then show ?thesis
    unfolding Kind_Retry recover_by_def Let_def recovery_kind.case i
    by (intro exc_bnd_failing plain_ids tx) (simp add: post_simps)
next
  case Kind_Reset
  show ?thesis
    unfolding Kind_Reset recover_by_def recovery_kind.case by (intro exc_failing plain_rules joins_rules tx)
next
  case Kind_Cancel
  show ?thesis
    unfolding Kind_Cancel recover_by_def recovery_kind.case by (intro exc_failing plain_rules joins_rules tx)
next
  case Kind_Other
  show ?thesis
    unfolding Kind_Other recover_by_def recovery_kind.case by (intro exc_failing plain_rules joins_rules tx) simp
qed

lemma joins_note [joins_rules]: "joins (note_failed_retry K i j e)"
  unfolding note_failed_retry_def by (intro joins_rules; simp)

lemma recover_post:
  assumes tx: "in_tx s" and co: "coherent (view s)"
  shows "post (recover_failed_execution K i rid reason kind new_id) s (\<lambda>_ t. in_tx t \<and> moved (view s) (view t))"
  unfolding recover_failed_execution_def post_atomic[OF tx] post_simps
  by (intro allI impI conjI tx post_rules | assumption | erule conjE | (rule post_mono, rule recover_by_post[OF tx co])
      | simp only: post_simps stage_Inr | (simp; fail))+

lemma recover_exc:
  assumes tx: "in_tx s" and co: "coherent (view s)"
  shows "exc (recover_failed_execution K i rid reason kind new_id) s (failing (moved (view s)))"
proof -
  have rest: "plain (bnd (last_execution_id w) (\<lambda>failed_id.
      bnd (wpublish K i ''SOFTWARE_EXECUTION_RECOVERED'' (pl failed_id)) (\<lambda>_.
      bnd (if kind = Kind_Cancel then wpublish K i ''SOFTWARE_WORKFLOW_CANCELLED'' pl' else ok ()) (\<lambda>_.
      get_workflow i))))" for w pl pl'
    by (intro plain_rules joins_rules)
  have phase: "exc (bnd (recover_by K w rid reason kind new_id) (\<lambda>_. f)) s (failing (moved (view s)))"
    if "map_of (k_workflows s) i = Some w" "wf_stage w = STAGE_FAILED" "plain f" for w f
    unfolding exc_bnd
    by (intro conjI recover_by_exc[OF tx co that(1,2)] post_mono[OF recover_by_post[OF tx co that(1,2)]])
      (simp add: exc_failing[OF that(3)])
  show ?thesis
    unfolding recover_failed_execution_def exc_atomic[OF tx]
    by (rule phase exc_bnd_failing plain_lookups plain_of_sum tame_policies tx rest | intro allI impI | assumption
        | simp only: post_simps stage_Inr)+
qed

end
