(* ===== verification/Delivery_Service.thy ===== *)
theory Delivery_Service
  imports Workflow_Specs
begin

section \<open>Histories of the workflow service\<close>

text \<open>
  A kernel that is driven by the workflow service: agents and executors are registered, agents change
  their state, and workflows are submitted, planned, prepared, assigned, executed, reviewed, completed,
  released, cancelled and recovered, in any order, with any arguments, returning or raising. Every such
  call is one step of the delivery machine or leaves the view alone, and so the invariants of the machine are
  invariants of the service.
\<close>

subsection \<open>The other operations raise no recorded failure\<close>

lemma joins_create [joins_rules]:
  "joins (create_work_package K pid title descr owner)" "joins (add_work_item K pid wid title descr prio asg)"
  unfolding create_work_package_def add_work_item_def package_add_item_def Let_def
  by (intro joins_rules; simp)+

lemma plain_create [plain_rules]:
  "plain (create_work_package K pid title descr owner)" "plain (add_work_item K pid wid title descr prio asg)"
  unfolding create_work_package_def add_work_item_def package_add_item_def Let_def
  by (intro plain_rules joins_rules tame_validators; simp)+

lemma joins_assign [joins_rules]: "joins (assign_work_item K i pid wid role caps)"
  unfolding assign_work_item_def Let_def by (intro joins_rules; simp)

lemma plain_service:
  "plain (submit_request K r wid)" "plain (plan_request K i)" "plain (prepare_work K i)" "plain (assign_work K i)"
  "plain (approve_work K i)" "plain (reject_work K i reason)" "plain (complete_work K i)" "plain (release_work K i)"
  "plain (cancel_workflow K i reason)" "plain (register_agent K a)"
  unfolding submit_request_def plan_request_def prepare_work_def assign_work_def approve_work_def reject_work_def
    complete_work_def release_work_def cancel_workflow_def register_agent_def Let_def
  by (intro plain_rules joins_rules; simp)+

lemma dset_new: "k \<notin> set (dkeys d) \<Longrightarrow> dset k x d = d @ [(k, x)]"
  by (induction d) auto

lemma register_post:
  assumes tx: "in_tx s" and ok: "validate_agent a = Inr ()"
  shows "post (register_agent K a) s (\<lambda>_ t. in_tx t \<and> moved (view s) (view t))"
proof -
  have max: "1 \<le> ag_max_parallel_tasks a" using ok by (simp add: validate_agent_def checks_Inr)
  have "moved (view s) (view (s\<lparr>k_agents := dset (ag_id a) a (k_agents s)\<rparr>))"
    if new: "ag_id a \<notin> set (dkeys (k_agents s))"
  proof -
    have keys: "(\<lambda>(k, h, m). k) ` set (vg (view s)) = set (dkeys (k_agents s))"
      by (simp add: view_def image_image case_prod_beta)
    have "dset (ag_id a) a (k_agents s) = k_agents s @ [(ag_id a, a)]"
      by (rule dset_new[OF new])
    then have "view (s\<lparr>k_agents := dset (ag_id a) a (k_agents s)\<rparr>)
        = (view s)\<lparr>vg := vg (view s) @ [(ag_id a, ag_id a, ag_max_parallel_tasks a)]\<rparr>"
      by (simp add: view_def count_active_assignments_def)
    then show ?thesis
      using delivery_step.register[of "ag_id a" "view s"] new max keys by (simp add: moved_def)
  qed
  moreover have "in_tx (s\<lparr>k_agents := d\<rparr>)" for d using tx by (simp add: in_tx_def)
  ultimately show ?thesis
    unfolding register_agent_def post_atomic[OF tx] post_simps
    by (auto intro!: post_publish)
qed

subsection \<open>Outermost calls\<close>

definition outer :: "kernel \<Rightarrow> bool" where
  "outer s \<longleftrightarrow> k_eventing s \<and> b_tx (k_bus s) = None"

definition opened :: "kernel \<Rightarrow> kernel" where
  "opened s = s\<lparr>k_bus := (k_bus s)\<lparr>b_tx := Some []\<rparr>\<rparr>"

lemma opened [simp]: "in_tx (opened s) \<longleftrightarrow> k_eventing s" "view (opened s) = view s"
  by (simp_all add: opened_def in_tx_def)

lemma rolled_back_view [simp]: "view (rolled_back s t) = view s" "outer (rolled_back s t) = outer s"
  by (simp_all add: rolled_back_def outer_def)

lemma commit_view:
  assumes "commit_events r s t = (r', u)" and "outer s" and "k_eventing t"
  shows "outer u \<and> (view u = view s \<or> view u = view t)"
  using assms by (auto simp: commit_events_def outer_def split: sum.splits) (auto simp: rolled_back_def)

text \<open>An outermost call commits what the body did, or rolls it back.\<close>

lemma atomic_outer:
  assumes out: "outer s" and run: "atomic m s = (r, u)"
    and ret: "post (atomic m) (opened s) (\<lambda>_ t. in_tx t \<and> moved (view s) (view t))"
    and rai: "exc (atomic m) (opened s) (failing (moved (view s)))"
  shows "outer u \<and> moved (view s) (view u)"
proof -
  obtain r' t where m: "m (opened s) = (r', t)" by fastforce
  have tx: "in_tx (opened s)" using out by (simp add: outer_def)
  have at: "atomic m (opened s) = (r', t)" using m tx by simp
  have run': "(case r' of Inr x \<Rightarrow> commit_events r' s t
      | Inl e \<Rightarrow> if committed_failure e then commit_events r' s t else (r', rolled_back s t)) = (r, u)"
    using run out m by (simp add: atomic_def outer_def opened_def)
  show ?thesis
  proof (cases "case r' of Inr x \<Rightarrow> True | Inl e \<Rightarrow> committed_failure e")
    case True
    then have "in_tx t \<and> moved (view s) (view t)"
      using postD[OF ret, of _ t] excD[OF rai, of _ t] at by (auto simp: failing_def split: sum.splits)
    moreover have "commit_events r' s t = (r, u)" using run' True by (auto split: sum.splits)
    ultimately show ?thesis using commit_view[OF _ out] by (fastforce simp: in_tx_def)
  next
    case False
    then have "u = rolled_back s t" using run' by (auto split: sum.splits)
    then show ?thesis using out by simp
  qed
qed

text \<open>
  A call of the service or of the registries that feed it. Agents and requests are frozen objects that
  validate themselves when they are made, so the calls get valid ones.
\<close>

inductive service_call :: "kenv \<Rightarrow> kernel \<Rightarrow> kernel \<Rightarrow> bool" for K where
  register_agent: "validate_agent a = Inr () \<Longrightarrow> register_agent K a s = (r, t) \<Longrightarrow> service_call K s t"
| update_agent: "update_agent_state K i b s = (r, t) \<Longrightarrow> service_call K s t"
| register_executor: "register_executor x s = (r, t) \<Longrightarrow> service_call K s t"
| remove_executor: "remove_executor i s = (r, t) \<Longrightarrow> service_call K s t"
| submit: "validate_request q = Inr () \<Longrightarrow> submit_request K q wid s = (r, t) \<Longrightarrow> service_call K s t"
| plan: "plan_request K i s = (r, t) \<Longrightarrow> service_call K s t"
| prepare: "prepare_work K i s = (r, t) \<Longrightarrow> service_call K s t"
| assign: "assign_work K i s = (r, t) \<Longrightarrow> service_call K s t"
| execute: "execute_work K i eid s = (r, t) \<Longrightarrow> service_call K s t"
| approve: "approve_work K i s = (r, t) \<Longrightarrow> service_call K s t"
| reject: "reject_work K i reason s = (r, t) \<Longrightarrow> service_call K s t"
| complete: "complete_work K i s = (r, t) \<Longrightarrow> service_call K s t"
| release: "release_work K i s = (r, t) \<Longrightarrow> service_call K s t"
| cancel: "cancel_workflow K i reason s = (r, t) \<Longrightarrow> service_call K s t"
| recover: "recover_failed_execution K i rid reason kind new_id s = (r, t) \<Longrightarrow> service_call K s t"

lemma view_executors [simp]: "view (s\<lparr>k_executors := d\<rparr>) = view s" "outer (s\<lparr>k_executors := d\<rparr>) = outer s"
  by (simp_all add: view_def count_active_assignments_def outer_def)

lemma executor_calls:
  "register_executor x s = (r, t) \<Longrightarrow> view t = view s \<and> outer t = outer s"
  "remove_executor i s = (r', t') \<Longrightarrow> view t' = view s \<and> outer t' = outer s"
  unfolding register_executor_def remove_executor_def get_executor_def
  by (auto simp: bnd_def run_simps split: sum.splits if_splits option.splits)

lemma update_agent_post:
  assumes "in_tx s"
  shows "post (update_agent_state K i b) s (\<lambda>_ t. in_tx t \<and> moved (view s) (view t))"
  by (rule post_update_agent[OF assms]) simp

lemmas service_defs = register_agent_def update_agent_state_def submit_request_def plan_request_def prepare_work_def
  assign_work_def execute_work_def approve_work_def reject_work_def complete_work_def release_work_def
  cancel_workflow_def recover_failed_execution_def

text \<open>The operations are atomic, so the lemmas about their bodies speak of the outermost call.\<close>

lemma outer_call:
  assumes "outer s" and "coherent (view s)"
    and "\<And>t. in_tx t \<Longrightarrow> coherent (view t) \<Longrightarrow> post m t (\<lambda>_ u. in_tx u \<and> moved (view t) (view u))"
    and "\<And>t. in_tx t \<Longrightarrow> coherent (view t) \<Longrightarrow> exc m t (failing (moved (view t)))" and "\<exists>b. m = atomic b" and "m s = (r, u)"
  shows "outer u \<and> moved (view s) (view u)"
proof -
  obtain b where b: "m = atomic b" using assms(5) by blast
  have "in_tx (opened s)" "coherent (view (opened s))" using assms(1,2) by (simp_all add: outer_def)
  from assms(3)[OF this] assms(4)[OF this] show ?thesis
    using atomic_outer[OF assms(1) assms(6)[unfolded b]] by (simp add: b)
qed

lemma are_atomic:
  "\<exists>b. register_agent K a = atomic b" "\<exists>b. update_agent_state K i st = atomic b" "\<exists>b. submit_request K q wid = atomic b"
  "\<exists>b. plan_request K i = atomic b" "\<exists>b. prepare_work K i = atomic b" "\<exists>b. assign_work K i = atomic b"
  "\<exists>b. execute_work K i eid = atomic b" "\<exists>b. approve_work K i = atomic b" "\<exists>b. reject_work K i reason = atomic b"
  "\<exists>b. complete_work K i = atomic b" "\<exists>b. release_work K i = atomic b" "\<exists>b. cancel_workflow K i reason = atomic b"
  "\<exists>b. recover_failed_execution K i rid reason kind new_id = atomic b"
  unfolding service_defs by blast+

lemma service_step:
  assumes "service_call K s t" and "outer s" and "coherent (view s)"
  shows "outer t \<and> moved (view s) (view t)"
  using assms
proof cases
  case (register_agent a r)
  show ?thesis
    by (rule outer_call[OF assms(2,3) _ _ are_atomic(1) register_agent(2)])
      (use register_agent(1) in \<open>auto intro: register_post exc_failing plain_service\<close>)
next
  case (update_agent i b r)
  show ?thesis
    by (rule outer_call[OF assms(2,3) _ _ are_atomic(2) update_agent(1)])
      (auto intro: update_agent_post exc_failing plain_rules)
next
  case (register_executor x r)
  then show ?thesis using executor_calls(1) assms(2) by (metis moved_same)
next
  case (remove_executor i r)
  then show ?thesis using executor_calls(2) assms(2) by (metis moved_same)
next
  case (submit q wid r)
  show ?thesis
    by (rule outer_call[OF assms(2,3) _ _ are_atomic(3) submit(2)]) (auto intro: submit_post exc_failing plain_service)
next
  case (plan i r)
  show ?thesis
    by (rule outer_call[OF assms(2,3) _ _ are_atomic(4) plan])
      (auto intro: plan_post exc_failing plain_service)
next
  case (prepare i r)
  show ?thesis
    by (rule outer_call[OF assms(2,3) _ _ are_atomic(5) prepare])
      (auto intro: prepare_post exc_failing plain_service)
next
  case (assign i r)
  show ?thesis
    by (rule outer_call[OF assms(2,3) _ _ are_atomic(6) assign])
      (auto intro: assign_work_post exc_failing plain_service)
next
  case (execute i eid r)
  show ?thesis
    by (rule outer_call[OF assms(2,3) _ _ are_atomic(7) execute])
      (auto intro: execute_work_post execute_work_exc)
next
  case (approve i r)
  show ?thesis
    by (rule outer_call[OF assms(2,3) _ _ are_atomic(8) approve])
      (auto intro: approve_post exc_failing plain_service)
next
  case (reject i reason r)
  show ?thesis
    by (rule outer_call[OF assms(2,3) _ _ are_atomic(9) reject])
      (auto intro: reject_post exc_failing plain_service)
next
  case (complete i r)
  show ?thesis
    by (rule outer_call[OF assms(2,3) _ _ are_atomic(10) complete])
      (auto intro: complete_work_post exc_failing plain_service)
next
  case (release i r)
  show ?thesis
    by (rule outer_call[OF assms(2,3) _ _ are_atomic(11) release])
      (auto intro: release_post exc_failing plain_service)
next
  case (cancel i reason r)
  show ?thesis
    by (rule outer_call[OF assms(2,3) _ _ are_atomic(12) cancel])
      (auto intro: cancel_work_post exc_failing plain_service)
next
  case (recover i rid reason kind new_id r)
  show ?thesis
    by (rule outer_call[OF assms(2,3) _ _ are_atomic(13) recover])
      (auto intro: recover_post recover_exc)
qed

subsection \<open>Reachable kernels\<close>

inductive service_reachable :: "kenv \<Rightarrow> kernel \<Rightarrow> bool" for K where
  start: "service_reachable K (empty_kernel True)"
| call: "service_reachable K s \<Longrightarrow> service_call K s t \<Longrightarrow> service_reachable K t"

lemma empty_view: "view (empty_kernel True) = \<lparr>vi = (\<lambda>_. None), va = (\<lambda>_. None), vc = (\<lambda>_. 0), vg = [],
    ve = (\<lambda>_. None), vf = (\<lambda>_. None)\<rparr>"
  by (auto simp: view_def empty_kernel_def count_active_assignments_def)

lemma service_invariant:
  "service_reachable K s \<Longrightarrow> outer s \<and> coherent (view s) \<and> fits (view s) \<and> exclusive (view s)"
proof (induction rule: service_reachable.induct)
  case start
  then show ?case
    by (simp add: empty_view coherent_def fits_def exclusive_def) (simp add: outer_def empty_kernel_def empty_bus_def)
next
  case (call s t)
  then show ?case
    using service_step[of K s t] delivery_coherent[of "view s"] delivery_fits[of "view s"] delivery_exclusive[of "view s"]
    unfolding moved_def by metis
qed

lemma service_moves:
  "service_reachable K s \<Longrightarrow> service_call K s t \<Longrightarrow> view t = view s \<or> delivery_step (view s) (view t)"
  using service_step service_invariant unfolding moved_def by blast


text \<open>C12: The stage of a workflow determines the state of its work item, in every reachable kernel: the item
  exists, its state is the one of the stage (a cancelled workflow has it created or ready), no workflow is
  left in planning, and from assignment to approval, and after a failed execution, the assignment of the
  workflow is active on exactly this item.
\<close>

theorem stage_determines_item:
  assumes "service_reachable K s" and "map_of (k_workflows s) i = Some w"
  shows "\<exists>item. get_work_item (wf_package_id w) (wf_item_id w) s = (Inr item, s)
    \<and> wi_state item \<in> set (item_states (wf_stage w)) \<and> wf_stage w \<noteq> PLANNING
    \<and> (wf_stage w \<in> {STAGE_ASSIGNED, EXECUTING, STAGE_REVIEW, APPROVAL, STAGE_FAILED} \<longrightarrow>
        (\<exists>k a. wf_assignment_id w = Some k \<and> map_of (k_assignments s) k = Some a \<and> wa_status a = ACTIVE
          \<and> wa_package_id a = wf_package_id w \<and> wa_work_item_id a = wf_item_id w))"
proof -
  have co: "coherent (view s)" using service_invariant[OF assms(1)] by blast
  note w = workflow_ok[OF co assms(2)]
  obtain b where b: "b \<in> set (item_states (wf_stage w))" "vi (view s) (wf_package_id w, wf_item_id w) = Some b"
    using w(2) unfolding flow_ok_def by (auto simp: w(4))
  then obtain p item where "map_of (k_packages s) (wf_package_id w) = Some p" "find_item (wf_item_id w) (wp_items p) = Some item"
    "wi_state item = b" by (auto simp: view_packages(1) item_view_def split: option.splits)
  then have item: "get_work_item (wf_package_id w) (wf_item_id w) s = (Inr item, s)" "wi_state item = b"
    by (simp_all add: get_work_item_Inr)
  have cell: "fst (cell (wf_id w)) = wf_package_id w" "snd (cell (wf_id w)) = wf_item_id w"
    using w(4) unfolding w(3) by (metis fst_conv, metis snd_conv)
  have "\<exists>k a. wf_assignment_id w = Some k \<and> map_of (k_assignments s) k = Some a \<and> wa_status a = ACTIVE
          \<and> wa_package_id a = wf_package_id w \<and> wa_work_item_id a = wf_item_id w"
    if "wf_stage w \<in> set held_stages"
    using w(2) that cell unfolding flow_ok_def w(3)[symmetric] by (auto simp: view_assignment assignment_view_def)
  then show ?thesis using item b(1) by (auto simp: held_stages_def)
qed


text \<open>No work item has two active assignments, in any reachable kernel.\<close>

theorem one_active_assignment:
  assumes "service_reachable K s" and "map_of (k_assignments s) x = Some a" and "map_of (k_assignments s) y = Some b"
    and "wa_status a = ACTIVE" and "wa_status b = ACTIVE"
    and "wa_package_id a = wa_package_id b" and "wa_work_item_id a = wa_work_item_id b"
  shows "x = y"
proof -
  have "exclusive (view s)" using service_invariant[OF assms(1)] by blast
  moreover have "va (view s) x = Some (wa_id a, wa_package_id a, wa_work_item_id a, wa_agent_id a, ACTIVE)"
    "va (view s) y = Some (wa_id b, wa_package_id a, wa_work_item_id a, wa_agent_id b, ACTIVE)"
    using assms(2-7) by (simp_all add: view_assignment assignment_view_def)
  ultimately show ?thesis unfolding exclusive_def by blast
qed

subsection \<open>What a history went through\<close>

fun service_history :: "kenv \<Rightarrow> kernel \<Rightarrow> kernel list \<Rightarrow> bool" where
  "service_history K s [] = True"
| "service_history K s (t # ts) = (service_call K s t \<and> service_history K t ts)"

definition stage_in :: "kernel \<Rightarrow> string \<Rightarrow> workflow_stage option" where
  "stage_in s i = map_option wf_stage (map_of (k_workflows s) i)"

lemma stage_in_view: "stage_in s i = stage_of (view s) i"
  by (simp add: stage_in_def stage_of_def view_flow option.map_comp comp_def)

lemma stage_gate:
  "stage_move a b \<Longrightarrow> a \<notin> {APPROVAL, STAGE_COMPLETED, STAGE_RELEASED} \<Longrightarrow>
    b \<notin> {APPROVAL, STAGE_COMPLETED, STAGE_RELEASED} \<or> b = APPROVAL"
  by (cases a) (auto simp: stage_move_def plain_moves_def closing_moves_def run_from_def run_to_def)

text \<open>C13: Work is released only after it was approved: in every history of the service, from any reachable
  kernel in which a workflow is not yet approved, completed or released, the workflow passes
  through the stage of approval before it is seen released.
\<close>

theorem released_was_approved:
  assumes "service_reachable K s" and "service_history K s ts"
    and "stage_in s i \<notin> {Some APPROVAL, Some STAGE_COMPLETED, Some STAGE_RELEASED}"
    and "stage_in (last (s # ts)) i = Some STAGE_RELEASED"
  shows "\<exists>u \<in> set ts. stage_in u i = Some APPROVAL"
  using assms
proof (induction ts arbitrary: s)
  case Nil
  then show ?case by simp
next
  case (Cons t ts)
  have call: "service_call K s t" and hist: "service_history K t ts" using Cons.prems(2) by simp_all
  have t: "service_reachable K t" by (rule service_reachable.call[OF Cons.prems(1) call])
  have "stage_in t i = stage_in s i \<or> stage_in s i = None \<and> stage_in t i = Some INTAKE
    \<or> (\<exists>a b. stage_in s i = Some a \<and> stage_in t i = Some b \<and> stage_move a b)"
    using service_moves[OF Cons.prems(1) call] delivery_stage unfolding stage_in_view by metis
  then have "stage_in t i \<notin> {Some APPROVAL, Some STAGE_COMPLETED, Some STAGE_RELEASED} \<or> stage_in t i = Some APPROVAL"
    using Cons.prems(3) stage_gate by fastforce
  then show ?case
    using Cons.IH[OF t hist] Cons.prems(4) by auto
qed

end
