(* ===== verification/Kernel_Invariant.thy ===== *)
theory Kernel_Invariant
  imports Delivery_Service
begin

section \<open>What every operation keeps of the kernel\<close>

text \<open>
  A well-formedness invariant of the kernel that no operation breaks, whether it returns or raises: the
  events of every aggregate, stored or staged, are numbered from one without gaps and carry the
  identifier of their position; every workflow is filed under a non-blank identifier with a valid
  request; every agent is filed under its own identifier and is valid; no assignment is stored twice. It follows that the events staged
  by a transaction are always accepted by the store, so that no commit ever fails.
\<close>

definition bus_ok :: "kernel \<Rightarrow> bool" where
  "bus_ok s \<longleftrightarrow> bus_inv (k_bus s)"

definition flows_filed :: "kernel \<Rightarrow> bool" where
  "flows_filed s \<longleftrightarrow> (\<forall>(i, w) \<in> set (k_workflows s). \<not> blank i
     \<and> (\<exists>q. map_of (k_requests s) (wf_request_id w) = Some q \<and> validate_request q = Inr ()))"

definition agents_filed :: "kernel \<Rightarrow> bool" where
  "agents_filed s \<longleftrightarrow> (\<forall>(k, a) \<in> set (k_agents s). k = ag_id a \<and> validate_agent a = Inr ())"

definition sound :: "event_store \<Rightarrow> kernel \<Rightarrow> bool" where
  "sound L s \<longleftrightarrow> bus_ok s \<and> (\<exists>es. b_store (k_bus s) = L @ es) \<and> flows_filed s \<and> agents_filed s
     \<and> distinct (dkeys (k_assignments s))"

lemma sound_other [simp]:
  "sound L (s\<lparr>k_packages := a\<rparr>) = sound L s" "sound L s \<Longrightarrow> sound L (s\<lparr>k_assignments := b\<rparr>) = distinct (dkeys b)"
  "sound L (s\<lparr>k_executors := c\<rparr>) = sound L s" "sound L (s\<lparr>k_executions := d\<rparr>) = sound L s"
  "sound L (s\<lparr>k_recoveries := e\<rparr>) = sound L s"
  by (simp_all add: sound_def bus_ok_def flows_filed_def agents_filed_def)

lemma sound_distinct [simp]: "sound L s \<Longrightarrow> distinct (dkeys (k_assignments s))"
  by (simp add: sound_def)

lemma distinct_case [simp]:
  "distinct (dkeys d) \<Longrightarrow> distinct (dkeys (case x of None \<Rightarrow> d | Some b \<Rightarrow> dset i (f b) d))"
  by (cases x) simp_all

lemma sound_bus: "sound L s \<Longrightarrow> bus_inv b \<Longrightarrow> \<exists>es. b_store b = b_store (k_bus s) @ es \<Longrightarrow> sound L (s\<lparr>k_bus := b\<rparr>)"
  by (auto simp: sound_def bus_ok_def flows_filed_def agents_filed_def)

lemma soundD: "sound L s \<Longrightarrow> bus_inv (k_bus s)"
  by (simp add: sound_def bus_ok_def)

subsection \<open>Clock, publication and transactions\<close>

lemma keeps_now [keeps_intros]: "keeps (sound L) (utc_now K)"
  by (rule keepsI) (auto simp: utc_now_def on_bus_def zoom_def tick_def soundD intro!: sound_bus)

lemma publish_extends:
  assumes inv: "bus_inv b" and run: "publish K et ty aid pl corr caus None b = (r, b')"
  shows "bus_inv b' \<and> (\<exists>es. b_store b' = b_store b @ es)"
proof -
  note p = publish_keeps[OF assms]
  have "\<exists>es. b_store b' = b_store b @ es"
  proof (cases "b_tx b")
    case None
    have st: "b_store c = map (\<lambda>e. (re_id e, e)) (dvals (b_store c))" if "bus_inv c" for c
      using that unfolding bus_inv_alt by blast
    have "b_tx b' = None" using p None by blast
    show ?thesis
    proof (cases r)
      case (Inl x)
      then obtain n where "b' = b\<lparr>b_ticks := n\<rparr>" using p by auto
      then show ?thesis by simp
    next
      case (Inr e)
      then have "dvals (b_store b') = dvals (b_store b) @ [e]"
        using p None \<open>b_tx b' = None\<close> by (simp add: staged_def)
      then have "map (\<lambda>e. (re_id e, e)) (dvals (b_store b')) = map (\<lambda>e. (re_id e, e)) (dvals (b_store b)) @ [(re_id e, e)]"
        by simp
      moreover have "bus_inv b'" using p by blast
      ultimately have "b_store b' = b_store b @ [(re_id e, e)]" using st[OF inv] st[of b'] by (simp only:)
      then show ?thesis by blast
    qed
  next
    case (Some es)
    then show ?thesis using p by simp
  qed
  then show ?thesis using p by blast
qed

lemma keeps_kpublish [keeps_intros]: "keeps (sound L) (kpublish K et ty aid pl corr caus)"
proof (rule keepsI)
  fix s r t
  assume s: "sound L s" and run: "kpublish K et ty aid pl corr caus s = (r, t)"
  show "sound L t"
  proof (cases "k_eventing s")
    case True
    obtain r' b where p: "publish K et ty aid pl corr caus None (k_bus s) = (r', b)" by fastforce
    then have "t = s\<lparr>k_bus := b\<rparr>"
      using run True by (auto simp: kpublish_def on_bus_def zoom_def bnd_def ok_def split: sum.splits)
    moreover have "bus_inv b" "\<exists>es. b_store b = b_store (k_bus s) @ es" using publish_extends[OF soundD[OF s] p] by blast+
    ultimately show ?thesis using sound_bus[OF s] by simp
  next
    case False
    then show ?thesis using run s by (simp add: kpublish_def)
  qed
qed

lemma committed_bus:
  assumes "bus_inv b"
  shows "\<exists>st. add_events (staged b) (b_store b) = Inr st \<and> bus_inv (b\<lparr>b_store := st, b_tx := None\<rparr>)
    \<and> (\<exists>es. st = b_store b @ es)"
proof -
  have inv: "b_store b = map (\<lambda>e. (re_id e, e)) (dvals (b_store b))" "stream (dvals (b_store b) @ staged b)"
    using assms unfolding bus_inv_alt by blast+
  let ?st = "b_store b @ map (\<lambda>e. (re_id e, e)) (staged b)"
  have vals: "dvals ?st = dvals (b_store b) @ staged b" by (simp add: comp_def)
  have "bus_inv (b\<lparr>b_store := ?st, b_tx := None\<rparr>)"
    unfolding bus_inv_alt using inv vals
    by (simp add: staged_def[of "b\<lparr>b_store := ?st, b_tx := None\<rparr>"])
  then show ?thesis using add_stream[OF inv] by blast
qed

text \<open>So a commit always succeeds.\<close>

lemma commit_succeeds:
  assumes "sound L t"
  shows "\<exists>b. commit_events r s t = (r, t\<lparr>k_bus := b\<rparr>) \<and> bus_inv b \<and> b_tx b = None
    \<and> (\<exists>es. b_store b = b_store (k_bus t) @ es)"
  using committed_bus[OF soundD[OF assms]] by (auto simp: commit_events_def)

lemma sound_opened: "sound L s \<Longrightarrow> b_tx (k_bus s) = None \<Longrightarrow> sound L (opened s)"
  unfolding opened_def by (rule sound_bus) (simp_all add: sound_def bus_ok_def bus_inv_def staged_def)

lemma sound_rolled_back: "sound L s \<Longrightarrow> sound L (rolled_back s t)"
  unfolding rolled_back_def by (rule sound_bus) (simp_all add: sound_def bus_ok_def)

lemma keeps_atomic [keeps_intros]:
  assumes "keeps (sound L) m"
  shows "keeps (sound L) (atomic m)"
proof (rule keepsI)
  fix s r t
  assume s: "sound L s" and run: "atomic m s = (r, t)"
  show "sound L t"
  proof (cases "\<not> k_eventing s \<or> b_tx (k_bus s) \<noteq> None")
    case True
    then show ?thesis using run keepsD[OF assms _ s] by (simp add: atomic_def)
  next
    case False
    obtain r' u where m: "m (opened s) = (r', u)" by fastforce
    have u: "sound L u" using keepsD[OF assms m sound_opened[OF s]] False by simp
    obtain b where b: "commit_events r' s u = (r', u\<lparr>k_bus := b\<rparr>)" "bus_inv b"
      "\<exists>es. b_store b = b_store (k_bus u) @ es" using commit_succeeds[OF u] by blast
    then show ?thesis
      using run False m sound_bus[OF u b(2,3)] sound_rolled_back[OF s]
      by (auto simp: atomic_def opened_def split: sum.splits if_splits)
  qed
qed

subsection \<open>Lookups and writes\<close>

lemma keeps_split [keeps_intros]: "(\<And>x y. p = (x, y) \<Longrightarrow> keeps P (f x y)) \<Longrightarrow> keeps P (case p of (x, y) \<Rightarrow> f x y)"
  by (cases p) simp

lemma keeps_eventing:
  "keeps P m \<Longrightarrow> (\<And>s. k_eventing s \<Longrightarrow> n s = m s) \<Longrightarrow> (\<And>s. \<not> k_eventing s \<Longrightarrow> snd (n s) = s) \<Longrightarrow> keeps P n"
  unfolding keeps_def by metis

lemma keeps_lookups [keeps_intros]:
  "keeps P (get_work_package pid)" "keeps P (get_work_item pid wid)" "keeps P (get_agent i)" "keeps P (get_assignment i)"
  "keeps P (get_executor i)" "keeps P (get_execution i)" "keeps P (get_workflow i)" "keeps P (get_request i)"
  "keeps P (select_agent role caps)" "keeps P (select_executor a)" "keeps P (validate_recoverable rid eid reason)"
  unfolding get_work_package_def get_work_item_def get_agent_def get_assignment_def get_executor_def get_execution_def
    get_workflow_def get_request_def select_agent_def select_executor_def validate_recoverable_def
  by (intro keeps_intros)+

lemma set_dset: "(k, v) \<in> set (dset i x d) \<Longrightarrow> (k, v) = (i, x) \<or> (k, v) \<in> set d"
  by (rule set_dset_subset)

lemma keeps_puts [keeps_intros]:
  "keeps (sound L) (put_package pid f)" "keeps (sound L) (put_item pid wid g)" "keeps (sound L) (put_assignment i a)"
  "keeps (sound L) (put_execution e)" "keeps (sound L) (drop_record rid)"
  unfolding put_package_def put_item_def put_assignment_def put_execution_def drop_record_def
  by (rule keeps_upd, simp)+

lemma keeps_put_workflow [keeps_intros]:
  assumes "\<And>w. wf_request_id (f w) = wf_request_id w"
  shows "keeps (sound L) (put_workflow i f)"
  unfolding put_workflow_def
proof (rule keeps_upd)
  fix s
  assume s: "sound L s"
  show "sound L (s\<lparr>k_workflows := (case map_of (k_workflows s) i of None \<Rightarrow> k_workflows s
    | Some w \<Rightarrow> dset i (f w) (k_workflows s))\<rparr>)"
    using s unfolding sound_def bus_ok_def flows_filed_def agents_filed_def
    by (auto simp: assms split: option.split dest!: set_dset map_of_SomeD)
qed

lemma keeps_put_agent:
  assumes "i = ag_id a" and "validate_agent a = Inr ()"
  shows "keeps (sound L) (upd (\<lambda>s. s\<lparr>k_agents := dset i a (k_agents s)\<rparr>))"
  using assms by (intro keeps_upd) (auto simp: sound_def bus_ok_def flows_filed_def agents_filed_def dest!: set_dset)

lemma valid_agent_state [simp]: "validate_agent (a\<lparr>ag_state := x\<rparr>) = validate_agent a"
  by (simp add: validate_agent_def)

lemma keeps_restore_agent [keeps_intros]: "keeps (sound L) (restore_agent a)"
  unfolding restore_agent_def
  by (rule keeps_upd)
    (auto simp: sound_def bus_ok_def flows_filed_def agents_filed_def split: option.split dest!: set_dset map_of_SomeD)

text \<open>A lookup of an agent finds a filed one.\<close>

lemma keeps_get_agent:
  assumes "\<And>a. ag_id a = i \<Longrightarrow> validate_agent a = Inr () \<Longrightarrow> keeps (sound L) (f a)"
  shows "keeps (sound L) (bnd (get_agent i) f)"
proof (rule keepsI)
  fix s r t
  assume s: "sound L s" and run: "bnd (get_agent i) f s = (r, t)"
  show "sound L t"
  proof (cases "get_agent i s")
    case (Pair r' u)
    have u: "u = s" using Pair by (auto simp: get_agent_def bnd_of_sum bnd_gets fail_def ok_def split: sum.splits option.splits)
    show ?thesis
    proof (cases r')
      case (Inl e)
      then show ?thesis using run Pair s u by (simp add: bnd_def)
    next
      case (Inr a)
      then have "map_of (k_agents s) i = Some a" using Pair by (simp add: get_agent_Inr)
      then have "ag_id a = i \<and> validate_agent a = Inr ()"
        using s unfolding sound_def agents_filed_def by (auto dest!: map_of_SomeD)
      then show ?thesis using run Pair Inr u keepsD[OF assms[of a] _ s, of r t] by (simp add: bnd_def)
    qed
  qed
qed

lemma keeps_sum: "(\<And>x. r = Inr x \<Longrightarrow> keeps P (f x)) \<Longrightarrow> keeps P (bnd (of_sum r) f)"
  by (cases r) (auto simp: keeps_def bnd_of_sum)

subsection \<open>The engine, the registry and the orchestrator\<close>

lemma keeps_mark [keeps_intros]: "keeps (sound L) (mark_updated K pid)"
  unfolding mark_updated_def by (intro keeps_intros)

lemma keeps_item_moves [keeps_intros]:
  "keeps (sound L) (change_work_item_state K pid wid b)" "keeps (sound L) (recover_work_item_state K pid wid b reason)"
  unfolding change_work_item_state_def recover_work_item_state_def by (intro keeps_intros)+

lemma keeps_create [keeps_intros]:
  "keeps (sound L) (create_work_package K i title descr owner)" "keeps (sound L) (add_work_item K pid i title descr prio asg)"
  unfolding create_work_package_def add_work_item_def package_add_item_def Let_def
  by (intro keeps_intros keeps_upd; simp)+

lemma keeps_register [keeps_intros]: "validate_agent a = Inr () \<Longrightarrow> keeps (sound L) (register_agent K a)"
  unfolding register_agent_def by (intro keeps_intros keeps_put_agent) simp_all

lemma keeps_update_agent [keeps_intros]: "keeps (sound L) (update_agent_state K i b)"
  unfolding update_agent_state_def put_agent_def
  by (intro keeps_atomic keeps_get_agent keeps_sum keeps_bnd keeps_put_agent keeps_kpublish keeps_pure)
    (auto simp: change_agent_state_def split: sum.splits)

lemma keeps_change_status [keeps_intros]: "keeps (sound L) (change_status K b a)"
  unfolding change_status_def by (intro keeps_intros)

lemma keeps_publish_assignment [keeps_intros]: "keeps (sound L) (publish_assignment K et a pl)"
  unfolding publish_assignment_def by (intro keeps_intros)

lemma keeps_restores [keeps_intros]:
  "keeps (sound L) (restore_item pid wid w p)" "keeps (sound L) (restore_closing i a w p ag x)" "keeps (sound L) (restore_work a w p)"
  unfolding restore_item_def restore_closing_def restore_work_def
  by (intro keeps_intros keeps_upd; simp)+

lemma keeps_capacity [keeps_intros]: "keeps (sound L) (release_agent_capacity K aid)"
  unfolding release_agent_capacity_def by (intro keeps_intros)

lemma keeps_assignments [keeps_intros]:
  "keeps (sound L) (assign_work_item K i pid wid role caps)" "keeps (sound L) (complete_assignment K i)"
  "keeps (sound L) (cancel_assignment K i)"
  unfolding assign_work_item_def complete_assignment_def cancel_assignment_def Let_def
  by (intro keeps_intros keeps_upd; simp)+

subsection \<open>Executions and recovery\<close>

lemma keeps_marks [keeps_intros]:
  "keeps (sound L) (mark_running K e)" "keeps (sound L) (mark_succeeded K out e)" "keeps (sound L) (mark_failed K err e)"
  unfolding mark_running_def mark_succeeded_def mark_failed_def by (intro keeps_intros)+

lemma keeps_publish_execution [keeps_intros]: "keeps (sound L) (publish_execution K et e pl c)"
  unfolding publish_execution_def by (intro keeps_intros)

lemma keeps_run [keeps_intros]: "keeps (sound L) (run_executor K x rc)"
  by (rule keepsI) (auto simp: run_executor_def zoom_def soundD split: prod.splits intro!: sound_bus)

lemma keeps_execute [keeps_intros]: "keeps (sound L) (execute K i aid c required)"
  unfolding execute_def start_execution_def conclude_execution_def record_failure_def Let_def
  by (intro keeps_intros keeps_upd; simp)

lemma keeps_executions [keeps_intros]:
  "keeps (sound L) (execute_assignment K i aid c)" "keeps (sound L) (execute_correction K i aid c)"
  unfolding execute_assignment_def execute_correction_def by (intro keeps_intros)+

lemma keeps_store_record [keeps_intros]: "keeps (sound L) (store_record K rid e act reason)"
  unfolding store_record_def Let_def by (intro keeps_intros keeps_upd; simp)

lemma keeps_recoveries [keeps_intros]:
  "keeps (sound L) (retry_failed_execution K rid eid new_id reason c)" "keeps (sound L) (reset_failed_execution K rid eid reason)"
  "keeps (sound L) (cancel_failed_assignment K rid eid reason)"
  unfolding retry_failed_execution_def reset_failed_execution_def cancel_failed_assignment_def
  by (intro keeps_intros)+

subsection \<open>Workflows\<close>

lemma keeps_moves [keeps_intros]: "keeps (sound L) (move_to K i b)"
  unfolding move_to_def by (intro keeps_intros; simp)

lemma keeps_reads [keeps_intros]:
  "keeps P (correlation_id w)" "keeps P (require_assignment_id w)" "keeps P (last_execution_id w)"
  unfolding correlation_id_def require_assignment_id_def last_execution_id_def
  by (intro keeps_intros) (auto simp: keeps_def run_simps split: list.split option.split)

lemma keeps_last_event [keeps_intros]: "keeps P (last_event_id w)"
  by (rule keeps_eventing[rotated], simp add: last_event_id_def, simp add: last_event_id_def) (intro keeps_intros)

lemma keeps_wpublish [keeps_intros]: "keeps (sound L) (wpublish K i et pl)"
  by (rule keeps_eventing[rotated], simp add: wpublish_def, simp add: wpublish_def) (intro keeps_intros)

lemma keeps_context [keeps_intros]: "keeps P (execution_context w)"
  unfolding execution_context_def by (intro keeps_intros)

lemma keeps_submit:
  assumes "validate_request q = Inr ()"
  shows "keeps (sound L) (submit_request K q wid)"
proof -
  have filed: "sound L (s\<lparr>k_workflows := dset i w (k_workflows s), k_requests := dset (rq_id q) q (k_requests s)\<rparr>)"
    if "sound L s" "\<not> blank i" "wf_request_id w = rq_id q" for s i w
    using that assms unfolding sound_def bus_ok_def flows_filed_def agents_filed_def by (auto dest!: set_dset)
  show ?thesis
    unfolding submit_request_def Let_def
    by (intro keeps_atomic keeps_sum keeps_bnd keeps_intros keeps_upd filed; simp)
qed

lemma keeps_service [keeps_intros]:
  "keeps (sound L) (plan_request K i)" "keeps (sound L) (assign_work K i)" "keeps (sound L) (prepare_work K i)"
  "keeps (sound L) (approve_work K i)" "keeps (sound L) (reject_work K i reason)"
  "keeps (sound L) (complete_work K i)" "keeps (sound L) (release_work K i)" "keeps (sound L) (cancel_workflow K i reason)"
  unfolding plan_request_def assign_work_def prepare_work_def approve_work_def reject_work_def
    complete_work_def release_work_def cancel_workflow_def
  by (intro keeps_intros; simp)+

lemma keeps_notes [keeps_intros]:
  "keeps (sound L) (note_failed_execution K wid eid e)" "keeps (sound L) (note_failed_retry K wid eid e)"
  unfolding note_failed_execution_def note_failed_retry_def by (intro keeps_intros; simp)+

lemma keeps_execute_work [keeps_intros]: "keeps (sound L) (execute_work K wid eid)"
  unfolding execute_work_def Let_def by (intro keeps_intros; simp)

lemma keeps_recover [keeps_intros]: "keeps (sound L) (recover_failed_execution K wid rid reason kind new_id)"
  unfolding recover_failed_execution_def recover_by_def Let_def
  by (cases kind) (simp_all only: recovery_kind.case, (intro keeps_intros; simp)+)

subsection \<open>The log of a service\<close>

lemma executor_keeps:
  "keeps (sound L) (register_executor x)" "keeps (sound L) (remove_executor i)"
  unfolding register_executor_def remove_executor_def by (intro keeps_intros keeps_upd; simp)+

lemma service_keeps:
  assumes "service_call K s t" and "sound L s"
  shows "sound L t"
  using assms(1)
proof cases
  case (submit q wid r)
  show ?thesis by (rule keepsD[OF keeps_submit[OF submit(1)] submit(2) assms(2)])
next
  case (register_executor x r)
  show ?thesis by (rule keepsD[OF executor_keeps(1) register_executor assms(2)])
next
  case (remove_executor i r)
  show ?thesis by (rule keepsD[OF executor_keeps(2) remove_executor assms(2)])
qed (erule keepsD[where P = "sound L", rotated], rule assms(2),
  ((rule keeps_register, assumption) | (intro keeps_intros; fail)))+

lemma sound_start: "sound [] (empty_kernel True)"
  by (simp add: sound_def bus_ok_def flows_filed_def agents_filed_def empty_kernel_def empty_bus_def bus_inv_def
      stream_def staged_def sequence_of_def counted_def)

lemma service_sound: "service_reachable K s \<Longrightarrow> sound [] s"
  by (induction rule: service_reachable.induct) (auto intro: sound_start service_keeps)

lemma sound_here: "sound [] s \<Longrightarrow> sound (b_store (k_bus s)) s"
  by (simp add: sound_def)

text \<open>C16: The event log of a service is append-only: whatever a call does, and also when it raises, the
  events stored before it are stored after it, in the same order and before any new ones.
\<close>

theorem event_log_append_only:
  assumes "service_reachable K s" and "service_call K s t"
  shows "\<exists>new. b_store (k_bus t) = b_store (k_bus s) @ new"
  using service_keeps[OF assms(2) sound_here[OF service_sound[OF assms(1)]]] by (simp add: sound_def)

text \<open>C15: In every reachable kernel the events of each aggregate are numbered one, two, three and so on, in the
  order of the log, each under the identifier that is derived from its aggregate, number and type; no
  two events share an identifier, and nothing is left staged outside a call.
\<close>

theorem event_streams_consistent:
  assumes "service_reachable K s" and "list_events_for_aggregate ty aid (b_store (k_bus s)) = Inr es"
  shows "map re_sequence es = map (\<lambda>n. int n + 1) [0..<length es]
    \<and> list_all (\<lambda>e. re_id e = event_id ty aid (re_sequence e) (re_event_type e)) es
    \<and> distinct (map re_id (dvals (b_store (k_bus s)))) \<and> staged (k_bus s) = []"
proof -
  have tx: "staged (k_bus s) = []" using service_invariant[OF assms(1)] by (simp add: outer_def staged_def)
  have "bus_inv (k_bus s)" by (rule soundD[OF service_sound[OF assms(1)]])
  then have st: "stream (dvals (b_store (k_bus s)))" unfolding bus_inv_alt by (simp add: tx)
  have es: "es = filter (of_aggregate ty aid) (dvals (b_store (k_bus s)))"
    using assms(2) by (simp add: list_events_for_aggregate_def split: sum.splits)
  have "counted (map re_sequence es)" using st by (simp add: stream_def sequence_of_def es)
  then have "map re_sequence es = map (\<lambda>n. int n + 1) [0..<length es]" by (simp add: counted_def)
  moreover have "list_all (\<lambda>e. re_id e = event_id ty aid (re_sequence e) (re_event_type e)) es"
    using st by (auto simp: es list_all_iff stream_def derived_def of_aggregate_def)
  ultimately show ?thesis using stream_distinct[OF st] tx by blast
qed

end
