(* ===== verification/Delivery_Progress.thy ===== *)
theory Delivery_Progress
  imports Kernel_Invariant
begin

section \<open>Calls that cannot fail\<close>

text \<open>
  When a call of the workflow service is due, it returns: from a reachable kernel, work that is in
  review can be approved, completed and released, and nothing (no guard, no publication, no commit) raises
  on the way. \<open>safe m s\<close>: the operation does not raise from \<open>s\<close>; the specifications of the returning
  runs carry the view from one statement to the next.
\<close>

subsection \<open>The calculus\<close>

definition safe :: "('s, 'e, 'a) sx \<Rightarrow> 's \<Rightarrow> bool" where
  "safe m s \<longleftrightarrow> (\<exists>x t. m s = (Inr x, t))"

named_theorems safe_simps \<open>when a statement returns\<close>
named_theorems step_rules \<open>going on after an operation that returns\<close>

lemma safeI: "m s = (Inr x, t) \<Longrightarrow> safe m s"
  unfolding safe_def by blast

lemma safe_exc: "safe m s \<longleftrightarrow> exc m s (\<lambda>_ _. False)"
  unfolding safe_def exc_def by (metis Inl_Inr_False obj_sumE prod.exhaust_sel prod.inject)

lemma safe_pure [safe_simps]:
  "safe (ok x) s" "safe (gets f) s" "safe (upd g) s" "safe (require b e) s \<longleftrightarrow> b"
  "safe (of_sum r) s \<longleftrightarrow> (\<exists>y. r = Inr y)" "\<not> safe (fail e) s"
  by (auto simp: safe_def run_simps)

lemma safe_if [safe_simps]: "safe (if b then m else n) s = ((b \<longrightarrow> safe m s) \<and> (\<not> b \<longrightarrow> safe n s))"
  by simp

lemma safe_catch: "safe m s \<Longrightarrow> safe (catch m h) s"
  by (auto simp: safe_def catch_def)

lemma safe_bnd_pure [safe_simps]:
  "safe (bnd (gets f) g) s = safe (g (f s)) s" "safe (bnd (require b e) h) s = (b \<and> safe (h ()) s)"
  "safe (bnd (of_sum r) j) s = (\<exists>y. r = Inr y \<and> safe (j y) s)"
  by (auto simp: safe_def bnd_gets bnd_require bnd_of_sum split: sum.splits)

definition live :: "kernel \<Rightarrow> bool" where
  "live s \<longleftrightarrow> in_tx s \<and> sound [] s"

lemma liveD: "live s \<Longrightarrow> in_tx s" "live s \<Longrightarrow> sound [] s"
  by (simp_all add: live_def)

text \<open>Sequencing: what the first part establishes is what its specification says of it.\<close>

definition does :: "('a \<Rightarrow> 's \<Rightarrow> bool) \<Rightarrow> ('s, 'e, 'a) sx \<Rightarrow> 's \<Rightarrow> bool" where
  "does Q m s \<longleftrightarrow> (\<exists>x t. m s = (Inr x, t) \<and> Q x t)"

lemma does_pure:
  "does Q (ok x) s = Q x s" "does P (bnd (gets f) g) s = does P (g (f s)) s"
  "does R (bnd (require b e) h) s = (b \<and> does R (h ()) s)"
  "does S (bnd (of_sum r) j) s = (\<exists>y. r = Inr y \<and> does S (j y) s)"
  by (auto simp: does_def bnd_gets bnd_require bnd_of_sum ok_def split: sum.splits)

lemma does_atomic: "in_tx s \<Longrightarrow> does Q (atomic m) s = does Q m s"
  by (simp add: does_def)

lemma does_step:
  assumes "live s" and "keeps (sound []) m" and "safe m s"
    and "\<And>Q. (\<And>x t. in_tx t \<Longrightarrow> R x t \<Longrightarrow> Q x t) \<Longrightarrow> post m s Q" and "\<And>x t. live t \<Longrightarrow> R x t \<Longrightarrow> does Q (f x) t"
  shows "does Q (bnd m f) s"
proof -
  obtain x t where run: "m s = (Inr x, t)" using assms(3) unfolding safe_def by blast
  have "in_tx t \<and> R x t" by (rule postD[OF assms(4) run]) simp
  then have "does Q (f x) t" using assms(1,2,5) run unfolding live_def by (metis keepsD)
  then show ?thesis using run by (auto simp: does_def bnd_def)
qed

subsection \<open>Lookups and publications\<close>

lemma blank_append [simp]: "blank (xs @ ys) \<longleftrightarrow> blank xs \<and> blank ys"
  by (simp add: blank_def)

lemma blank_colon [simp]: "\<not> blank (CHR '':'' # xs)"
  by (simp add: blank_def is_space_def)

lemma event_id_not_blank [simp]: "\<not> blank (event_id ty aid n et)"
  by (simp add: event_id_def)

lemma safe_now: "safe (utc_now K) s"
  by (rule safeI) (simp add: now_Inr)

lemma safe_publish:
  assumes tx: "in_tx s" and ok: "\<not> blank ty" "\<not> blank aid" "\<And>x. corr = Some x \<Longrightarrow> \<not> blank x" "\<And>x. caus = Some x \<Longrightarrow> \<not> blank x"
    and pl: "is_mapping pl" "freezable pl"
  shows "safe (kpublish K et ty aid pl corr caus) s"
proof -
  let ?b = "k_bus s"
  let ?n = "int (length (sequence_of ty aid (dvals (b_store ?b)))) + 1 + int (length (filter (of_aggregate ty aid) (staged ?b)))"
  let ?e = "\<lparr>re_id = event_id ty aid ?n et, re_event_type = et, re_aggregate_type = ty, re_aggregate_id = aid,
              re_sequence = ?n, re_payload = pl, re_occurred_at = kclock K (b_ticks ?b),
              re_correlation = corr, re_causation = caus\<rparr>"
  have c: "checks [validate_required_string ty ''aggregate_type'',
       validate_required_string aid ''aggregate_id'', validate_optional_string corr ''correlation_id'',
       validate_optional_string caus ''causation_id''] = Inr ()"
    using ok by (simp add: checks_Inr)
  have v: "validate_event ?e = Inr ()" using ok pl by (simp add: validate_event_def checks_Inr)
  obtain es where es: "b_tx ?b = Some es" using tx by (auto simp: in_tx_def)
  have "publish K et ty aid pl corr caus None ?b = emit_event ?e (?b\<lparr>b_ticks := Suc (b_ticks ?b)\<rparr>)"
    using ok by (simp add: publish_def c bnd_of_sum bnd_gets next_sequence bnd_def[of "tick K"] tick_def Let_def v)
  then have "\<exists>b. publish K et ty aid pl corr caus None ?b = (Inr ?e, b)" using es by (simp add: emit_event_def)
  then show ?thesis
    using tx by (auto simp: safe_def kpublish_def in_tx_def bnd_def on_bus_def zoom_def ok_def)
qed

lemma freezable_texts [simp]: "freezable (JObj (map (\<lambda>(k, v). (k, JStr v)) d))"
  by (induction d) auto

lemma mapping_simps [simp]: "is_mapping (JObj d)"
  by (simp add: is_mapping_def)

subsection \<open>Moving a work item\<close>

lemma safe_steps [safe_simps]:
  "safe (bnd (upd f) g) s = safe (g ()) (f s)" "safe (bnd (put_package pid h) j) s = safe (j ()) (snd (put_package pid h s))"
  by (simp_all add: safe_def bnd_upd bnd_def[of "put_package _ _"] put_package_run)

lemma in_tx_mark [simp]: "in_tx s \<Longrightarrow> in_tx (snd (mark_updated K pid s))"
  by (simp add: mark_updated_def bnd_utc_now put_package_run in_tx_def)

lemma in_tx_put_item [simp]: "in_tx s \<Longrightarrow> in_tx (snd (put_item pid wid f s))"
  by (simp add: put_item_def put_package_run in_tx_def)

lemma safe_change:
  assumes tx: "in_tx s" and item: "vi (view s) (pid, wid) = Some a" and b: "b \<in> set (lifecycle_transitions a)"
  shows "safe (change_work_item_state K pid wid b) s"
proof -
  obtain p w where p: "map_of (k_packages s) pid = Some p" "find_item wid (wp_items p) = Some w" "wi_state w = a"
    using item by (auto simp: view_packages(1) item_view_def split: option.splits)
  have get: "get_work_item pid wid s = (Inr w, s)" using p(1,2) by (simp add: get_work_item_Inr)
  have ch: "change_state b w = Inr (w\<lparr>wi_state := b\<rparr>)"
    using p(3) b by (simp add: change_state_def validate_lifecycle_transition_def check_def)
  let ?pub = "\<lambda>a. kpublish K ''WORK_ITEM_STATE_CHANGED'' ''WORK_ITEM'' (pid @ '':'' @ wid)
       (JObj [(''package_id'', JStr pid), (''work_item_id'', JStr wid),
         (''previous_state'', JStr (state_name (wi_state w))), (''new_state'', JStr (state_name b))]) None None"
  let ?t = "snd (put_item pid wid (\<lambda>_. w\<lparr>wi_state := b\<rparr>) s)"
  have "safe (?pub ()) (snd (mark_updated K pid ?t))"
    by (rule safe_publish) (simp_all add: tx blank_def is_space_def)
  then show ?thesis
    using tx unfolding change_work_item_state_def
    by (simp add: safe_def bnd_Inr[where m = "get_work_item pid wid", OF get] bnd_of_sum ch)
      (simp add: bnd_def put_item_def put_package_run mark_updated_def now_Inr split: prod.splits sum.splits)
qed

subsection \<open>Moving a workflow\<close>

lemma live_workflow:
  assumes "live s" and "map_of (k_workflows s) i = Some w"
  shows "\<not> blank i" "\<exists>q. map_of (k_requests s) (wf_request_id w) = Some q \<and> validate_request q = Inr ()"
  using assms by (auto simp: live_def sound_def flows_filed_def dest!: map_of_SomeD)

lemma safe_move:
  assumes "live s" and "vf (view s) i = Some fl" and "b \<in> set (stage_transitions (fl_stage fl))"
  shows "safe (move_to K i b) s"
proof -
  obtain w where w: "map_of (k_workflows s) i = Some w" "wf_stage w = fl_stage fl" using assms(2) by (auto simp: view_flow)
  have "get_workflow i s = (Inr w, s)" using live_workflow(1)[OF assms(1) w(1)] w(1) by (simp add: get_workflow_Inr)
  then show ?thesis
    using assms(3) w(2)
    by (simp add: move_to_def safe_def bnd_def[of "get_workflow i"] bnd_of_sum require_stage_transition_def check_def
        bnd_utc_now put_workflow_def upd_def)
qed

lemma last_event_post:
  assumes "live s"
  shows "post (last_event_id w) s (\<lambda>l t. t = s \<and> (\<forall>x. l = Some x \<longrightarrow> \<not> blank x))"
proof -
  have st: "stream (dvals (b_store (k_bus s)) @ staged (k_bus s))" and ev: "k_eventing s"
    using assms by (auto simp: live_def in_tx_def bus_inv_alt dest!: soundD)
  have ids: "\<not> blank (re_id e)" if "e \<in> set (dvals (b_store (k_bus s)) @ staged (k_bus s))" for e
    using st that unfolding stream_def derived_def by (metis event_id_not_blank)
  have es: "set es \<subseteq> set (dvals (b_store (k_bus s)))"
    if "list_events_for_correlation c (b_store (k_bus s)) = Inr es" for c es
    using that by (auto simp: list_events_for_correlation_def split: sum.splits)
  show ?thesis
  proof (rule postI)
    fix l t
    assume "last_event_id w s = (Inr l, t)"
    then obtain c es where t: "t = s" and es': "list_events_for_correlation c (b_store (k_bus s)) = Inr es"
      and l: "l = (let all = es @ filter (\<lambda>e. re_correlation e = Some c) (staged (k_bus s)) in
        (if all = [] then None else Some (re_id (last all))))"
      using ev by (auto simp: last_event_id_def correlation_id_def bnd_assoc lookup_Inr of_sum_def gets_def ok_def
          elim!: bnd_InrE)
    have "\<not> blank x" if "l = Some x" for x
    proof -
      let ?all = "es @ filter (\<lambda>e. re_correlation e = Some c) (staged (k_bus s))"
      have "?all \<noteq> []" "x = re_id (last ?all)" using that l by (auto simp: Let_def split: if_splits)
      then show ?thesis using ids[of "last ?all"] es[OF es'] last_in_set[of ?all] by (auto simp del: last_append)
    qed
    then show "t = s \<and> (\<forall>x. l = Some x \<longrightarrow> \<not> blank x)" using t by blast
  qed
qed

lemma request_correlation:
  "validate_request q = Inr () \<Longrightarrow> \<not> blank i \<Longrightarrow> \<not> blank (text_or (rq_correlation_id q) i)"
  by (auto simp: validate_request_def checks_Inr text_or_def split: option.split)

definition requested :: "workflow \<Rightarrow> kernel \<Rightarrow> bool" where
  "requested w s \<longleftrightarrow> \<not> blank (wf_id w)
     \<and> (\<exists>q. map_of (k_requests s) (wf_request_id w) = Some q \<and> validate_request q = Inr ())"

lemma requestedI: "live s \<Longrightarrow> map_of (k_workflows s) i = Some w \<Longrightarrow> wf_id w = i \<Longrightarrow> requested w s"
  using live_workflow[of s i w] by (simp add: requested_def)

lemma correlation_run:
  assumes "requested w s"
  shows "\<exists>c. correlation_id w s = (Inr c, s) \<and> \<not> blank c"
proof -
  obtain q where q: "map_of (k_requests s) (wf_request_id w) = Some q" "validate_request q = Inr ()" "\<not> blank (wf_id w)"
    using assms unfolding requested_def by blast
  then have "correlation_id w s = (Inr (text_or (rq_correlation_id q) (wf_id w)), s)"
    by (simp add: correlation_id_def bnd_Inr[where m = "get_request _"] get_request_Inr ok_def)
  then show ?thesis using request_correlation[OF q(2,3)] by blast
qed

lemma last_event_run:
  assumes "live s" and "requested w s" and "vf (view s) (wf_id w) = Some fl"
  shows "\<exists>l. last_event_id w s = (Inr l, s) \<and> (\<forall>x. l = Some x \<longrightarrow> \<not> blank x)"
proof -
  obtain c where c: "correlation_id w s = (Inr c, s)" "\<not> blank c" using correlation_run[OF assms(2)] by blast
  obtain v where "map_of (k_workflows s) (wf_id w) = Some v" using assms(3) by (auto simp: view_flow)
  then have get: "get_workflow (wf_id w) s = (Inr v, s)" using assms(2) by (simp add: get_workflow_Inr requested_def)
  have "k_eventing s" using assms(1) by (simp add: live_def in_tx_def)
  then obtain l where "last_event_id w s = (Inr l, s)"
    using c get
    by (simp add: last_event_id_def bnd_Inr[where m = "correlation_id w"] bnd_Inr[where m = "get_workflow _"] bnd_gets
        bnd_of_sum list_events_for_correlation_def validate_required_string_def gets_def)
  then show ?thesis using postD[OF last_event_post[OF assms(1)]] by blast
qed

lemma safe_wpublish:
  assumes "live s" and "vf (view s) i = Some fl" and "fl_id fl = i" and "list_all (\<lambda>x. freezable (snd x)) pl"
  shows "safe (wpublish K i et pl) s"
proof -
  obtain w where w: "map_of (k_workflows s) i = Some w" "wf_id w = i" using assms(2,3) by (auto simp: view_flow)
  note nb = live_workflow(1)[OF assms(1) w(1)]
  have get: "get_workflow i s = (Inr w, s)" using nb w(1) by (simp add: get_workflow_Inr)
  obtain c where c: "correlation_id w s = (Inr c, s)" "\<not> blank c" using correlation_run[OF requestedI[OF assms(1) w]] by blast
  obtain l where l: "last_event_id w s = (Inr l, s)" "\<forall>x. l = Some x \<longrightarrow> \<not> blank x"
    using last_event_run[OF assms(1) requestedI[OF assms(1) w]] assms(2) w(2) by blast
  have tx: "in_tx s" "k_eventing s" using assms(1) by (simp_all add: live_def in_tx_def)
  have "safe (kpublish K et ''SOFTWARE_DELIVERY_WORKFLOW'' (wf_id w)
    (JObj ((''stage'', JStr (stage_name (wf_stage w))) # pl)) (Some c) l) s"
    by (rule safe_publish[OF tx(1)]) (use nb w c(2) l(2) assms(4) in \<open>auto simp: blank_def is_space_def\<close>)
  then show ?thesis
    using tx(2) by (simp add: safe_def wpublish_def bnd_Inr[where m = "get_workflow _", OF get]
        bnd_Inr[where m = "correlation_id _", OF c(1)] bnd_Inr[where m = "last_event_id _", OF l(1)])
qed

subsection \<open>One statement after the other\<close>

lemma step_flow [step_rules]:
  assumes "live s" and "vf (view s) i = Some fl"
    and "\<And>w. live s \<Longrightarrow> map_of (k_workflows s) i = Some w \<Longrightarrow> wf_package_id w = fl_package fl \<Longrightarrow>
      wf_item_id w = fl_item fl \<Longrightarrow> wf_stage w = fl_stage fl \<Longrightarrow> wf_assignment_id w = fl_assignment fl \<Longrightarrow> wf_id w = fl_id fl \<Longrightarrow>
      wf_execution_ids w = fl_executions fl \<Longrightarrow> does Q (f w) s"
  shows "does Q (bnd (get_workflow i) f) s"
proof -
  obtain w where w: "map_of (k_workflows s) i = Some w" "flow_view w = fl" using assms(2) by (auto simp: view_flow)
  then have "get_workflow i s = (Inr w, s)" using live_workflow(1)[OF assms(1)] by (simp add: get_workflow_Inr)
  then show ?thesis using assms(3)[OF assms(1) w(1)] w(2) by (auto simp: does_def bnd_def)
qed

lemma step_item [step_rules]:
  assumes "vi (view s) (pid, wid) = Some a" and "\<And>w. wi_state w = a \<Longrightarrow> wi_id w = wid \<Longrightarrow> does Q (f w) s"
  shows "does Q (bnd (get_work_item pid wid) f) s"
proof -
  obtain w where "get_work_item pid wid s = (Inr w, s)" "wi_state w = a" "wi_id w = wid"
    using assms(1) find_item_id by (fastforce simp: get_work_item_Inr view_packages(1) item_view_def split: option.splits)
  then show ?thesis using assms(2) by (simp add: does_def bnd_def)
qed

lemma step_request [step_rules]:
  assumes "live s" and "map_of (k_workflows s) i = Some w" and "\<And>q. validate_request q = Inr () \<Longrightarrow> does Q (f q) s"
  shows "does Q (bnd (get_request (wf_request_id w)) f) s"
proof -
  obtain q where "get_request (wf_request_id w) s = (Inr q, s)" "validate_request q = Inr ()"
    using live_workflow(2)[OF assms(1,2)] by (auto simp: get_request_Inr)
  then show ?thesis using assms(3) by (simp add: does_def bnd_def)
qed

lemma step_now [step_rules]:
  assumes "live s" and "\<And>x t. live t \<Longrightarrow> view t = view s \<Longrightarrow> does Q (f x) t"
  shows "does Q (bnd (utc_now K) f) s"
  by (rule does_step[OF assms(1) _ safe_now, where R = "\<lambda>_ t. view t = view s"])
    (use assms in \<open>auto intro: keeps_intros post_now liveD\<close>)

lemma step_change [step_rules]:
  assumes "live s" and "vi (view s) (pid, wid) = Some a" and "b \<in> set (lifecycle_transitions a)"
    and "\<And>t. live t \<Longrightarrow> view t = (view s)\<lparr>vi := (vi (view s))((pid, wid) \<mapsto> b)\<rparr> \<Longrightarrow> does Q (f ()) t"
  shows "does Q (bnd (change_work_item_state K pid wid b) f) s"
  by (rule does_step[OF assms(1) _ safe_change[OF liveD(1)[OF assms(1)] assms(2,3)],
        where R = "\<lambda>_ t. view t = (view s)\<lparr>vi := (vi (view s))((pid, wid) \<mapsto> b)\<rparr>"])
    (use assms in \<open>auto intro: keeps_intros post_change liveD\<close>)

lemma step_move [step_rules]:
  assumes "live s" and "vf (view s) i = Some fl" and "b \<in> set (stage_transitions (fl_stage fl))"
    and "\<And>t. live t \<Longrightarrow> view t = put_flow i (fl\<lparr>fl_stage := b\<rparr>) (view s) \<Longrightarrow> does Q (f ()) t"
  shows "does Q (bnd (move_to K i b) f) s"
  by (rule does_step[OF assms(1) _ safe_move[OF assms(1-3)], where R = "\<lambda>_ t. view t = put_flow i (fl\<lparr>fl_stage := b\<rparr>) (view s)"])
    (use assms in \<open>auto intro: keeps_intros post_move liveD\<close>)

lemma step_wpublish [step_rules]:
  assumes "live s" and "vf (view s) i = Some fl" and "fl_id fl = i" and "list_all (\<lambda>x. freezable (snd x)) pl"
    and "\<And>t. live t \<Longrightarrow> view t = view s \<Longrightarrow> does Q (f ()) t"
  shows "does Q (bnd (wpublish K i et pl) f) s"
  by (rule does_step[OF assms(1) _ safe_wpublish[OF assms(1-4)], where R = "\<lambda>_ t. view t = view s"])
    (use assms in \<open>auto intro: keeps_intros post_wpublish liveD\<close>)

lemma step_put [step_rules]:
  assumes "live s" and "vf (view s) i = Some fl"
    and "\<And>w. wf_request_id (g w) = wf_request_id w" and "\<And>w. flow_view (g w) = F (flow_view w)"
    and "\<And>t. live t \<Longrightarrow> view t = put_flow i (F fl) (view s) \<Longrightarrow> does Q (f ()) t"
  shows "does Q (bnd (put_workflow i g) f) s"
proof -
  have "safe (put_workflow i g) s" by (simp add: safe_def put_workflow_def upd_def)
  then show ?thesis
    by (rule does_step[OF assms(1), rotated, where R = "\<lambda>_ t. view t = put_flow i (F fl) (view s)"])
      (use assms in \<open>auto intro: keeps_put_workflow post_put_workflow[where F = F] liveD\<close>)
qed

lemma does_flow [step_rules]:
  assumes "live s" and "vf (view s) i = Some fl" and "\<And>w. wf_stage w = fl_stage fl \<Longrightarrow> Q w s"
  shows "does Q (get_workflow i) s"
proof -
  obtain w where w: "map_of (k_workflows s) i = Some w" "flow_view w = fl" using assms(2) by (auto simp: view_flow)
  then have "get_workflow i s = (Inr w, s)" using live_workflow(1)[OF assms(1)] by (simp add: get_workflow_Inr)
  then show ?thesis using assms(3)[of w] w(2) by (auto simp: does_def)
qed

lemma step_pure [step_rules]:
  "b \<Longrightarrow> does Q (h ()) s \<Longrightarrow> does Q (bnd (require b e) h) s"
  "r = Inr () \<Longrightarrow> does Q (j ()) s \<Longrightarrow> does Q (bnd (of_sum r) j) s"
  by (simp_all add: does_pure)

lemmas guard_defs = require_approval_stage_def require_stage_def require_release_stage_def require_stage_transition_def
  require_cancellable_def require_recoverable_def cancellable_stages_def

lemma flow_parts:
  "flow_ok v i fl \<Longrightarrow> fl_id fl = i \<and> fl_package fl = fst (cell i) \<and> fl_item fl = snd (cell i)"
  by (auto simp: flow_ok_def prod_eq_iff)

lemma flow_item: "flow_ok v i fl \<Longrightarrow> item_states (fl_stage fl) = [b] \<Longrightarrow> vi v (cell i) = Some b"
  by (auto simp: flow_ok_def)

text \<open>The call ends with the workflow in the stage.\<close>

definition ends :: "string \<Rightarrow> workflow_stage \<Rightarrow> workflow \<Rightarrow> kernel \<Rightarrow> bool" where
  "ends i b w t \<longleftrightarrow> live t \<and> wf_stage w = b \<and> stage_of (view t) i = Some b"

lemma plan_does:
  assumes live: "live s" and fl: "vf (view s) i = Some fl" and ok: "flow_ok (view s) i fl" and st: "fl_stage fl = INTAKE"
  shows "does (ends i STAGE_READY) (plan_request K i) s"
  unfolding plan_request_def does_atomic[OF liveD(1)[OF live]]
  by (rule step_rules live fl | assumption
    | (simp add: st fl flow_parts[OF ok] flow_item[OF ok] guard_defs stage_of_def ends_def list_all_iff; fail))+

lemma approve_does:
  assumes live: "live s" and fl: "vf (view s) i = Some fl" and ok: "flow_ok (view s) i fl" and st: "fl_stage fl = STAGE_REVIEW"
  shows "does (ends i APPROVAL) (approve_work K i) s"
  unfolding approve_work_def does_atomic[OF liveD(1)[OF live]]
  by (rule step_rules live fl step_put[where F = "\<lambda>fl. fl"] | assumption
    | (simp add: st fl flow_parts[OF ok] flow_item[OF ok] guard_defs flow_view_def stage_of_def ends_def; fail))+

lemma reject_does:
  assumes live: "live s" and fl: "vf (view s) i = Some fl" and ok: "flow_ok (view s) i fl" and st: "fl_stage fl = STAGE_REVIEW"
    and reason: "\<not> blank reason"
  shows "does (ends i EXECUTING) (reject_work K i reason) s"
  unfolding reject_work_def does_atomic[OF liveD(1)[OF live]]
  by (rule step_rules live fl step_put[where F = "\<lambda>fl. fl"] | assumption
    | (simp add: st fl reason flow_parts[OF ok] flow_item[OF ok] guard_defs flow_view_def stage_of_def ends_def; fail))+

lemma release_does:
  assumes live: "live s" and fl: "vf (view s) i = Some fl" and ok: "flow_ok (view s) i fl" and st: "fl_stage fl = STAGE_COMPLETED"
  shows "does (ends i STAGE_RELEASED) (release_work K i) s"
  unfolding release_work_def does_atomic[OF liveD(1)[OF live]]
  by (rule step_rules live fl | assumption
    | (simp add: st fl flow_parts[OF ok] flow_item[OF ok] guard_defs stage_of_def ends_def; fail))+

subsection \<open>Completing\<close>

lemma safe_does: "safe m s \<longleftrightarrow> does (\<lambda>_ _. True) m s"
  by (simp add: safe_def does_def)

lemma does_catch: "does (\<lambda>x t. does Q (f x) t) m s \<Longrightarrow> does Q (bnd (catch m h) f) s"
  by (auto simp: does_def catch_def bnd_def)

lemma does_if:
  "(b \<Longrightarrow> does Q m s) \<Longrightarrow> (\<not> b \<Longrightarrow> does Q n s) \<Longrightarrow> does Q (if b then m else n) s"
  "(b \<Longrightarrow> does R (bnd m' f) s) \<Longrightarrow> (\<not> b \<Longrightarrow> does R (bnd n' f) s) \<Longrightarrow> does R (bnd (if b then m' else n') f) s"
  by simp_all

lemma does_ok: "Q x s \<Longrightarrow> does Q (ok x) s" "does R (f y) s \<Longrightarrow> does R (bnd (ok y) f) s"
  "does P (bnd m (\<lambda>x. bnd (g x) h)) s \<Longrightarrow> does P (bnd (bnd m g) h) s"
  by (simp_all add: does_pure bnd_assoc)

lemma step_gets: "does Q (g (f s)) s \<Longrightarrow> does Q (bnd (gets f) g) s"
  by (simp add: does_pure)

lemmas flow_rules = does_catch does_if does_ok step_gets

lemma filed_agent:
  assumes "live s" and "g \<in> fst ` set (vg (view s))"
  shows "\<exists>a. map_of (k_agents s) g = Some a \<and> ag_id a = g \<and> \<not> blank g"
proof -
  have "g \<in> fst ` set (k_agents s)" using assms(2) by (force simp: view_def)
  then obtain a where a: "map_of (k_agents s) g = Some a" by (metis map_of_eq_None_iff not_None_eq)
  then have "ag_id a = g \<and> validate_agent a = Inr ()"
    using assms(1) by (auto simp: live_def sound_def agents_filed_def dest!: map_of_SomeD)
  then show ?thesis using a by (auto simp: validate_agent_def checks_Inr)
qed

lemma step_agent [step_rules]:
  assumes "live s" and "g \<in> fst ` set (vg (view s))"
    and "\<And>a. map_of (k_agents s) g = Some a \<Longrightarrow> ag_id a = g \<Longrightarrow> \<not> blank g \<Longrightarrow> does Q (f a) s"
  shows "does Q (bnd (get_agent g) f) s"
proof -
  obtain a where a: "map_of (k_agents s) g = Some a" "ag_id a = g" "\<not> blank g" using filed_agent[OF assms(1,2)] by blast
  then have "get_agent g s = (Inr a, s)" by (simp add: get_agent_Inr)
  then show ?thesis using assms(3)[OF a] by (simp add: does_def bnd_def)
qed

lemma step_publish [step_rules]:
  assumes "live s" and "\<not> blank ty" "\<not> blank aid" "\<And>x. corr = Some x \<Longrightarrow> \<not> blank x" "\<And>x. caus = Some x \<Longrightarrow> \<not> blank x"
    and "is_mapping pl" "freezable pl" and "\<And>t. live t \<Longrightarrow> view t = view s \<Longrightarrow> does Q (f ()) t"
  shows "does Q (bnd (kpublish K et ty aid pl corr caus) f) s"
  by (rule does_step[OF assms(1) _ safe_publish[OF liveD(1)[OF assms(1)] assms(2-7)], where R = "\<lambda>_ t. view t = view s"])
    (use assms in \<open>auto intro: keeps_intros post_publish liveD\<close>)

lemma safe_update_agent:
  assumes "live s" and "map_of (k_agents s) i = Some a" and "b \<in> set (agent_transitions (ag_state a))" and "\<not> blank i"
  shows "safe (update_agent_state K i b) s"
proof -
  have get: "get_agent i s = (Inr a, s)" using assms(2,4) by (simp add: get_agent_Inr)
  have ch: "change_agent_state b a = Inr (a\<lparr>ag_state := b\<rparr>)"
    using assms(3) by (simp add: change_agent_state_def validate_agent_state_transition_def check_def)
  let ?s = "s\<lparr>k_agents := dset i (a\<lparr>ag_state := b\<rparr>) (k_agents s)\<rparr>"
  have "in_tx ?s" using liveD(1)[OF assms(1)] by (simp add: in_tx_def)
  then have "safe (kpublish K ''AGENT_STATE_CHANGED'' ''AGENT'' i
       (JObj [(''previous_state'', JStr (agent_state_name (ag_state a))),
         (''new_state'', JStr (agent_state_name b))]) None None) ?s"
    by (rule safe_publish) (use assms(4) in \<open>simp_all add: blank_def is_space_def\<close>)
  then show ?thesis
    using liveD(1)[OF assms(1)] unfolding update_agent_state_def
    by (auto simp: safe_def bnd_Inr[where m = "get_agent _", OF get] bnd_of_sum ch put_agent_def bnd_upd bnd_def[of "kpublish _ _ _ _ _ _ _"] ok_def)
qed

lemma step_update_agent [step_rules]:
  assumes "live s" and "map_of (k_agents s) i = Some a" and "b \<in> set (agent_transitions (ag_state a))" and "\<not> blank i"
    and "\<And>x t. live t \<Longrightarrow> view t = view s \<Longrightarrow> does Q (f x) t"
  shows "does Q (bnd (update_agent_state K i b) f) s"
  by (rule does_step[OF assms(1) _ safe_update_agent[OF assms(1-4)], where R = "\<lambda>_ t. view t = view s"])
    (use assms in \<open>auto intro: keeps_intros post_update_agent liveD\<close>)

lemma does_capacity:
  assumes "live s" and "g \<in> fst ` set (vg (view s))"
  shows "does (\<lambda>_ t. live t \<and> view t = view s) (release_agent_capacity K g) s"
  unfolding release_agent_capacity_def
  by (rule step_rules flow_rules assms | assumption | (simp add: assms(1); fail))+

lemma step_capacity [step_rules]:
  assumes "live s" and "g \<in> fst ` set (vg (view s))" and "\<And>t. live t \<Longrightarrow> view t = view s \<Longrightarrow> does Q (f ()) t"
  shows "does Q (bnd (release_agent_capacity K g) f) s"
proof -
  obtain t where "release_agent_capacity K g s = (Inr (), t)" "live t" "view t = view s"
    using does_capacity[OF assms(1,2), of K] by (auto simp: does_def)
  then show ?thesis using assms(3)[of t] by (auto simp: does_def bnd_def)
qed

lemma step_put_assignment [step_rules]:
  assumes "live s" and "\<And>t. live t \<Longrightarrow> vg (view t) = vg (view s) \<Longrightarrow> does Q (f ()) t"
  shows "does Q (bnd (put_assignment i a) f) s"
proof -
  have "safe (put_assignment i a) s" by (simp add: put_assignment_def safe_pure)
  then show ?thesis
    by (rule does_step[OF assms(1), rotated, where R = "\<lambda>_ t. vg (view t) = vg (view s)"])
      (use assms in \<open>auto intro: keeps_intros liveD intro!: post_put_assignment\<close>)
qed

lemma step_change_status [step_rules]:
  assumes "live s" and "b \<in> set (assignment_transitions (wa_status a))"
    and "\<And>t tm. live t \<Longrightarrow> view t = view s \<Longrightarrow> does Q (f (a\<lparr>wa_status := b, wa_updated_at := tm\<rparr>)) t"
  shows "does Q (bnd (change_status K b a) f) s"
  unfolding change_status_def bnd_assoc
  by (rule step_pure(2)) (use assms in \<open>auto simp: validate_assignment_status_transition_def bnd_assoc intro: step_now\<close>)

lemma step_assignment [step_rules]:
  assumes "va (view s) i = Some (k, pid, wid, g, st)" and "\<not> blank i"
    and "\<And>a. map_of (k_assignments s) i = Some a \<Longrightarrow> wa_id a = k \<Longrightarrow> wa_package_id a = pid \<Longrightarrow> wa_work_item_id a = wid \<Longrightarrow> wa_agent_id a = g \<Longrightarrow> wa_status a = st \<Longrightarrow>
      does Q (f a) s"
  shows "does Q (bnd (get_assignment i) f) s"
proof -
  obtain a where a: "map_of (k_assignments s) i = Some a" "assignment_view a = (k, pid, wid, g, st)"
    using assms(1) by (auto simp: view_assignment)
  then have "get_assignment i s = (Inr a, s)" using assms(2) by (simp add: get_assignment_Inr)
  then show ?thesis using assms(3)[of a] a by (auto simp: does_def bnd_def assignment_view_def)
qed

lemma step_package:
  assumes "vi (view s) (pid, wid) = Some b" and "pid' = pid" and "\<And>p. does Q (f p) s"
  shows "does Q (bnd (get_work_package pid') f) s"
proof -
  obtain p where "get_work_package pid' s = (Inr p, s)"
    using assms(1,2) by (auto simp: view_packages(1) get_work_package_Inr split: option.splits)
  then show ?thesis using assms(3) by (simp add: does_def bnd_def)
qed

lemma safe_complete:
  assumes "live s" and "va (view s) k = Some (k, pid, wid, g, ACTIVE)" and "\<not> blank k"
    and "vi (view s) (pid, wid) = Some APPROVED" and "g \<in> fst ` set (vg (view s))"
  shows "safe (complete_assignment K k) s"
  unfolding safe_does complete_assignment_def does_atomic[OF liveD(1)[OF assms(1)]] publish_assignment_def
  by (rule step_rules flow_rules assms TrueI step_package[OF assms(4)] | assumption
    | (simp add: assms require_active_def; fail) | (simp add: blank_def is_space_def; fail))+

lemma step_complete [step_rules]:
  assumes "live s" and "va (view s) k = Some (k, pid, wid, g, ACTIVE)" and "\<not> blank k"
    and "vi (view s) (pid, wid) = Some APPROVED" and "g \<in> fst ` set (vg (view s))"
    and "\<And>x t. live t \<Longrightarrow> closed k APPROVED COMPLETED ASSIGNMENT_COMPLETED (view s) (view t) \<Longrightarrow> does Q (f x) t"
  shows "does Q (bnd (complete_assignment K k) f) s"
  by (rule does_step[OF assms(1) _ safe_complete[OF assms(1-5)],
        where R = "\<lambda>_ t. closed k APPROVED COMPLETED ASSIGNMENT_COMPLETED (view s) (view t)"])
    (use assms in \<open>auto intro: keeps_intros post_mono[OF complete_post] liveD\<close>)

lemma step_duty [step_rules]:
  "wf_assignment_id w = Some k \<Longrightarrow> does Q (f k) s \<Longrightarrow> does Q (bnd (require_assignment_id w) f) s"
  by (simp add: require_assignment_id_def)

lemma duty_not_blank [simp]: "\<not> blank (duty i)"
  by (simp add: duty_def blank_def is_space_def)

text \<open>An invariant of the delivery machine: active assignments are those of registered agents.\<close>

definition manned :: "view \<Rightarrow> bool" where
  "manned v \<longleftrightarrow> (\<forall>x k pid wid g. va v x = Some (k, pid, wid, g, ACTIVE) \<longrightarrow> g \<in> fst ` set (vg v))"

lemma delivery_manned: "delivery_step v v' \<Longrightarrow> fits v \<Longrightarrow> manned v \<Longrightarrow> manned v'"
proof (induction rule: delivery_step.induct)
  case (assign v i fl g v')
  obtain k m where "(k, g, m) \<in> set (vg v)"
    and v': "v' = v\<lparr>vi := (vi v)((fst (cell i), snd (cell i)) \<mapsto> ASSIGNED),
      va := (va v)(duty i \<mapsto> (duty i, fst (cell i), snd (cell i), g, ACTIVE)), vc := (vc v)(g := vc v g + 1)\<rparr>"
    using assign.hyps(3) unfolding assigned_def by blast
  moreover from this(1) have "g \<in> fst ` set (vg v)" using assign.prems(1) unfolding fits_def by force
  ultimately show ?case using assign.prems(2) unfolding manned_def by auto
next
  case (close v i fl a b as st v')
  note less = closed_less[OF close.hyps(3) closing_status[OF close.hyps(2)]]
  show ?case using close.prems(2) less(1) less(3) unfolding manned_def put_flow_sel by metis
qed (auto simp: manned_def)

lemma service_manned: "service_reachable K s \<Longrightarrow> manned (view s)"
proof (induction rule: service_reachable.induct)
  case start
  then show ?case by (simp add: empty_view manned_def)
next
  case (call s t)
  have "fits (view s)" using service_invariant[OF call.hyps(1)] by blast
  then show ?case using service_moves[OF call.hyps] delivery_manned call.IH by metis
qed

lemma complete_does:
  assumes live: "live s" and fl: "vf (view s) i = Some fl" and ok: "flow_ok (view s) i fl" and st: "fl_stage fl = APPROVAL"
    and man: "manned (view s)"
  shows "does (ends i STAGE_COMPLETED) (complete_work K i) s"
proof -
  obtain g where g: "fl_assignment fl = Some (duty i)" "va (view s) (duty i) = Some (duty i, fst (cell i), snd (cell i), g, ACTIVE)"
    using ok st by (auto simp: flow_ok_def held_stages_def)
  have in_vg: "g \<in> fst ` set (vg (view s))" using man g(2) unfolding manned_def by blast
  show ?thesis
    unfolding complete_work_def does_atomic[OF liveD(1)[OF live]]
    by (rule step_rules live fl | assumption
      | (simp add: st fl g in_vg flow_parts[OF ok] flow_item[OF ok] guard_defs stage_of_def ends_def closed_flows; fail))+
qed

subsection \<open>Outermost calls return\<close>

lemma outer_does:
  assumes "service_reachable K s" and "does Q m (opened s)" and "\<And>x t. Q x t \<Longrightarrow> live t" and "m = atomic b"
  shows "\<exists>x t u. m s = (Inr x, t) \<and> Q x u \<and> view t = view u"
proof -
  have out: "outer s" using service_invariant[OF assms(1)] by blast
  then have tx: "in_tx (opened s)" by (simp add: outer_def)
  obtain x u where u: "m (opened s) = (Inr x, u)" "Q x u" using assms(2) unfolding does_def by blast
  then have b: "b (opened s) = (Inr x, u)" using assms(4) tx by simp
  have "sound [] u" using assms(3)[OF u(2)] by (simp add: live_def)
  then obtain c where "commit_events (Inr x) s u = (Inr x, u\<lparr>k_bus := c\<rparr>)" using commit_succeeds by blast
  then have "m s = (Inr x, u\<lparr>k_bus := c\<rparr>)"
    using out b by (simp add: assms(4) atomic_def outer_def opened_def)
  then show ?thesis using u(2) by fastforce
qed

lemma opened_live: "service_reachable K s \<Longrightarrow> live (opened s)"
  using service_invariant sound_opened[OF service_sound] by (auto simp: live_def outer_def)

lemma call_returns:
  assumes "service_reachable K s" and "stage_in s i = Some a" and "m = atomic c"
    and "\<And>fl. live (opened s) \<Longrightarrow> vf (view (opened s)) i = Some fl \<Longrightarrow> flow_ok (view (opened s)) i fl \<Longrightarrow>
      manned (view (opened s)) \<Longrightarrow> fl_stage fl = a \<Longrightarrow> does (ends i b) m (opened s)"
  shows "\<exists>w t. m s = (Inr w, t) \<and> wf_stage w = b \<and> stage_in t i = Some b"
proof -
  obtain fl where fl: "vf (view s) i = Some fl" "fl_stage fl = a" using assms(2) by (auto simp: stage_in_view stage_of_def)
  moreover from this(1) have "flow_ok (view s) i fl" using service_invariant[OF assms(1)] coherentD by blast
  moreover have "manned (view s)" by (rule service_manned[OF assms(1)])
  ultimately have "does (ends i b) m (opened s)" using assms(4) opened_live[OF assms(1)] by simp
  from outer_does[OF assms(1) this _ assms(3)] show ?thesis by (auto simp: ends_def stage_in_view)
qed

lemma release_returns:
  assumes "service_reachable K s" and "stage_in s i = Some STAGE_REVIEW"
  shows "\<exists>w1 s1 w2 s2 w3 s3. approve_work K i s = (Inr w1, s1) \<and> complete_work K i s1 = (Inr w2, s2)
    \<and> release_work K i s2 = (Inr w3, s3) \<and> wf_stage w3 = STAGE_RELEASED \<and> stage_in s3 i = Some STAGE_RELEASED"
proof -
  obtain w1 s1 where 1: "approve_work K i s = (Inr w1, s1)" "stage_in s1 i = Some APPROVAL"
    using call_returns[OF assms approve_work_def] approve_does by blast
  have r1: "service_reachable K s1" by (rule service_reachable.call[OF assms(1) service_call.approve[OF 1(1)]])
  obtain w2 s2 where 2: "complete_work K i s1 = (Inr w2, s2)" "stage_in s2 i = Some STAGE_COMPLETED"
    using call_returns[OF r1 1(2) complete_work_def] complete_does by blast
  have r2: "service_reachable K s2" by (rule service_reachable.call[OF r1 service_call.complete[OF 2(1)]])
  obtain w3 s3 where "release_work K i s2 = (Inr w3, s3)" "wf_stage w3 = STAGE_RELEASED" "stage_in s3 i = Some STAGE_RELEASED"
    using call_returns[OF r2 2(2) release_work_def] release_does by blast
  with 1(1) 2(1) show ?thesis by blast
qed

text \<open>Work that is in review can be approved, completed and released: in every reachable kernel in
  which a workflow is in review, the three calls, made one after the other, all return, and the workflow
  ends in the stage released. No guard, lookup, publication or commit can raise on the way.
\<close>

theorem reviewed_work_can_be_released:
  assumes "service_reachable K s" and "stage_in s i = Some STAGE_REVIEW"
  shows "\<exists>w1 s1 w2 s2 w3 s3. approve_work K i s = (Inr w1, s1) \<and> complete_work K i s1 = (Inr w2, s2)
    \<and> release_work K i s2 = (Inr w3, s3) \<and> wf_stage w3 = STAGE_RELEASED \<and> stage_in s3 i = Some STAGE_RELEASED"
  by (rule release_returns[OF assms])

lemma plan_returns:
  assumes "service_reachable K s" and "stage_in s i = Some INTAKE"
  shows "\<exists>w t. plan_request K i s = (Inr w, t) \<and> wf_stage w = STAGE_READY \<and> stage_in t i = Some STAGE_READY"
  by (rule call_returns[OF assms plan_request_def]) (rule plan_does)

lemma reject_returns:
  assumes "service_reachable K s" and "stage_in s i = Some STAGE_REVIEW" and "\<not> blank reason"
  shows "\<exists>w t. reject_work K i reason s = (Inr w, t) \<and> wf_stage w = EXECUTING \<and> stage_in t i = Some EXECUTING"
  by (rule call_returns[OF assms(1,2) reject_work_def]) (rule reject_does[OF _ _ _ _ assms(3)])

end
