(* ===== verification/Execution_Progress.thy ===== *)
theory Execution_Progress
  imports Delivery_Progress
begin

section \<open>Assigned work can be executed\<close>

text \<open>
  When the executor chosen for an assignment reports success, the execution of the assignment returns and
  the workflow is in review, from where it can be released.
\<close>

subsection \<open>The clock only goes on\<close>

definition since :: "nat \<Rightarrow> kernel \<Rightarrow> bool" where
  "since n s \<longleftrightarrow> n \<le> b_ticks (k_bus s)"

lemma emit_ticks: "emit_event e b = (r, b') \<Longrightarrow> b_ticks b' = b_ticks b"
  by (auto simp: emit_event_def split: option.splits sum.splits kexn.splits)

lemma publish_ticks:
  assumes "publish K et ty aid pl corr caus None b = (r, b')"
  shows "b_ticks b \<le> b_ticks b'"
proof -
  have "keeps (\<lambda>c. b_ticks b \<le> b_ticks c) (publish K et ty aid pl corr caus None)"
    unfolding publish_def Let_def
    by (intro keeps_intros) (auto simp: keeps_def tick_def emit_ticks[OF surjective_pairing])
  from keepsD[OF this assms] show ?thesis by simp
qed

lemma since_publish [keeps_intros]: "keeps (since n) (kpublish K et ty aid pl corr caus)"
  by (rule keepsI)
    (auto simp: kpublish_def on_bus_def zoom_def bnd_def ok_def since_def split: prod.splits sum.splits if_splits
      dest!: publish_ticks)

lemma since_kernel [keeps_intros]: "keeps (since n) (put_execution e)"
  by (simp add: keeps_def put_execution_def upd_def since_def)

subsection \<open>Executors\<close>

text \<open>
  What an executor that reports success does: for every run with identifiers, started earlier, it returns a
  succeeded result of that run. The deterministic executor of \<^verbatim>\<open>executor.py\<close> is one when the clock does
  not go back.
\<close>

definition delivers :: "kenv \<Rightarrow> executor \<Rightarrow> bool" where
  "delivers K x \<longleftrightarrow> (\<forall>(rc :: run_context) m n. \<not> blank (rc_execution_id rc) \<longrightarrow> \<not> blank (rc_assignment_id rc) \<longrightarrow>
     \<not> blank (rc_work_item_id rc) \<longrightarrow> \<not> blank (rc_agent_id rc) \<longrightarrow> rc_started_at rc = kclock K m \<longrightarrow> m \<le> n \<longrightarrow>
     (\<exists>r k. x_run x K rc n = (Inr (Some r), k) \<and> ex_id r = rc_execution_id rc
       \<and> ex_assignment_id r = rc_assignment_id rc \<and> ex_work_item_id r = rc_work_item_id rc
       \<and> ex_agent_id r = rc_agent_id rc \<and> ex_status r = SUCCEEDED
       \<and> \<not> blank (text_or (ex_output r) ''Execution succeeded'')))"

definition steady :: "kenv \<Rightarrow> bool" where
  "steady K \<longleftrightarrow> (\<forall>m n. m \<le> n \<longrightarrow> kclock K m \<le> kclock K n)"

lemma deterministic_delivers:
  assumes "deterministic_executor i roles caps out False msg = Inr x" and "steady K"
  shows "delivers K x"
proof -
  have x: "x_run x = deterministic_execute out False msg" and out: "\<not> blank out"
    using assms(1) by (auto simp: deterministic_executor_def validate_deterministic_def checks_Inr split: sum.splits)
  show ?thesis
    unfolding delivers_def
  proof (intro allI impI)
    fix rc :: run_context and m n
    assume ids: "\<not> blank (rc_execution_id rc)" "\<not> blank (rc_assignment_id rc)" "\<not> blank (rc_work_item_id rc)"
      "\<not> blank (rc_agent_id rc)" and t: "rc_started_at rc = kclock K m" "m \<le> n"
    let ?r = "deterministic_result out False msg rc (kclock K n)"
    have "validate_execution ?r = Inr ()"
      using ids out t assms(2)
      by (simp add: validate_execution_def deterministic_result_def checks_Inr status_contract_def steady_def)
    then have "x_run x K rc n = (Inr (Some ?r), Suc n)"
      using ids by (simp add: x deterministic_execute_def checks_Inr validate_required_string_def)
    moreover have "\<not> blank (text_or (Some out) ''Execution succeeded'')"
      using out by (auto simp: text_or_def blank_def is_space_def)
    ultimately show "\<exists>r k. x_run x K rc n = (Inr (Some r), k) \<and> ex_id r = rc_execution_id rc
       \<and> ex_assignment_id r = rc_assignment_id rc \<and> ex_work_item_id r = rc_work_item_id rc
       \<and> ex_agent_id r = rc_agent_id rc \<and> ex_status r = SUCCEEDED
       \<and> \<not> blank (text_or (ex_output r) ''Execution succeeded'')"
      by (simp add: deterministic_result_def)
  qed
qed

subsection \<open>Starting\<close>

lemma does_catch_last: "does Q m s \<Longrightarrow> does Q (catch m h) s"
  by (auto simp: does_def catch_def)

lemma does_mono: "does P m s \<Longrightarrow> (\<And>x t. P x t \<Longrightarrow> Q x t) \<Longrightarrow> does Q m s"
  by (auto simp: does_def)

lemma does_keeps: "does Q m s \<Longrightarrow> keeps P m \<Longrightarrow> P s \<Longrightarrow> does (\<lambda>x t. Q x t \<and> P t) m s"
  unfolding does_def by (metis keepsD)

lemma does_bnd: "does (\<lambda>x t. does Q (f x) t) m s \<Longrightarrow> does Q (bnd m f) s"
  by (auto simp: does_def bnd_def)

lemma step_put_execution [step_rules]:
  assumes "live s" and "\<And>t. live t \<Longrightarrow>
      view t = (view s)\<lparr>ve := (ve (view s))(ex_id e \<mapsto> (ex_id e, ex_assignment_id e, ex_status e))\<rparr> \<Longrightarrow>
      k_bus t = k_bus s \<Longrightarrow> does Q (f ()) t"
  shows "does Q (bnd (put_execution e) f) s"
proof -
  let ?t = "s\<lparr>k_executions := dset (ex_id e) e (k_executions s)\<rparr>"
  have run: "put_execution e s = (Inr (), ?t)" by (simp add: put_execution_def upd_def)
  have "live ?t" using assms(1) by (simp add: live_def in_tx_def)
  moreover have "view ?t = (view s)\<lparr>ve := (ve (view s))(ex_id e \<mapsto> (ex_id e, ex_assignment_id e, ex_status e))\<rparr>"
    by (simp add: view_def fun_eq_iff count_active_assignments_def)
  ultimately have "does Q (f ()) ?t" by (rule assms(2)) simp
  then show ?thesis using run by (simp add: does_def bnd_def)
qed

lemma step_mark_running [step_rules]:
  assumes "live s" and "ex_status e = EXECUTION_CREATED"
    and "\<And>t m. live t \<Longrightarrow> view t = view s \<Longrightarrow> since m t \<Longrightarrow>
      does Q (f (e\<lparr>ex_status := EXECUTION_RUNNING, ex_started_at := Some (kclock K m)\<rparr>)) t"
  shows "does Q (bnd (mark_running K e) f) s"
proof -
  let ?m = "b_ticks (k_bus s)"
  let ?t = "s\<lparr>k_bus := (k_bus s)\<lparr>b_ticks := Suc ?m\<rparr>\<rparr>"
  let ?e = "e\<lparr>ex_status := EXECUTION_RUNNING, ex_started_at := Some (kclock K ?m)\<rparr>"
  have run: "mark_running K e s = (Inr ?e, ?t)"
    using assms(2) by (simp add: mark_running_def bnd_of_sum validate_execution_status_transition_def check_def
        bnd_utc_now ok_def)
  have "utc_now K s = (Inr (kclock K ?m), ?t)" by (simp add: now_Inr)
  then have "live ?t" using assms(1) by (auto simp: live_def dest: keepsD[OF keeps_now])
  then have "does Q (f ?e) ?t" by (rule assms(3)) (simp_all add: since_def)
  then show ?thesis using run by (simp add: does_def bnd_def)
qed

definition quotable :: "exec_context option \<Rightarrow> bool" where
  "quotable c \<longleftrightarrow> (\<forall>k x. context_text c k = Some x \<longrightarrow> \<not> blank x)"

lemma step_publish_execution [step_rules]:
  assumes "live s" and "\<not> blank (ex_id e)" and "quotable c" and "is_mapping pl" "freezable pl" and "since m s"
    and "\<And>t. live t \<Longrightarrow> view t = view s \<Longrightarrow> since m t \<Longrightarrow> does Q (f ()) t"
  shows "does Q (bnd (publish_execution K et e pl c) f) s"
proof -
  have "does (\<lambda>_ t. live t \<and> view t = view s) (bnd (publish_execution K et e pl c) (\<lambda>_. ok ())) s"
    unfolding publish_execution_def
    by (rule step_publish[OF assms(1)]) (use assms(2-5) in \<open>auto simp: quotable_def blank_def is_space_def does_pure\<close>)
  then have "does (\<lambda>_ t. live t \<and> view t = view s) (publish_execution K et e pl c) s"
    by (auto simp: does_def bnd_def ok_def split: prod.splits sum.splits)
  then have "does (\<lambda>_ t. (live t \<and> view t = view s) \<and> since m t) (publish_execution K et e pl c) s"
    by (rule does_keeps) (use assms(6) in \<open>auto simp: publish_execution_def intro: keeps_intros\<close>)
  then show ?thesis by (intro does_bnd, elim does_mono) (use assms(7) in auto)
qed

lemma start_does:
  assumes "live s" and "vi (view s) (wa_package_id a, wa_work_item_id a) = Some b" and "RUNNING \<in> set (lifecycle_transitions b)"
    and "ex_status e = EXECUTION_CREATED" and "\<not> blank (ex_id e)" and "quotable c"
  shows "does (\<lambda>e' t. live t \<and> (\<exists>m. e' = e\<lparr>ex_status := EXECUTION_RUNNING, ex_started_at := Some (kclock K m)\<rparr> \<and> since m t)
    \<and> view t = outcome (wa_package_id a, wa_work_item_id a) RUNNING (ex_id e) (ex_assignment_id e) EXECUTION_RUNNING (view s))
    (start_execution K a w p e c) s"
  unfolding start_execution_def
  by (rule step_rules flow_rules does_catch_last assms | assumption | (simp add: assms since_def; fail)
    | (auto simp: outcome_def; fail))+

subsection \<open>Running and concluding\<close>

lemma step_run:
  assumes "live s" and "delivers K x" and "rc_started_at rc = kclock K m" and "since m s"
    and "\<not> blank (rc_execution_id rc)" "\<not> blank (rc_assignment_id rc)" "\<not> blank (rc_work_item_id rc)" "\<not> blank (rc_agent_id rc)"
    and "\<And>e t. live t \<Longrightarrow> view t = view s \<Longrightarrow> ex_id e = rc_execution_id rc \<Longrightarrow> ex_assignment_id e = rc_assignment_id rc \<Longrightarrow>
      ex_work_item_id e = rc_work_item_id rc \<Longrightarrow> ex_agent_id e = rc_agent_id rc \<Longrightarrow> ex_status e = SUCCEEDED \<Longrightarrow>
      \<not> blank (text_or (ex_output e) ''Execution succeeded'') \<Longrightarrow> does Q (f (Some e)) t"
  shows "does Q (bnd (run_executor K x rc) f) s"
proof -
  obtain r k where r: "x_run x K rc (b_ticks (k_bus s)) = (Inr (Some r), k)" "ex_id r = rc_execution_id rc"
    "ex_assignment_id r = rc_assignment_id rc" "ex_work_item_id r = rc_work_item_id rc" "ex_agent_id r = rc_agent_id rc"
    "ex_status r = SUCCEEDED" "\<not> blank (text_or (ex_output r) ''Execution succeeded'')"
    using assms(2-8) unfolding delivers_def since_def by blast
  let ?t = "s\<lparr>k_bus := (k_bus s)\<lparr>b_ticks := k\<rparr>\<rparr>"
  have run: "run_executor K x rc s = (Inr (Some r), ?t)" using r(1) by (simp add: run_executor_def zoom_def)
  have "live ?t" using keepsD[OF keeps_run run] assms(1) by (simp add: live_def in_tx_def)
  then have "does Q (f (Some r)) ?t" by (rule assms(9)) (simp_all add: r)
  then show ?thesis using run by (simp add: does_def bnd_def)
qed

lemma step_sum: "r = Inr y \<Longrightarrow> does Q (j y) s \<Longrightarrow> does Q (bnd (of_sum r) j) s"
  by (simp add: does_pure)

lemma step_mark_succeeded [step_rules]:
  assumes "live s" and "ex_status e = EXECUTION_RUNNING" and "\<not> blank out"
    and "\<And>t tm. live t \<Longrightarrow> view t = view s \<Longrightarrow>
      does Q (f (e\<lparr>ex_status := SUCCEEDED, ex_output := Some out, ex_error := None, ex_completed_at := Some tm\<rparr>)) t"
  shows "does Q (bnd (mark_succeeded K out e) f) s"
  unfolding mark_succeeded_def bnd_assoc
  by (rule step_pure(2))
    (use assms in \<open>auto simp: validate_execution_status_transition_def checks_Inr bnd_assoc intro: step_now\<close>)

lemma conclude_does:
  assumes live: "live s" and x: "delivers K x" and rc: "rc_started_at rc = kclock K m" "since m s"
    and ids: "\<not> blank (rc_execution_id rc)" "\<not> blank (rc_assignment_id rc)" "\<not> blank (rc_work_item_id rc)" "\<not> blank (rc_agent_id rc)"
    and e: "ex_id e = rc_execution_id rc" "ex_assignment_id e = rc_assignment_id rc" "ex_work_item_id e = rc_work_item_id rc"
      "ex_agent_id e = rc_agent_id rc" "ex_status e = EXECUTION_RUNNING"
    and item: "vi (view s) (wa_package_id a, wa_work_item_id a) = Some RUNNING"
  shows "does (\<lambda>e' t. live t \<and> ex_id e' = ex_id e \<and> ex_status e' = SUCCEEDED) (conclude_execution K x rc a e c) s"
  unfolding conclude_execution_def
  by (rule step_run[OF live x rc ids] step_sum does_if step_rules flow_rules assms | assumption
    | (simp add: validate_provider_result_def e item; fail))+

subsection \<open>Executing\<close>

text \<open>What the operations of the workflow service leave alone.\<close>

definition same_parts :: "kernel \<Rightarrow> kernel \<Rightarrow> bool" where
  "same_parts s t \<longleftrightarrow> k_executors t = k_executors s \<and> k_assignments t = k_assignments s \<and> k_requests t = k_requests s
     \<and> k_agents t = k_agents s \<and> k_executions t = k_executions s"

lemma same_parts_bus [simp]: "same_parts s (t\<lparr>k_bus := b\<rparr>) = same_parts s t" "same_parts s (t\<lparr>k_workflows := d\<rparr>) = same_parts s t"
  "same_parts s (t\<lparr>k_packages := e\<rparr>) = same_parts s t"
  by (simp_all add: same_parts_def)

lemma same_publish [keeps_intros]: "keeps (same_parts s) (kpublish K et ty aid pl corr caus)"
  by (rule keepsI)
    (auto simp: kpublish_def on_bus_def zoom_def bnd_def ok_def split: prod.splits sum.splits if_splits)

lemma same_now [keeps_intros]: "keeps (same_parts s) (utc_now K)"
  by (rule keepsI) (auto simp: now_Inr)

lemma same_move [keeps_intros]: "keeps (same_parts s) (move_to K i b)"
  unfolding move_to_def put_workflow_def by (intro keeps_intros keeps_upd) simp

lemma same_wpublish [keeps_intros]: "keeps (same_parts s) (wpublish K i et pl)"
  by (rule keeps_eventing[rotated], simp add: wpublish_def, simp add: wpublish_def) (intro keeps_intros)

text \<open>The executor that the service picks for the assignment of a workflow reports success.\<close>

definition served :: "kenv \<Rightarrow> string \<Rightarrow> kernel \<Rightarrow> bool" where
  "served K aid s \<longleftrightarrow> (\<exists>a x. map_of (k_assignments s) aid = Some a
     \<and> List.find (compatible a) (dvals (k_executors s)) = Some x \<and> delivers K x)"

lemma same_served: "same_parts s t \<Longrightarrow> served K aid t = served K aid s" "same_parts s t \<Longrightarrow> requested w t = requested w s"
  by (simp_all add: served_def same_parts_def requested_def)

lemma step_executor:
  assumes "served K aid s" and "map_of (k_assignments s) aid = Some a" and "\<And>x. delivers K x \<Longrightarrow> does Q (f x) s"
  shows "does Q (bnd (select_executor a) f) s"
proof -
  obtain x where x: "List.find (compatible a) (dvals (k_executors s)) = Some x" "delivers K x"
    using assms(1,2) by (auto simp: served_def)
  then show ?thesis using assms(3)[OF x(2)] by (simp add: select_executor_def bnd_assoc does_pure)
qed

lemma step_start:
  assumes "live s" and "vi (view s) (wa_package_id a, wa_work_item_id a) = Some b" and "RUNNING \<in> set (lifecycle_transitions b)"
    and "ex_status e = EXECUTION_CREATED" and "\<not> blank (ex_id e)" and "quotable c"
    and "\<And>t m. live t \<Longrightarrow> since m t \<Longrightarrow>
      view t = outcome (wa_package_id a, wa_work_item_id a) RUNNING (ex_id e) (ex_assignment_id e) EXECUTION_RUNNING (view s) \<Longrightarrow>
      does Q (f (e\<lparr>ex_status := EXECUTION_RUNNING, ex_started_at := Some (kclock K m)\<rparr>)) t"
  shows "does Q (bnd (start_execution K a w p e c) f) s"
  by (rule does_bnd, rule does_mono[OF start_does[OF assms(1-6)]]) (use assms(7) in blast)

lemma step_conclude:
  assumes "live s" and "delivers K x" and "rc_started_at rc = kclock K m" and "since m s"
    and "\<not> blank (rc_execution_id rc)" "\<not> blank (rc_assignment_id rc)" "\<not> blank (rc_work_item_id rc)" "\<not> blank (rc_agent_id rc)"
    and "ex_id e = rc_execution_id rc" "ex_assignment_id e = rc_assignment_id rc" "ex_work_item_id e = rc_work_item_id rc"
      "ex_agent_id e = rc_agent_id rc" "ex_status e = EXECUTION_RUNNING"
    and "vi (view s) (wa_package_id a, wa_work_item_id a) = Some RUNNING"
    and "\<And>e' t. live t \<Longrightarrow> ex_id e' = ex_id e \<Longrightarrow> does Q (f e') t"
  shows "does Q (bnd (catch (conclude_execution K x rc a e c) h) f) s"
  by (rule does_catch, rule does_mono[OF conclude_does[OF assms(1-14)]]) (use assms(15) in blast)

lemma since_zero: "since 0 s"
  by (simp add: since_def)

lemmas step_package_of = step_package[where pid = "wa_package_id a" and wid = "wa_work_item_id a" and pid' = "wa_package_id a"
    for a :: assignment, OF _ refl]

lemma execute_safe:
  assumes live: "live s" and va: "va (view s) aid = Some (k, pid, wid, g, ACTIVE)" and nb: "\<not> blank aid" "\<not> blank k" "\<not> blank wid" "\<not> blank i"
    and item: "vi (view s) (pid, wid) = Some required" and run: "RUNNING \<in> set (lifecycle_transitions required)"
    and vg: "g \<in> fst ` set (vg (view s))" and served: "served K aid s" and fresh: "ve (view s) i = None" and c: "quotable c"
  shows "safe (execute K i aid c required) s"
proof -
  have dup: "i \<notin> set (dkeys (k_executions s))" using fresh by (simp add: view_execution map_of_eq_None_iff)
  show ?thesis
    unfolding safe_does execute_def Let_def
    by (rule step_executor[OF served] step_start[OF live] step_conclude step_rules step_gets does_ok
          step_package_of TrueI dup live | assumption
      | (simp add: assms checks_Inr require_active_def validate_execution_def status_contract_def; fail) | rule since_zero)+
qed

lemma context_run:
  assumes "live s" and "requested w s" and "vf (view s) (wf_id w) = Some fl"
  shows "\<exists>c. execution_context w s = (Inr c, s) \<and> quotable (Some c)"
proof -
  obtain c where c: "correlation_id w s = (Inr c, s)" "\<not> blank c" using correlation_run[OF assms(2)] by blast
  obtain l where l: "last_event_id w s = (Inr l, s)" "\<forall>x. l = Some x \<longrightarrow> \<not> blank x" using last_event_run[OF assms] by blast
  let ?c = "[(''correlation_id'', JStr c), (''causation_id'', case l of None \<Rightarrow> JNull | Some x \<Rightarrow> JStr x)]"
  have "execution_context w s = (Inr ?c, s)"
    by (simp add: execution_context_def bnd_Inr[where m = "correlation_id _", OF c(1)]
        bnd_Inr[where m = "last_event_id _", OF l(1)] ok_def)
  moreover have "quotable (Some ?c)"
    using c(2) l(2) by (auto simp: quotable_def context_text_def split: option.splits if_splits)
  ultimately show ?thesis by blast
qed

lemma step_context:
  assumes "live s" and "requested w s" and "vf (view s) (wf_id w) = Some fl"
    and "\<And>c. quotable (Some c) \<Longrightarrow> does Q (f c) s"
  shows "does Q (bnd (execution_context w) f) s"
  using context_run[OF assms(1-3)] assms(4) by (auto simp: does_def bnd_def)

text \<open>Moving on with the other parts unchanged.\<close>

lemma step_same:
  assumes "live s" and "keeps (sound []) m" and "keeps (same_parts s) m" and "safe m s"
    and "\<And>Q. (\<And>x t. in_tx t \<Longrightarrow> R t \<Longrightarrow> Q x t) \<Longrightarrow> post m s Q"
    and "\<And>x t. live t \<Longrightarrow> R t \<Longrightarrow> same_parts s t \<Longrightarrow> does Q (f x) t"
  shows "does Q (bnd m f) s"
proof -
  obtain x t where run: "m s = (Inr x, t)" using assms(4) unfolding safe_def by blast
  have "in_tx t \<and> R t" by (rule postD[OF assms(5) run]) simp
  moreover have "same_parts s t" by (rule keepsD[OF assms(3) run]) (simp add: same_parts_def)
  ultimately have "does Q (f x) t" using assms(1,2,6) run unfolding live_def by (metis keepsD)
  then show ?thesis using run by (auto simp: does_def bnd_def)
qed

lemma step_move_same:
  assumes "live s" and "vf (view s) i = Some fl" and "b \<in> set (stage_transitions (fl_stage fl))"
    and "\<And>t. live t \<Longrightarrow> view t = put_flow i (fl\<lparr>fl_stage := b\<rparr>) (view s) \<Longrightarrow> same_parts s t \<Longrightarrow> does Q (f ()) t"
  shows "does Q (bnd (move_to K i b) f) s"
  by (rule step_same[OF assms(1) _ _ safe_move[OF assms(1-3)], where R = "\<lambda>t. view t = put_flow i (fl\<lparr>fl_stage := b\<rparr>) (view s)"])
    (use assms in \<open>auto intro: keeps_intros post_move liveD\<close>)

lemma step_wpublish_same:
  assumes "live s" and "vf (view s) i = Some fl" and "fl_id fl = i" and "list_all (\<lambda>x. freezable (snd x)) pl"
    and "\<And>t. live t \<Longrightarrow> view t = view s \<Longrightarrow> same_parts s t \<Longrightarrow> does Q (f ()) t"
  shows "does Q (bnd (wpublish K i et pl) f) s"
  by (rule step_same[OF assms(1) _ _ safe_wpublish[OF assms(1-4)], where R = "\<lambda>t. view t = view s"])
    (use assms in \<open>auto intro: keeps_intros post_wpublish liveD\<close>)

lemma step_execute:
  assumes "live s" and "va (view s) aid = Some (aid, pid, wid, g, ACTIVE)" and "\<not> blank aid" "\<not> blank wid" "\<not> blank i"
    and "vi (view s) (pid, wid) = Some b" and "g \<in> fst ` set (vg (view s))" and "served K aid s"
    and "ve (view s) i = None" and "quotable c"
    and "\<And>e t. live t \<Longrightarrow> ex_id e = i \<Longrightarrow> view t = outcome (pid, wid) REVIEW i aid SUCCEEDED (view s) \<Longrightarrow> does Q (f e) t"
  shows "b = ASSIGNED \<Longrightarrow> does Q (bnd (execute_assignment K i aid c) f) s"
    and "b = REJECTED \<Longrightarrow> does Q (bnd (execute_correction K i aid c) f) s"
proof -
  have has: "has_run i aid b REVIEW SUCCEEDED (view s) v \<Longrightarrow> v = outcome (pid, wid) REVIEW i aid SUCCEEDED (view s)" for v
    using assms(2) by (auto simp: has_run_def)
  have safe: "RUNNING \<in> set (lifecycle_transitions b) \<Longrightarrow> safe (execute K i aid c b) s"
    using execute_safe[OF assms(1,2,3,3,4,5,6) _ assms(7-10)] by blast
  have runs: "b = ASSIGNED \<Longrightarrow> safe (execute_assignment K i aid c) s" "b = REJECTED \<Longrightarrow> safe (execute_correction K i aid c) s"
    using safe liveD(1)[OF assms(1)] by (auto simp: execute_assignment_def execute_correction_def safe_def)
  let ?R = "\<lambda>e t. ex_id e = i \<and> has_run i aid b REVIEW SUCCEEDED (view s) (view t)"
  show "b = ASSIGNED \<Longrightarrow> does Q (bnd (execute_assignment K i aid c) f) s"
    by (rule does_step[OF assms(1) _ runs(1), where R = ?R])
      (use has assms(1,11) in \<open>auto intro: keeps_intros post_execute[OF liveD(1)]\<close>)
  show "b = REJECTED \<Longrightarrow> does Q (bnd (execute_correction K i aid c) f) s"
    by (rule does_step[OF assms(1) _ runs(2), where R = ?R])
      (use has assms(1,11) in \<open>auto intro: keeps_intros post_correct[OF liveD(1)]\<close>)
qed

lemma does_last: "does Q (bnd m ok) s \<Longrightarrow> does Q m s"
  by (auto simp: does_def bnd_def ok_def split: prod.splits sum.splits)

lemma does_run: "m s = (Inr x, t) \<Longrightarrow> does Q (f x) t \<Longrightarrow> does Q (bnd m f) s"
  by (auto simp: does_def bnd_def)

lemma next_id: "\<not> blank eid \<Longrightarrow> next_execution_id w (Some eid) = eid"
  by (auto simp: next_execution_id_def text_or_def blank_def)

lemma execute_does:
  assumes live: "live s" and fl: "vf (view s) i = Some fl" and ok: "flow_ok (view s) i fl" and man: "manned (view s)"
    and st: "fl_stage fl = STAGE_ASSIGNED \<or> fl_stage fl = EXECUTING"
    and served: "served K (duty i) s" and eid: "\<not> blank eid" "ve (view s) eid = None"
  shows "does (ends i STAGE_REVIEW) (execute_work K i (Some eid)) s"
proof -
  obtain g where g: "fl_assignment fl = Some (duty i)" "va (view s) (duty i) = Some (duty i, fst (cell i), snd (cell i), g, ACTIVE)"
    using ok st by (auto simp: flow_ok_def held_stages_def)
  have vg: "g \<in> fst ` set (vg (view s))" using man g(2) unfolding manned_def by blast
  let ?b = "if fl_stage fl = STAGE_ASSIGNED then ASSIGNED else REJECTED"
  have item: "vi (view s) (cell i) = Some ?b" using flow_item[OF ok] st by auto
  obtain w where w: "map_of (k_workflows s) i = Some w" "flow_view w = fl" using fl by (auto simp: view_flow)
  have wid: "wf_id w = i" "wf_package_id w = fst (cell i)" "wf_item_id w = snd (cell i)" "wf_stage w = fl_stage fl"
    "wf_assignment_id w = Some (duty i)" using w(2) flow_parts[OF ok] g(1) by auto
  have req: "requested w s" by (rule requestedI[OF live w(1) wid(1)])
  have blank: "\<not> blank (snd (cell i))" by (simp add: cell_def blank_def is_space_def)
  have get: "get_workflow i s = (Inr w, s)" using live_workflow(1)[OF live w(1)] w(1) by (simp add: get_workflow_Inr)
  have parts: "fl_id fl = i" "(fst (cell i), snd (cell i)) = cell i" using flow_parts[OF ok] by simp_all
  text \<open>From the stage \<open>EXECUTING\<close> on, where both ways meet.\<close>
  have go: "does (ends i STAGE_REVIEW)
    (bnd (wpublish K i ''SOFTWARE_EXECUTION_STARTED'' [(''execution_id'', JStr eid)]) (\<lambda>_.
     bnd (require_assignment_id w) (\<lambda>aid.
     bnd (get_work_item (wf_package_id w) (wf_item_id w)) (\<lambda>item.
     bnd (catch
       (bnd (execution_context w) (\<lambda>c.
        if wi_state item = REJECTED then execute_correction K eid aid (Some c)
        else execute_assignment K eid aid (Some c)))
       (note_failed_execution K i eid)) (\<lambda>e.
     bnd (put_workflow i (\<lambda>w. w\<lparr>wf_execution_ids := wf_execution_ids w @ [ex_id e], wf_failure_reason := None\<rparr>)) (\<lambda>_.
     bnd (move_to K i STAGE_REVIEW) (\<lambda>_.
     bnd (wpublish K i ''SOFTWARE_EXECUTION_SUCCEEDED'' [(''execution_id'', JStr (ex_id e))]) (\<lambda>_.
     bnd (wpublish K i ''SOFTWARE_REVIEW_SUBMITTED'' [(''execution_id'', JStr (ex_id e))]) (\<lambda>_.
     get_workflow i))))))))) t"
    if t: "live t" "view t = put_flow i (fl\<lparr>fl_stage := EXECUTING\<rparr>) (view s)" "same_parts s t" for t
  proof -
    have after: "requested w u" "served K (duty i) u" if "same_parts t u" for u
      using req served t(3) that by (auto simp: same_served[OF that] same_served[OF t(3)])
    show ?thesis
      by (rule step_wpublish_same step_context does_if does_last[OF step_execute(1)] does_last[OF step_execute(2)]
            step_rules flow_rules t(1)
            step_put[where F = "\<lambda>fl. fl\<lparr>fl_executions := fl_executions fl @ [eid]\<rparr>"] after | assumption
        | (simp add: t(2) wid parts item g vg blank eid flow_view_def ends_def stage_of_def outcome_def split: if_splits; fail))+
  qed
  have same: "view s = put_flow i (fl\<lparr>fl_stage := EXECUTING\<rparr>) (view s)" if "fl_stage fl = EXECUTING"
  proof -
    have "fl\<lparr>fl_stage := EXECUTING\<rparr> = fl" using that by (cases fl) simp
    then show ?thesis using fl by (simp add: put_flow_def fun_upd_idem)
  qed
  have refl: "same_parts s s" by (simp add: same_parts_def)
  show ?thesis
    unfolding execute_work_def does_atomic[OF liveD(1)[OF live]] Let_def
  proof (rule does_run[where m = "get_workflow i", OF get], unfold next_id[OF eid(1)], intro step_pure does_if(2), goal_cases)
    case 1
    show ?case using st wid(4) by simp
  next
    case 2
    show ?case using eid(1) by simp
  next
    case 3
    then have "EXECUTING \<in> set (stage_transitions (fl_stage fl))" using wid(4) by simp
    then show ?case by (rule step_move_same[OF live fl]) (rule go)
  next
    case 4
    then have "fl_stage fl = EXECUTING" using st wid(4) by simp
    then show ?case by (intro does_ok(2) go live same refl)
  qed
qed

lemma execute_returns:
  assumes "service_reachable K s" and "stage_in s i \<in> {Some STAGE_ASSIGNED, Some EXECUTING}"
    and "map_of (k_workflows s) i = Some w" and "wf_assignment_id w = Some k" and "map_of (k_assignments s) k = Some a"
    and "select_executor a s = (Inr x, s)" and "delivers K x"
    and "\<not> blank eid" and "eid \<notin> set (dkeys (k_executions s))"
  shows "\<exists>v t. execute_work K i (Some eid) s = (Inr v, t) \<and> wf_stage v = STAGE_REVIEW \<and> stage_in t i = Some STAGE_REVIEW"
proof -
  have co: "coherent (view s)" using service_invariant[OF assms(1)] by blast
  obtain b where b: "stage_in s i = Some b" "b = STAGE_ASSIGNED \<or> b = EXECUTING" using assms(2) by blast
  have "k = duty i"
    using workflow_ok[OF co assms(3)] assms(2-4) by (auto simp: flow_ok_def held_stages_def stage_in_def)
  moreover have "List.find (compatible a) (dvals (k_executors s)) = Some x"
    using assms(6) by (auto simp: select_executor_def bnd_gets ok_def fail_def split: option.splits)
  ultimately have "served K (duty i) s" using assms(5,7) by (auto simp: served_def)
  then have served: "served K (duty i) (opened s)" by (simp add: served_def opened_def)
  have fresh: "ve (view (opened s)) eid = None" using assms(9) by (simp add: view_execution map_of_eq_None_iff)
  show ?thesis
    by (rule call_returns[OF assms(1) b(1) execute_work_def]) (rule execute_does, use b(2) served fresh assms(8) in auto)
qed

text \<open>Assigned work can be executed: in every reachable kernel in which a workflow is assigned, or was
  rejected and is to be corrected, if the executor that the service picks for its assignment reports
  success, then executing the work under a fresh identifier returns, and the workflow is in review.
\<close>

theorem assigned_work_can_be_executed:
  assumes "service_reachable K s" and "stage_in s i \<in> {Some STAGE_ASSIGNED, Some EXECUTING}"
    and "map_of (k_workflows s) i = Some w" and "wf_assignment_id w = Some k" and "map_of (k_assignments s) k = Some a"
    and "select_executor a s = (Inr x, s)" and "delivers K x"
    and "\<not> blank eid" and "eid \<notin> set (dkeys (k_executions s))"
  shows "\<exists>v t. execute_work K i (Some eid) s = (Inr v, t) \<and> wf_stage v = STAGE_REVIEW \<and> stage_in t i = Some STAGE_REVIEW"
  by (rule execute_returns[OF assms])

subsection \<open>Assigning\<close>

text \<open>Another invariant of the delivery machine: whose item and which stage an assignment belongs to.\<close>

definition owned :: "view \<Rightarrow> bool" where
  "owned v \<longleftrightarrow> (\<forall>x k pid wid g st. va v x = Some (k, pid, wid, g, st) \<longrightarrow>
     (\<exists>i fl. x = duty i \<and> (pid, wid) = cell i \<and> vf v i = Some fl \<and> fl_stage fl \<notin> {INTAKE, STAGE_READY}))"

lemma ownedD:
  assumes "owned v" and "vf v i = Some fl" and "fl_stage fl \<in> {INTAKE, STAGE_READY}"
  shows "va v (duty i) = None" and "va v x \<noteq> Some (k, fst (cell i), snd (cell i), g, st)"
proof -
  show "va v (duty i) = None"
    using assms unfolding owned_def by (cases "va v (duty i)") fastforce+
  show "va v x \<noteq> Some (k, fst (cell i), snd (cell i), g, st)"
    using assms unfolding owned_def by fastforce
qed

lemma owned_put:
  assumes "owned v" and "\<And>x. x \<noteq> duty i \<Longrightarrow> va v' x = va v x" and "\<And>j. j \<noteq> i \<Longrightarrow> vf v' j = vf v j"
    and "va v' (duty i) = None \<or> (\<exists>k g st fl. va v' (duty i) = Some (k, fst (cell i), snd (cell i), g, st)
      \<and> vf v' i = Some fl \<and> fl_stage fl \<notin> {INTAKE, STAGE_READY})"
  shows "owned v'"
  unfolding owned_def
proof (intro allI impI)
  fix x k pid wid g st
  assume x: "va v' x = Some (k, pid, wid, g, st)"
  show "\<exists>j fl. x = duty j \<and> (pid, wid) = cell j \<and> vf v' j = Some fl \<and> fl_stage fl \<notin> {INTAKE, STAGE_READY}"
  proof (cases "x = duty i")
    case True
    then show ?thesis using assms(4) x by (auto simp: prod_eq_iff)
  next
    case False
    then have "va v x = Some (k, pid, wid, g, st)" using assms(2) x by simp
    then obtain j fl where "x = duty j" "(pid, wid) = cell j" "vf v j = Some fl" "fl_stage fl \<notin> {INTAKE, STAGE_READY}"
      using assms(1) unfolding owned_def by blast
    then show ?thesis using assms(3)[of j] False by metis
  qed
qed

lemma owned_at:
  assumes "owned v" and "vf v i = Some fl"
  shows "va v (duty i) = None \<or> (\<exists>k g st. va v (duty i) = Some (k, fst (cell i), snd (cell i), g, st)
    \<and> fl_stage fl \<notin> {INTAKE, STAGE_READY})"
proof (cases "va v (duty i)")
  case (Some y)
  obtain k pid wid g st where "y = (k, pid, wid, g, st)" by (cases y)
  moreover obtain j fl' where "duty i = duty j" "(pid, wid) = cell j" "vf v j = Some fl'" "fl_stage fl' \<notin> {INTAKE, STAGE_READY}"
    using assms(1) Some calculation unfolding owned_def by blast
  ultimately show ?thesis using assms(2) Some by (auto simp: prod_eq_iff)
qed simp

lemma owned_none: "owned v \<Longrightarrow> vf v i = None \<Longrightarrow> va v (duty i) = None"
  unfolding owned_def by (cases "va v (duty i)") (auto, metis duty_eq option.distinct(1))

lemma delivery_owned: "delivery_step v v' \<Longrightarrow> owned v \<Longrightarrow> owned v'"
proof (induction rule: delivery_step.induct)
  case (register g v m)
  then show ?case by (simp add: owned_def)
next
  case (submit v i)
  show ?case by (rule owned_put[OF submit.prems, of i]) (use owned_none[OF submit.prems submit.hyps(1)] in simp_all)
next
  case (move v i fl a b st)
  show ?case
    by (rule owned_put[OF move.prems, of i])
      (use owned_at[OF move.prems move.hyps(1)] move.hyps(3) in \<open>auto simp: plain_moves_def\<close>)
next
  case (assign v i fl g v')
  show ?case
    by (rule owned_put[OF assign.prems, of i]) (use assign.hyps(3) in \<open>auto simp: assigned_def\<close>)
next
  case (close v i fl a b as st v')
  show ?case
    by (rule owned_put[OF close.prems, of i])
      (use owned_at[OF close.prems close.hyps(1)] close.hyps(2,3) in \<open>auto simp: closed_def closing_moves_def\<close>)
next
  case (run v i fl x a b es st)
  show ?case
    by (rule owned_put[OF run.prems, of i])
      (use owned_at[OF run.prems run.hyps(1)] run.hyps(4,5) in \<open>auto simp: run_to_def run_from_def\<close>)
qed

lemma service_owned: "service_reachable K s \<Longrightarrow> owned (view s)"
proof (induction rule: service_reachable.induct)
  case start
  then show ?case by (simp add: empty_view owned_def)
next
  case (call s t)
  then show ?case using service_moves[OF call.hyps] delivery_owned by metis
qed

end
