(* ===== verification/Assignment_Progress.thy ===== *)
theory Assignment_Progress
  imports Execution_Progress
begin

section \<open>Planned work can be assigned, and submitted work delivered\<close>

text \<open>
  When the selection finds an agent, the assignment of a ready workflow returns. With the other progress
  theorems, a submitted request can be brought all the way to its release.
\<close>

subsection \<open>What the selection returns\<close>

lemma select_facts:
  assumes "select_agent role caps s = (Inr sl, t)"
  shows "sl_agent sl \<in> set (list_agents s)" and "ag_state (sl_agent sl) = AVAILABLE"
    and "\<not> blank (sl_reason sl)" and "list_all (\<lambda>c. \<not> blank c) caps" and "distinct caps"
proof -
  obtain k where "(k, sl_agent sl) \<in> set (ranked role caps s)" using postD[OF select_agent_least assms] by blast
  then show "sl_agent sl \<in> set (list_agents s)" "ag_state (sl_agent sl) = AVAILABLE"
    unfolding ranked_mem by (metis nth_mem)+
  have v: "validate_required_capabilities caps = Inr ()"
    using assms by (cases "validate_required_capabilities caps") (auto simp: select_agent_def bnd_of_sum)
  then show "list_all (\<lambda>c. \<not> blank c) caps" "distinct caps"
    by (auto simp: validate_required_capabilities_def checks_Inr list_all_iff)
  show "\<not> blank (sl_reason sl)"
    using assms v
    by (auto simp: select_agent_def bnd_of_sum bnd_gets bnd_require ok_def blank_def is_space_def Let_def
        split: if_splits prod.splits)
qed

lemma filed_here:
  assumes "live s" and "fits (view s)" and "a \<in> set (list_agents s)"
  shows "map_of (k_agents s) (ag_id a) = Some a" and "\<not> blank (ag_id a)" and "ag_id a \<in> fst ` set (vg (view s))"
proof -
  obtain k where k: "(k, a) \<in> set (k_agents s)" using assms(3) by (auto simp: list_agents_def)
  have "k = ag_id a \<and> validate_agent a = Inr ()"
    using assms(1) k by (auto simp: live_def sound_def agents_filed_def)
  then have a: "(ag_id a, a) \<in> set (k_agents s)" "\<not> blank (ag_id a)" using k by (auto simp: validate_agent_def checks_Inr)
  have "distinct (map fst (vg (view s)))" using assms(2) by (simp add: fits_def)
  then have "distinct (dkeys (k_agents s))" by (simp add: view_def comp_def case_prod_beta)
  then show "map_of (k_agents s) (ag_id a) = Some a" using a(1) by simp
  show "\<not> blank (ag_id a)" by (rule a(2))
  show "ag_id a \<in> fst ` set (vg (view s))" using a(1) by (force simp: view_def)
qed

lemma no_active:
  assumes "live s" and "\<And>x k g. va (view s) x \<noteq> Some (k, pid, wid, g, ACTIVE)"
  shows "\<not> list_ex (\<lambda>a. wa_package_id a = pid \<and> wa_work_item_id a = wid \<and> wa_status a = ACTIVE) (dvals (k_assignments s))"
proof
  assume "list_ex (\<lambda>a. wa_package_id a = pid \<and> wa_work_item_id a = wid \<and> wa_status a = ACTIVE) (dvals (k_assignments s))"
  then obtain x a where a: "(x, a) \<in> set (k_assignments s)" "wa_package_id a = pid" "wa_work_item_id a = wid" "wa_status a = ACTIVE"
    by (auto simp: list_ex_iff)
  have "distinct (dkeys (k_assignments s))" using assms(1) sound_distinct[of "[]" s] by (simp add: live_def)
  then have "map_of (k_assignments s) x = Some a" using a(1) by simp
  then show False using assms(2)[of x "wa_id a" "wa_agent_id a"] a(2-) by (simp add: view_assignment assignment_view_def)
qed

subsection \<open>Steps that leave the other parts alone\<close>

lemma same_mark [keeps_intros]: "keeps (same_parts s) (mark_updated K pid)"
  unfolding mark_updated_def put_package_def by (intro keeps_intros keeps_upd) simp

lemma same_puts [keeps_intros]: "keeps (same_parts s) (put_item pid wid f)"
  unfolding put_item_def put_package_def by (intro keeps_upd) simp

lemma keeps_atomic_parts:
  assumes "\<And>t b. P (t\<lparr>k_bus := b\<rparr>) = P t" and "keeps P m"
  shows "keeps P (atomic m)"
proof (rule keepsI)
  fix s r t
  assume s: "P s" and run: "atomic m s = (r, t)"
  have undone: "P (rolled_back s u)" for u using s assms(1) by (simp add: rolled_back_def)
  have done_with: "P v" if "commit_events r' s u = (r'', v)" "P u" for r' r'' u v
    using that undone assms(1) by (auto simp: commit_events_def split: sum.splits)
  show "P t"
  proof (cases "\<not> k_eventing s \<or> b_tx (k_bus s) \<noteq> None")
    case True
    then show ?thesis using run keepsD[OF assms(2) _ s] by (simp add: atomic_def)
  next
    case False
    obtain r' u where m: "m (opened s) = (r', u)" by fastforce
    have "P u" using keepsD[OF assms(2) m] s assms(1) by (simp add: opened_def)
    then show ?thesis
      using run False m undone done_with by (auto simp: atomic_def opened_def split: sum.splits if_splits)
  qed
qed

lemma same_change [keeps_intros]: "keeps (same_parts s) (change_work_item_state K pid wid b)"
  unfolding change_work_item_state_def by (intro keeps_atomic_parts) (simp, intro keeps_intros)

lemma step_now_same:
  assumes "live s" and "\<And>t. live t \<Longrightarrow> view t = view s \<Longrightarrow> same_parts s t \<Longrightarrow> b_ticks (k_bus t) = Suc (b_ticks (k_bus s)) \<Longrightarrow>
      does Q (f (kclock K (b_ticks (k_bus s)))) t"
  shows "does Q (bnd (utc_now K) f) s"
proof -
  let ?t = "s\<lparr>k_bus := (k_bus s)\<lparr>b_ticks := Suc (b_ticks (k_bus s))\<rparr>\<rparr>"
  have run: "utc_now K s = (Inr (kclock K (b_ticks (k_bus s))), ?t)" by (simp add: now_Inr)
  have "live ?t" using keepsD[OF keeps_now run] assms(1) by (simp add: live_def)
  then have "does Q (f (kclock K (b_ticks (k_bus s)))) ?t" by (rule assms(2)) (simp_all add: same_parts_def)
  then show ?thesis by (rule does_run[where m = "utc_now K", OF run])
qed

lemma step_change_same:
  assumes "live s" and "vi (view s) (pid, wid) = Some a" and "b \<in> set (lifecycle_transitions a)"
    and "\<And>t. live t \<Longrightarrow> view t = (view s)\<lparr>vi := (vi (view s))((pid, wid) \<mapsto> b)\<rparr> \<Longrightarrow> same_parts s t \<Longrightarrow> does Q (f ()) t"
  shows "does Q (bnd (change_work_item_state K pid wid b) f) s"
  by (rule step_same[OF assms(1) _ _ safe_change[OF liveD(1)[OF assms(1)] assms(2,3)],
        where R = "\<lambda>t. view t = (view s)\<lparr>vi := (vi (view s))((pid, wid) \<mapsto> b)\<rparr>"])
    (use assms in \<open>auto intro: keeps_intros post_change liveD\<close>)

lemma step_assigned_same:
  assumes "live s" and "\<And>t. live t \<Longrightarrow> view t = view s \<Longrightarrow> same_parts s t \<Longrightarrow> does Q (f ()) t"
  shows "does Q (bnd (put_item pid wid (\<lambda>v. v\<lparr>wi_assigned_to := x\<rparr>)) f) s"
proof -
  have "safe (put_item pid wid (\<lambda>v. v\<lparr>wi_assigned_to := x\<rparr>)) s" by (simp add: put_item_def put_package_run safe_def)
  then show ?thesis
    by (rule step_same[OF assms(1), rotated 2, where R = "\<lambda>t. view t = view s"])
      (use assms in \<open>auto intro: keeps_intros post_put_assigned liveD\<close>)
qed

lemma step_status_same:
  assumes "live s" and "b \<in> set (assignment_transitions (wa_status a))"
    and "\<And>t tm. live t \<Longrightarrow> view t = view s \<Longrightarrow> same_parts s t \<Longrightarrow> does Q (f (a\<lparr>wa_status := b, wa_updated_at := tm\<rparr>)) t"
  shows "does Q (bnd (change_status K b a) f) s"
  unfolding change_status_def bnd_assoc
  by (rule step_pure(2)) (use assms in \<open>auto simp: validate_assignment_status_transition_def bnd_assoc intro: step_now_same\<close>)

subsection \<open>Assigning\<close>

lemma assign_safe:
  assumes live: "live s" and fits: "fits (view s)" and steady: "steady K"
    and nb: "\<not> blank i" "\<not> blank pid" "\<not> blank wid"
    and new: "va (view s) i = None" and free: "\<And>x k g. va (view s) x \<noteq> Some (k, pid, wid, g, ACTIVE)"
    and item: "vi (view s) (pid, wid) = Some READY" and sel: "select_agent role caps s = (Inr sl, s)"
  shows "safe (assign_work_item K i pid wid role caps) s"
proof -
  note facts = select_facts[OF sel]
  note ag = filed_here[OF live fits facts(1)]
  have dup: "i \<notin> set (dkeys (k_assignments s))" using new by (simp add: view_assignment map_of_eq_None_iff)
  have count: "0 \<le> count_active_assignments g s" for g by (simp add: count_active_assignments_def)
  have later: "kclock K n \<le> kclock K (Suc n)" for n using steady by (simp add: steady_def)
  have valid: "validate_assignment \<lparr>wa_id = i, wa_package_id = pid, wa_work_item_id = wid, wa_agent_id = ag_id (sl_agent sl),
      wa_status = ASSIGNMENT_CREATED, wa_created_at = kclock K (b_ticks (k_bus s)), wa_updated_at = kclock K (b_ticks (k_bus t)),
      wa_required_role = role, wa_required_capabilities = caps, wa_selection_reason = sl_reason sl,
      wa_agent_priority = ag_priority (sl_agent sl),
      wa_agent_active_count = count_active_assignments (ag_id (sl_agent sl)) s\<rparr> = Inr ()"
    if "b_ticks (k_bus t) = Suc (b_ticks (k_bus s))" for t
    using facts(4) by (auto simp: validate_assignment_def checks_Inr nb facts(3,5) ag count later that list_all_iff)
  show ?thesis
    unfolding safe_does assign_work_item_def does_atomic[OF liveD(1)[OF live]] publish_assignment_def Let_def
    by (rule step_pure step_gets no_active[OF live] dup free live step_item[OF item] does_run[where m = "select_agent role caps", OF sel]
          step_now_same step_status_same step_change_same step_assigned_same step_package[where wid = wid, OF _ refl] does_last[OF step_put_assignment] flow_rules step_rules TrueI valid | assumption
      | (simp add: nb item facts checks_Inr ag same_parts_def; fail) | (simp add: blank_def is_space_def; fail))+
qed

lemma assign_does:
  assumes live: "live s" and fl: "vf (view s) i = Some fl" and ok: "flow_ok (view s) i fl" and st: "fl_stage fl = STAGE_READY"
    and fits: "fits (view s)" and own: "owned (view s)" and steady: "steady K"
    and w: "map_of (k_workflows s) i = Some w" and q: "map_of (k_requests s) (wf_request_id w) = Some q"
    and sel: "select_agent (Some (rq_required_role q)) (rq_required_capabilities q) s = (Inr sl, s)"
  shows "does (ends i STAGE_ASSIGNED) (assign_work K i) s"
proof -
  have fv: "flow_view w = fl" using w fl by (simp add: view_flow)
  have wid: "wf_id w = i" "wf_package_id w = fst (cell i)" "wf_item_id w = snd (cell i)" "wf_stage w = STAGE_READY"
    using flow_view_sel[of w] flow_parts[OF ok] st unfolding fv by auto
  have get: "get_workflow i s = (Inr w, s)" using live_workflow(1)[OF live w] w by (simp add: get_workflow_Inr)
  have req: "get_request (wf_request_id w) s = (Inr q, s)" using q by (simp add: get_request_Inr)
  have duty: "wf_id w @ '':assignment'' = duty i" by (simp add: wid duty_def)
  have blank: "\<not> blank (fst (cell i))" "\<not> blank (snd (cell i))" by (simp_all add: cell_def blank_def is_space_def)
  have item: "vi (view s) (fst (cell i), snd (cell i)) = Some READY" using flow_item[OF ok] st by simp
  have safe: "safe (assign_work_item K (duty i) (fst (cell i)) (snd (cell i))
      (Some (rq_required_role q)) (rq_required_capabilities q)) s"
    by (rule assign_safe[OF live fits steady duty_not_blank blank _ _ item sel])
      (use ownedD[OF own fl] st in auto)
  show ?thesis
    unfolding assign_work_def does_atomic[OF liveD(1)[OF live]]
  proof (rule does_run[where m = "get_workflow i", OF get], rule step_pure(2), simp add: wid require_stage_def,
      rule does_run[where m = "get_request _", OF req], unfold duty wid(2,3),
      rule does_step[OF live _ safe, where R = "\<lambda>a t. wa_id a = duty i
        \<and> assigned (duty i) (fst (cell i)) (snd (cell i)) (view s) (wa_agent_id a) (view t)"])
    show "keeps (sound []) (assign_work_item K (duty i) (fst (cell i)) (snd (cell i))
      (Some (rq_required_role q)) (rq_required_capabilities q))" by (intro keeps_intros)
  next
    fix Q :: "assignment \<Rightarrow> kernel \<Rightarrow> bool"
    assume "\<And>x t. in_tx t \<Longrightarrow> wa_id x = duty i
        \<and> assigned (duty i) (fst (cell i)) (snd (cell i)) (view s) (wa_agent_id x) (view t) \<Longrightarrow> Q x t"
    then show "post (assign_work_item K (duty i) (fst (cell i)) (snd (cell i))
      (Some (rq_required_role q)) (rq_required_capabilities q)) s Q"
      by (intro post_mono[OF assign_post[OF liveD(1)[OF live]]]) blast
  next
    fix a :: assignment and t
    assume t: "live t" and "wa_id a = duty i
        \<and> assigned (duty i) (fst (cell i)) (snd (cell i)) (view s) (wa_agent_id a) (view t)"
    then have vf: "vf (view t) i = Some fl" using fl assigned_flows by auto
    show "does (ends i STAGE_ASSIGNED) (bnd (put_workflow i (\<lambda>w. w\<lparr>wf_assignment_id := Some (wa_id a)\<rparr>)) (\<lambda>_.
       bnd (move_to K i STAGE_ASSIGNED) (\<lambda>_.
       bnd (wpublish K i ''SOFTWARE_WORK_ASSIGNED'' [(''agent_id'', JStr (wa_agent_id a))]) (\<lambda>_. get_workflow i)))) t"
      by (rule step_rules t step_put[where F = "\<lambda>fl. fl\<lparr>fl_assignment := Some (wa_id a)\<rparr>"] | assumption
        | (simp add: vf st flow_parts[OF ok] flow_view_def ends_def stage_of_def; fail))+
  qed
qed

text \<open>
  In every reachable kernel in which a workflow is ready, if the selection finds an agent for the role
  and the capabilities of its request, then assigning the work returns. The clock must not go back.
\<close>

lemma assign_returns:
  assumes "service_reachable K s" and "stage_in s i = Some STAGE_READY" and "steady K"
    and "map_of (k_workflows s) i = Some w" and "map_of (k_requests s) (wf_request_id w) = Some q"
    and "select_agent (Some (rq_required_role q)) (rq_required_capabilities q) s = (Inr sl, s)"
  shows "\<exists>v t. assign_work K i s = (Inr v, t) \<and> wf_stage v = STAGE_ASSIGNED \<and> stage_in t i = Some STAGE_ASSIGNED"
proof -
  have sel: "select_agent (Some (rq_required_role q)) (rq_required_capabilities q) (opened s) = (Inr sl, opened s)"
    using assms(6)
    by (auto simp: select_agent_def bnd_of_sum bnd_gets bnd_require ok_def opened_def ranked_def at_capacity_def list_agents_def
        count_active_assignments_def Let_def split: sum.splits if_splits prod.splits)
  have inv: "fits (view (opened s))" "owned (view (opened s))"
    using service_invariant[OF assms(1)] service_owned[OF assms(1)] by simp_all
  show ?thesis
    by (rule call_returns[OF assms(1,2) assign_work_def])
      (rule assign_does[OF _ _ _ _ inv assms(3)], use assms(4,5) sel in \<open>auto simp: opened_def\<close>)
qed

subsection \<open>From intake to release\<close>

definition kept :: "(string, executor) dict \<times> (string, execution) dict \<Rightarrow> kernel \<Rightarrow> bool" where
  "kept E s \<longleftrightarrow> (k_executors s, k_executions s) = E"

lemma kept_sel [simp]:
  "kept E (s\<lparr>k_bus := b\<rparr>) = kept E s" "kept E (s\<lparr>k_packages := p\<rparr>) = kept E s" "kept E (s\<lparr>k_agents := g\<rparr>) = kept E s"
  "kept E (s\<lparr>k_assignments := a\<rparr>) = kept E s" "kept E (s\<lparr>k_workflows := w\<rparr>) = kept E s"
  by (simp_all add: kept_def)

lemma keeps_same: "(\<And>s. keeps (same_parts s) m) \<Longrightarrow> (\<And>s t. same_parts s t \<Longrightarrow> P s \<Longrightarrow> P t) \<Longrightarrow> keeps P m"
  unfolding keeps_def by (metis same_parts_def)

lemma same_kept: "same_parts s t \<Longrightarrow> kept E s \<Longrightarrow> kept E t"
  by (auto simp: kept_def same_parts_def)

lemma kept_ops [keeps_intros]:
  "keeps (kept E) (kpublish K et ty aid pl corr caus)" "keeps (kept E) (utc_now K)" "keeps (kept E) (move_to K i b)"
  "keeps (kept E) (wpublish K i et pl')" "keeps (kept E) (change_work_item_state K pid wid st)"
  "keeps (kept E) (put_item pid wid f)"
  by (rule keeps_same, intro keeps_intros, erule (1) same_kept)+

lemma kept_puts [keeps_intros]:
  "keeps (kept E) (put_package pid g)" "keeps (kept E) (put_assignment i a)" "keeps (kept E) (put_agent k c)"
  "keeps (kept E) (put_workflow i h)" "keeps (kept E) (restore_agent c)"
  unfolding put_package_def put_assignment_def put_agent_def put_workflow_def restore_agent_def
  by (rule keeps_upd, simp)+

lemma kept_assign [keeps_intros]: "keeps (kept E) (assign_work_item K i pid wid role caps)"
  unfolding assign_work_item_def update_agent_state_def change_status_def publish_assignment_def restore_item_def Let_def
  by (intro keeps_atomic_parts keeps_intros keeps_upd; simp)

lemma kept_assign_work: "keeps (kept E) (assign_work K i)"
  unfolding assign_work_def by (intro keeps_atomic_parts keeps_intros) simp

lemma same_plan: "keeps (same_parts s) (plan_request K i)"
  unfolding plan_request_def by (intro keeps_atomic_parts keeps_intros) simp

text \<open>The assignment that is made asks for the role and the capabilities that it was made for.\<close>

lemma post_any: "(\<And>x t. Q x t) \<Longrightarrow> post m s Q"
  by (simp add: post_def)

definition asks :: "agent_role option \<Rightarrow> string list \<Rightarrow> assignment \<Rightarrow> bool" where
  "asks role caps a \<longleftrightarrow> wa_required_role a = role \<and> wa_required_capabilities a = caps"

lemma post_skip: "(\<And>x t. post (f x) t Q) \<Longrightarrow> post (bnd m f) s Q"
  by (simp add: post_bnd post_any)

lemmas skip_statements =
  post_skip[where m = "of_sum c" for c] post_skip[where m = "gets h" for h] post_skip[where m = "require b e" for b e]
  post_skip[where m = "get_work_item pid wid" for pid wid] post_skip[where m = "select_agent role caps" for role caps]
  post_skip[where m = "utc_now K" for K] post_skip[where m = "get_work_package pid" for pid]
  post_skip[where m = "change_work_item_state K pid wid b" for K pid wid b] post_skip[where m = "put_item pid wid g" for pid wid g]
  post_skip[where m = "if b then n else n'" for b n n']

lemma asks_status: "asks role caps a \<Longrightarrow> post (change_status K b a) s (\<lambda>a t. asks role caps a)"
  unfolding change_status_def post_simps by (intro allI impI post_any) (simp add: asks_def)

lemma post_keeps: "keeps P m \<Longrightarrow> P s \<Longrightarrow> post m s (\<lambda>_ t. P t)"
  unfolding post_def by (blast dest: keepsD)

definition holds :: "string \<Rightarrow> assignment \<Rightarrow> kernel \<Rightarrow> bool" where
  "holds i a t \<longleftrightarrow> map_of (k_assignments t) i = Some a"

lemma same_holds: "same_parts s t \<Longrightarrow> holds i a s \<Longrightarrow> holds i a t"
  by (simp add: holds_def same_parts_def)

lemma post_put_holds: "(\<And>t. holds i a t \<Longrightarrow> Q () t) \<Longrightarrow> post (put_assignment i a) s Q"
  by (simp add: put_assignment_def post_pure holds_def)

lemma post_known: "m s = (Inr x, t) \<Longrightarrow> post (f x) t Q \<Longrightarrow> post (bnd m f) s Q"
  by (simp add: post_def bnd_def)

lemma publish_asks:
  assumes "asks role caps a" and "holds i a t"
  shows "post (bnd (kpublish K et ty aid pl None None) (\<lambda>_. ok a)) t (\<lambda>a t. asks role caps a \<and> holds i a t)"
  unfolding post_bnd post_pure(1)
  by (rule post_mono[OF post_keeps[where P = "holds i a", OF keeps_same[OF _ same_holds] assms(2)]])
    (auto intro: keeps_intros assms(1))

lemma assign_asks:
  assumes "in_tx s"
  shows "post (assign_work_item K i pid wid role caps) s (\<lambda>a t. asks role caps a \<and> holds i a t)"
  unfolding assign_work_item_def post_atomic[OF assms] Let_def publish_assignment_def
  by (rule skip_statements post_bnd[THEN iffD2] post_mono[OF asks_status] post_catch never_rules publish_asks post_put_holds
    | assumption | (simp add: asks_def; fail))+

lemma assign_work_asks:
  assumes "live s" and "map_of (k_workflows s) i = Some w" and "map_of (k_requests s) (wf_request_id w) = Some q" and "wf_id w = i"
  shows "post (assign_work K i) s (\<lambda>_ t. \<exists>a. holds (duty i) a t \<and> asks (Some (rq_required_role q)) (rq_required_capabilities q) a)"
proof -
  let ?r = "Some (rq_required_role q)" let ?c = "rq_required_capabilities q"
  have get: "get_workflow i s = (Inr w, s)"
    using live_workflow(1)[OF assms(1,2)] assms(2) by (simp add: get_workflow_Inr)
  have req: "get_request (wf_request_id w) s = (Inr q, s)" using assms(3) by (simp add: get_request_Inr)
  have rest: "post (bnd (put_workflow i g) (\<lambda>_. bnd (move_to K i b) (\<lambda>_. bnd (wpublish K i et pl) (\<lambda>_. get_workflow i)))) t
      (\<lambda>_ t. \<exists>a. holds (duty i) a t \<and> asks ?r ?c a)" if "holds (duty i) a t" "asks ?r ?c a" for a t g b et pl
  proof -
    have "keeps (holds (duty i) a) (bnd (put_workflow i g) (\<lambda>_. bnd (move_to K i b) (\<lambda>_. bnd (wpublish K i et pl) (\<lambda>_. get_workflow i))))"
      by (rule keeps_same[OF _ same_holds]) (auto intro!: keeps_intros keeps_upd simp: put_workflow_def)
    from post_keeps[OF this that(1)] show ?thesis by (rule post_mono) (use that(2) in blast)
  qed
  have duty: "wf_id w @ '':assignment'' = duty i" by (simp add: assms(4) duty_def)
  show ?thesis
    unfolding assign_work_def post_atomic[OF liveD(1)[OF assms(1)]]
    by (rule post_known[where m = "get_workflow i", OF get], unfold post_bnd[where m = "of_sum _"] post_of_sum, intro allI impI,
        rule post_known[where m = "get_request _", OF req], unfold duty post_bnd[where m = "assign_work_item _ _ _ _ _ _"],
        rule post_mono[OF assign_asks[OF liveD(1)[OF assms(1)]]], rule rest)
      (auto simp: asks_def)
qed

definition for_request :: "string \<Rightarrow> string \<Rightarrow> kernel \<Rightarrow> bool" where
  "for_request i r s \<longleftrightarrow> (\<exists>w. map_of (k_workflows s) i = Some w \<and> wf_request_id w = r)"

lemma for_request_sel [simp]:
  "for_request i r (s\<lparr>k_bus := b\<rparr>) = for_request i r s" "for_request i r (s\<lparr>k_packages := p\<rparr>) = for_request i r s"
  by (simp_all add: for_request_def)

lemma for_request_ops [keeps_intros]:
  "keeps (for_request i r) (put_package pid g)" "keeps (for_request i r) (put_item pid wid f)"
  "keeps (for_request i r) (utc_now K)" "keeps (for_request i r) (kpublish K et ty aid pl corr caus)"
  by (rule keepsI, auto simp: put_package_def put_item_def upd_def now_Inr kpublish_def on_bus_def zoom_def bnd_def ok_def
      split: prod.splits sum.splits if_splits)+

lemma for_request_moves [keeps_intros]:
  "keeps (for_request i r) (move_to K j b)" "keeps (for_request i r) (wpublish K j et pl')"
  "keeps (for_request i r) (change_work_item_state K pid wid st)"
proof -
  have "keeps (for_request i r) (put_workflow j g)" if "\<And>w. wf_request_id (g w) = wf_request_id w" for g
    unfolding put_workflow_def by (rule keeps_upd) (auto simp: for_request_def that split: option.split)
  then show "keeps (for_request i r) (move_to K j b)" unfolding move_to_def by (intro keeps_intros) simp
  show "keeps (for_request i r) (wpublish K j et pl')"
    by (rule keeps_eventing[rotated], simp add: wpublish_def, simp add: wpublish_def) (intro keeps_intros)
  show "keeps (for_request i r) (change_work_item_state K pid wid st)"
    unfolding change_work_item_state_def mark_updated_def by (intro keeps_atomic_parts keeps_intros) simp
qed

lemma plan_keeps_request: "keeps (for_request i r) (plan_request K j)"
  unfolding plan_request_def by (intro keeps_atomic_parts keeps_intros) simp

lemma select_same:
  assumes "select_agent role caps s = (Inr sl, s)" and "same_parts s t"
  shows "select_agent role caps t = (Inr sl, t)"
  using assms
  by (auto simp: select_agent_def bnd_of_sum bnd_gets bnd_require ok_def ranked_def at_capacity_def list_agents_def
      count_active_assignments_def Let_def same_parts_def split: sum.splits if_splits prod.splits)

lemma executor_kept: "select_executor a s = (Inr x, s) \<Longrightarrow> k_executors t = k_executors s \<Longrightarrow> select_executor a t = (Inr x, t)"
  by (auto simp: select_executor_def bnd_gets ok_def fail_def split: option.splits)

lemma outer_post:
  assumes "outer s" and "m = atomic b" and "m s = (Inr x, t)" and "post m (opened s) R"
  shows "\<exists>u c. R x u \<and> t = u\<lparr>k_bus := c\<rparr>"
proof -
  obtain r u where b: "b (opened s) = (r, u)" by fastforce
  have tx: "in_tx (opened s)" using assms(1) by (simp add: outer_def)
  have "r = Inr x \<and> (\<exists>c. t = u\<lparr>k_bus := c\<rparr>)"
    using assms(1-3) b by (auto simp: atomic_def outer_def opened_def commit_events_def split: sum.splits if_splits)
  moreover from this have "R x u" using assms(2,4) b tx by (simp add: post_def)
  ultimately show ?thesis by blast
qed

lemma assign_leads:
  assumes "service_reachable K s" and "stage_in s i = Some INTAKE" and "steady K"
    and "map_of (k_workflows s) i = Some w" and "map_of (k_requests s) (wf_request_id w) = Some q"
    and "select_agent (Some (rq_required_role q)) (rq_required_capabilities q) s = (Inr sl, s)"
    and "\<And>a. wa_required_role a = Some (rq_required_role q) \<Longrightarrow> wa_required_capabilities a = rq_required_capabilities q
      \<Longrightarrow> select_executor a s = (Inr x, s)"
    and "\<not> blank eid" and "eid \<notin> set (dkeys (k_executions s))"
  shows "\<exists>w1 s1 w2 s2 u a. plan_request K i s = (Inr w1, s1) \<and> assign_work K i s1 = (Inr w2, s2)
    \<and> service_reachable K s2 \<and> stage_in s2 i = Some STAGE_ASSIGNED \<and> map_of (k_workflows s2) i = Some u
    \<and> wf_assignment_id u = Some (duty i) \<and> map_of (k_assignments s2) (duty i) = Some a
    \<and> select_executor a s2 = (Inr x, s2) \<and> eid \<notin> set (dkeys (k_executions s2))"
proof -
  obtain w1 s1 where 1: "plan_request K i s = (Inr w1, s1)" "stage_in s1 i = Some STAGE_READY"
    using plan_returns[OF assms(1,2)] by blast
  have r1: "service_reachable K s1" by (rule service_reachable.call[OF assms(1) service_call.plan[OF 1(1)]])
  have same: "same_parts s s1" by (rule keepsD[OF same_plan 1(1)]) (simp add: same_parts_def)
  have "for_request i (wf_request_id w) s1"
    by (rule keepsD[OF plan_keeps_request 1(1)]) (simp add: for_request_def assms(4))
  then obtain v where v: "map_of (k_workflows s1) i = Some v" "wf_request_id v = wf_request_id w" by (auto simp: for_request_def)
  have q: "map_of (k_requests s1) (wf_request_id v) = Some q" using assms(5) same v(2) by (simp add: same_parts_def)
  obtain w2 s2 where 2: "assign_work K i s1 = (Inr w2, s2)" "stage_in s2 i = Some STAGE_ASSIGNED"
    using assign_returns[OF r1 1(2) assms(3) v(1) q select_same[OF assms(6) same]] by blast
  have r2: "service_reachable K s2" by (rule service_reachable.call[OF r1 service_call.assign[OF 2(1)]])
  have kept: "kept (k_executors s, k_executions s) s2"
    by (rule keepsD[OF kept_assign_work 2(1)]) (use same in \<open>simp add: kept_def same_parts_def\<close>)
  obtain u where u: "map_of (k_workflows s2) i = Some u" and k: "wf_assignment_id u = Some (duty i)"
    using service_invariant[OF r2] 2(2) workflow_ok[of s2 i] by (fastforce simp: stage_in_def flow_ok_def held_stages_def)
  have wid: "wf_id v = i" "live (opened s1)"
    using workflow_ok(3)[OF _ v(1)] service_invariant[OF r1] opened_live[OF r1] by auto
  have out: "outer s1" using service_invariant[OF r1] by blast
  have "\<exists>t c. (\<exists>a. holds (duty i) a t \<and> asks (Some (rq_required_role q)) (rq_required_capabilities q) a) \<and> s2 = t\<lparr>k_bus := c\<rparr>"
    by (rule outer_post[OF out assign_work_def 2(1)], rule assign_work_asks[OF wid(2) _ _ wid(1)])
      (use v(1) q in \<open>simp_all add: opened_def\<close>)
  then obtain a where a: "map_of (k_assignments s2) (duty i) = Some a"
    "wa_required_role a = Some (rq_required_role q)" "wa_required_capabilities a = rq_required_capabilities q"
    by (auto simp: holds_def asks_def)
  have x: "select_executor a s2 = (Inr x, s2)"
    using executor_kept[OF assms(7)[OF a(2,3)]] kept by (simp add: kept_def)
  have fresh: "eid \<notin> set (dkeys (k_executions s2))" using assms(9) kept by (simp add: kept_def)
  from 1(1) 2 r2 u k a(1) x fresh show ?thesis by blast
qed

lemma deliver_returns:
  assumes "service_reachable K s" and "stage_in s i = Some INTAKE" and "steady K"
    and "map_of (k_workflows s) i = Some w" and "map_of (k_requests s) (wf_request_id w) = Some q"
    and "select_agent (Some (rq_required_role q)) (rq_required_capabilities q) s = (Inr sl, s)"
    and "\<And>a. wa_required_role a = Some (rq_required_role q) \<Longrightarrow> wa_required_capabilities a = rq_required_capabilities q
      \<Longrightarrow> select_executor a s = (Inr x, s)"
    and "delivers K x" and "\<not> blank eid" and "eid \<notin> set (dkeys (k_executions s))"
  shows "\<exists>w1 s1 w2 s2 w3 s3 w4 s4 w5 s5 w6 s6. plan_request K i s = (Inr w1, s1) \<and> assign_work K i s1 = (Inr w2, s2)
    \<and> execute_work K i (Some eid) s2 = (Inr w3, s3) \<and> approve_work K i s3 = (Inr w4, s4)
    \<and> complete_work K i s4 = (Inr w5, s5) \<and> release_work K i s5 = (Inr w6, s6) \<and> stage_in s6 i = Some STAGE_RELEASED
    \<and> service_reachable K s3 \<and> stage_in s3 i = Some STAGE_REVIEW"
proof -
  obtain w1 s1 w2 s2 u a where 1: "plan_request K i s = (Inr w1, s1)" and 2: "assign_work K i s1 = (Inr w2, s2)"
    and r2: "service_reachable K s2" and st: "stage_in s2 i = Some STAGE_ASSIGNED" and u: "map_of (k_workflows s2) i = Some u"
    and k: "wf_assignment_id u = Some (duty i)" and a: "map_of (k_assignments s2) (duty i) = Some a"
    and x: "select_executor a s2 = (Inr x, s2)" and fresh: "eid \<notin> set (dkeys (k_executions s2))"
    using assign_leads[OF assms(1-7,9-10)] by blast
  obtain w3 s3 where 3: "execute_work K i (Some eid) s2 = (Inr w3, s3)" "stage_in s3 i = Some STAGE_REVIEW"
    using execute_returns[OF r2 _ u k a x assms(8,9) fresh] st by blast
  have r3: "service_reachable K s3" by (rule service_reachable.call[OF r2 service_call.execute[OF 3(1)]])
  obtain w4 s4 w5 s5 w6 s6 where "approve_work K i s3 = (Inr w4, s4)" "complete_work K i s4 = (Inr w5, s5)"
    "release_work K i s5 = (Inr w6, s6)" "stage_in s6 i = Some STAGE_RELEASED"
    using release_returns[OF r3 3(2)] by blast
  with 1 2 3 r3 show ?thesis by blast
qed

text \<open>C11: A submitted request can be delivered: in every reachable kernel in which a workflow is in intake, if the
  selection finds an agent for its request and the executor that the service picks for such an
  assignment reports success, then planning, assigning, executing under a fresh identifier, approving,
  completing and releasing, one after the other, all return, and the work is released.
\<close>

theorem submitted_work_can_be_released:
  assumes "service_reachable K s" and "stage_in s i = Some INTAKE" and "steady K"
    and "map_of (k_workflows s) i = Some w" and "map_of (k_requests s) (wf_request_id w) = Some q"
    and "select_agent (Some (rq_required_role q)) (rq_required_capabilities q) s = (Inr sl, s)"
    and "\<And>a. wa_required_role a = Some (rq_required_role q) \<Longrightarrow> wa_required_capabilities a = rq_required_capabilities q
      \<Longrightarrow> select_executor a s = (Inr x, s)"
    and "delivers K x" and "\<not> blank eid" and "eid \<notin> set (dkeys (k_executions s))"
  shows "\<exists>w1 s1 w2 s2 w3 s3 w4 s4 w5 s5 w6 s6. plan_request K i s = (Inr w1, s1) \<and> assign_work K i s1 = (Inr w2, s2)
    \<and> execute_work K i (Some eid) s2 = (Inr w3, s3) \<and> approve_work K i s3 = (Inr w4, s4)
    \<and> complete_work K i s4 = (Inr w5, s5) \<and> release_work K i s5 = (Inr w6, s6) \<and> stage_in s6 i = Some STAGE_RELEASED"
  using deliver_returns[OF assms] by blast

end
