(* ===== verification/Delivery_Demo.thy ===== *)
theory Delivery_Demo
  imports Assignment_Progress
begin

section \<open>Runs of the workflow service\<close>

text \<open>
  A kernel with one agent and one deterministic executor, and the history of one request in it, from its
  submission to its release. It gives the hypotheses of the properties of the service an instance each.
\<close>

subsection \<open>An agent, an executor, a request\<close>

definition kdemo :: kenv where
  "kdemo = \<lparr>kclock = int, ktext = (\<lambda>_. ''error'')\<rparr>"

definition ada :: agent where
  "ada = \<lparr>ag_id = ''ada'', ag_display_name = ''Ada'', ag_role = BACKEND_ENGINEER, ag_description = ''d'',
     ag_state = AVAILABLE, ag_capabilities = [], ag_max_parallel_tasks = 1, ag_priority = 0\<rparr>"

definition demo_executor :: executor where
  "demo_executor = \<lparr>x_id = ''x'', x_roles = [BACKEND_ENGINEER], x_capabilities = [],
     x_run = deterministic_execute ''out'' False ''bad''\<rparr>"

definition demo_request :: delivery_request where
  "demo_request = \<lparr>rq_id = ''r'', rq_title = ''t'', rq_description = ''d'', rq_requested_by = ''me'',
     rq_required_role = BACKEND_ENGINEER, rq_required_capabilities = [], rq_acceptance_criteria = [''a''],
     rq_priority = ''p'', rq_correlation_id = None, rq_created_at = 0\<rparr>"

text \<open>A call that may raise leaves a kernel behind in either case.\<close>

lemma reaches:
  assumes "service_reachable K s"
  shows "validate_agent a = Inr () \<Longrightarrow> service_reachable K (snd (register_agent K a s))"
    and "service_reachable K (snd (register_executor x s))"
    and "validate_request q = Inr () \<Longrightarrow> service_reachable K (snd (submit_request K q wid s))"
  using service_reachable.call[OF assms] by (auto intro: service_call.intros prod.collapse[symmetric])

definition staffed :: kernel where
  "staffed = snd (register_executor demo_executor (snd (register_agent kdemo ada (empty_kernel True))))"

definition submitted :: kernel where
  "submitted = snd (submit_request kdemo demo_request (Some ''w'') staffed)"

lemma demo_reachable: "service_reachable kdemo staffed" "service_reachable kdemo submitted"
proof -
  have valid: "validate_agent ada = Inr ()" "validate_request demo_request = Inr ()" by code_simp+
  show "service_reachable kdemo staffed" "service_reachable kdemo submitted"
    unfolding staffed_def submitted_def by (intro reaches service_reachable.start valid)+
qed

lemma demo_submitted:
  "case map_of (k_workflows submitted) ''w'' of None \<Rightarrow> False
   | Some w \<Rightarrow> wf_stage w = INTAKE \<and> k_executions submitted = [] \<and>
      (case map_of (k_requests submitted) (wf_request_id w) of None \<Rightarrow> False
       | Some q \<Rightarrow> rq_required_role q = BACKEND_ENGINEER \<and> rq_required_capabilities q = [] \<and>
         (case fst (select_agent (Some BACKEND_ENGINEER) [] submitted) of Inl e \<Rightarrow> False | Inr sl \<Rightarrow> True))"
  by code_simp

lemma kept_create [keeps_intros]:
  "keeps (kept E) (create_work_package K i title descr owner)" "keeps (kept E) (add_work_item K pid i title descr prio asg)"
  unfolding create_work_package_def add_work_item_def package_add_item_def mark_updated_def Let_def
  by (intro keeps_atomic_parts keeps_intros keeps_upd; simp)+

lemma kept_requests [simp]: "kept E (s\<lparr>k_workflows := w, k_requests := q\<rparr>) = kept E s"
  by (simp add: kept_def)

lemma kept_calls:
  "keeps (kept E) (submit_request K q wid)" "keeps (kept E) (register_agent K a)"
  unfolding submit_request_def register_agent_def Let_def
  by (intro keeps_atomic_parts keeps_intros keeps_upd; simp)+

lemma demo_executors: "k_executors submitted = [(''x'', demo_executor)]"
proof -
  have "kept ([], []) (snd (register_agent kdemo ada (empty_kernel True)))"
    by (rule keepsD[OF kept_calls(2) surjective_pairing]) (simp add: kept_def empty_kernel_def)
  then have "k_executors staffed = [(''x'', demo_executor)]"
    by (simp add: staffed_def register_executor_def kept_def bnd_of_sum bnd_gets bnd_require bnd_upd ok_def
        validate_required_string_def blank_def is_space_def demo_executor_def)
  then have "kept ([(''x'', demo_executor)], k_executions staffed) staffed" by (simp add: kept_def)
  then have "kept ([(''x'', demo_executor)], k_executions staffed) submitted"
    unfolding submitted_def by (rule keepsD[OF kept_calls(1) surjective_pairing])
  then show ?thesis by (simp add: kept_def)
qed

lemma demo_steady: "steady kdemo"
  by (simp add: steady_def kdemo_def)

lemma demo_delivers: "delivers K demo_executor" if "steady K"
proof -
  have "validate_deterministic ''x'' [BACKEND_ENGINEER] [] ''out'' ''bad'' = Inr ()" by code_simp
  then have "deterministic_executor ''x'' [BACKEND_ENGINEER] [] ''out'' False ''bad'' = Inr demo_executor"
    by (simp add: deterministic_executor_def demo_executor_def)
  then show ?thesis using that by (rule deterministic_delivers)
qed

subsection \<open>Its delivery\<close>

lemma demo_asks:
  obtains w q sl where "stage_in submitted ''w'' = Some INTAKE" and "map_of (k_workflows submitted) ''w'' = Some w"
    and "map_of (k_requests submitted) (wf_request_id w) = Some q"
    and "select_agent (Some (rq_required_role q)) (rq_required_capabilities q) submitted = (Inr sl, submitted)"
    and "\<forall>a. wa_required_role a = Some (rq_required_role q) \<longrightarrow> wa_required_capabilities a = rq_required_capabilities q
      \<longrightarrow> select_executor a submitted = (Inr demo_executor, submitted)"
    and "''e'' \<notin> set (dkeys (k_executions submitted))"
proof -
  obtain w q sl where w: "map_of (k_workflows submitted) ''w'' = Some w" "wf_stage w = INTAKE"
    and q: "map_of (k_requests submitted) (wf_request_id w) = Some q" "rq_required_role q = BACKEND_ENGINEER"
      "rq_required_capabilities q = []"
    and sl: "fst (select_agent (Some BACKEND_ENGINEER) [] submitted) = Inr sl" and e: "k_executions submitted = []"
    using demo_submitted by (auto split: option.splits sum.splits)
  have "snd (select_agent (Some BACKEND_ENGINEER) [] submitted) = submitted"
    by (auto simp: select_agent_def bnd_of_sum bnd_gets bnd_require ok_def fail_def Let_def split: sum.splits if_splits prod.splits)
  then have sel: "select_agent (Some BACKEND_ENGINEER) [] submitted = (Inr sl, submitted)"
    using sl by (metis prod.collapse)
  have x: "select_executor a submitted = (Inr demo_executor, submitted)"
    if "wa_required_role a = Some BACKEND_ENGINEER" and "wa_required_capabilities a = []" for a
    using that by (simp add: select_executor_def bnd_gets ok_def demo_executors compatible_def demo_executor_def q)
  show ?thesis
    by (rule that[OF _ w(1) q(1)]) (simp_all add: stage_in_def w q sel e x)
qed

lemma demo_assigned:
  obtains s u a where "service_reachable kdemo s" and "stage_in s ''w'' = Some STAGE_ASSIGNED"
    and "map_of (k_workflows s) ''w'' = Some u" and "wf_assignment_id u = Some (duty ''w'')"
    and "map_of (k_assignments s) (duty ''w'') = Some a" and "wa_status a = ACTIVE"
    and "select_executor a s = (Inr demo_executor, s)" and "''e'' \<notin> set (dkeys (k_executions s))"
proof -
  have e: "\<not> blank ''e''" by (simp add: blank_def is_space_def)
  obtain w q sl where 1: "stage_in submitted ''w'' = Some INTAKE" "map_of (k_workflows submitted) ''w'' = Some w"
    "map_of (k_requests submitted) (wf_request_id w) = Some q"
    "select_agent (Some (rq_required_role q)) (rq_required_capabilities q) submitted = (Inr sl, submitted)"
    and x: "\<forall>a. wa_required_role a = Some (rq_required_role q) \<longrightarrow> wa_required_capabilities a = rq_required_capabilities q
      \<longrightarrow> select_executor a submitted = (Inr demo_executor, submitted)"
    and fresh: "''e'' \<notin> set (dkeys (k_executions submitted))"
    by (rule demo_asks)
  obtain w1 s1 w2 s u a where s: "service_reachable kdemo s" "stage_in s ''w'' = Some STAGE_ASSIGNED"
    "map_of (k_workflows s) ''w'' = Some u" "wf_assignment_id u = Some (duty ''w'')"
    "map_of (k_assignments s) (duty ''w'') = Some a"
    "select_executor a s = (Inr demo_executor, s)" "''e'' \<notin> set (dkeys (k_executions s))"
    using assign_leads[OF demo_reachable(2) 1(1) demo_steady 1(2-4) x[rule_format] e fresh] by blast
  have "coherent (view s)" using service_invariant[OF s(1)] by blast
  then have "wa_status a = ACTIVE"
    using workflow_ok[of s "''w''" u] s(2-5)
    by (auto simp: flow_ok_def held_stages_def stage_in_def view_assignment assignment_view_def)
  then show ?thesis by (rule that[OF s(1-5) _ s(6,7)])
qed

lemma demo_delivered:
  obtains s w1 s1 w2 s2 w3 s3 where "service_reachable kdemo s" and "stage_in s ''w'' = Some STAGE_REVIEW"
    and "approve_work kdemo ''w'' s = (Inr w1, s1)" and "complete_work kdemo ''w'' s1 = (Inr w2, s2)"
    and "release_work kdemo ''w'' s2 = (Inr w3, s3)" and "stage_in s3 ''w'' = Some STAGE_RELEASED"
proof -
  have e: "\<not> blank ''e''" by (simp add: blank_def is_space_def)
  obtain w q sl where 1: "stage_in submitted ''w'' = Some INTAKE" "map_of (k_workflows submitted) ''w'' = Some w"
    "map_of (k_requests submitted) (wf_request_id w) = Some q"
    "select_agent (Some (rq_required_role q)) (rq_required_capabilities q) submitted = (Inr sl, submitted)"
    and x: "\<forall>a. wa_required_role a = Some (rq_required_role q) \<longrightarrow> wa_required_capabilities a = rq_required_capabilities q
      \<longrightarrow> select_executor a submitted = (Inr demo_executor, submitted)"
    and fresh: "''e'' \<notin> set (dkeys (k_executions submitted))"
    by (rule demo_asks)
  show ?thesis
    using deliver_returns[OF demo_reachable(2) 1(1) demo_steady 1(2-4) x[rule_format] demo_delivers[OF demo_steady] e fresh] that by blast
qed

lemma submitted_work_can_be_released_witness:
  "\<exists>w1 s1 w2 s2 w3 s3 w4 s4 w5 s5 w6 s6. plan_request kdemo ''w'' submitted = (Inr w1, s1)
    \<and> assign_work kdemo ''w'' s1 = (Inr w2, s2) \<and> execute_work kdemo ''w'' (Some ''e'') s2 = (Inr w3, s3)
    \<and> approve_work kdemo ''w'' s3 = (Inr w4, s4) \<and> complete_work kdemo ''w'' s4 = (Inr w5, s5)
    \<and> release_work kdemo ''w'' s5 = (Inr w6, s6) \<and> stage_in s6 ''w'' = Some STAGE_RELEASED"
proof -
  have e: "\<not> blank ''e''" by (simp add: blank_def is_space_def)
  obtain w q sl where 1: "stage_in submitted ''w'' = Some INTAKE" "map_of (k_workflows submitted) ''w'' = Some w"
    "map_of (k_requests submitted) (wf_request_id w) = Some q"
    "select_agent (Some (rq_required_role q)) (rq_required_capabilities q) submitted = (Inr sl, submitted)"
    and x: "\<forall>a. wa_required_role a = Some (rq_required_role q) \<longrightarrow> wa_required_capabilities a = rq_required_capabilities q
      \<longrightarrow> select_executor a submitted = (Inr demo_executor, submitted)"
    and fresh: "''e'' \<notin> set (dkeys (k_executions submitted))"
    by (rule demo_asks)
  show ?thesis
    by (rule submitted_work_can_be_released[OF demo_reachable(2) 1(1) demo_steady 1(2-4) x[rule_format] demo_delivers[OF demo_steady] e fresh])
qed

lemma assigned_work_can_be_executed_witness:
  "\<exists>s v t. service_reachable kdemo s \<and> execute_work kdemo ''w'' (Some ''e'') s = (Inr v, t) \<and> wf_stage v = STAGE_REVIEW
    \<and> stage_in t ''w'' = Some STAGE_REVIEW"
proof -
  have e: "\<not> blank ''e''" by (simp add: blank_def is_space_def)
  obtain s u a where s: "service_reachable kdemo s" "stage_in s ''w'' = Some STAGE_ASSIGNED"
    "map_of (k_workflows s) ''w'' = Some u" "wf_assignment_id u = Some (duty ''w'')"
    "map_of (k_assignments s) (duty ''w'') = Some a" "select_executor a s = (Inr demo_executor, s)"
    "''e'' \<notin> set (dkeys (k_executions s))"
    by (rule demo_assigned)
  show ?thesis
    using assigned_work_can_be_executed[OF s(1) _ s(3-6) demo_delivers[OF demo_steady] e s(7)] s(1,2) by blast
qed

lemma reviewed_work_can_be_released_witness:
  "\<exists>s w1 s1 w2 s2 w3 s3. service_reachable kdemo s \<and> approve_work kdemo ''w'' s = (Inr w1, s1)
    \<and> complete_work kdemo ''w'' s1 = (Inr w2, s2) \<and> release_work kdemo ''w'' s2 = (Inr w3, s3)
    \<and> stage_in s3 ''w'' = Some STAGE_RELEASED"
  by (rule demo_delivered) (use reviewed_work_can_be_released in blast)


lemma stage_determines_item_witness:
  "\<exists>s w item. service_reachable kdemo s \<and> map_of (k_workflows s) ''w'' = Some w \<and> wf_stage w = STAGE_ASSIGNED
    \<and> get_work_item (wf_package_id w) (wf_item_id w) s = (Inr item, s) \<and> wi_state item \<in> set (item_states STAGE_ASSIGNED)"
proof -
  obtain s u a where s: "service_reachable kdemo s" "stage_in s ''w'' = Some STAGE_ASSIGNED" "map_of (k_workflows s) ''w'' = Some u"
    by (rule demo_assigned)
  then have "wf_stage u = STAGE_ASSIGNED" by (simp add: stage_in_def)
  then show ?thesis using stage_determines_item[OF s(1,3)] s(1,3) by metis
qed


lemma one_active_assignment_witness:
  "\<exists>s a. service_reachable kdemo s \<and> map_of (k_assignments s) (duty ''w'') = Some a \<and>
    {y. \<exists>b. map_of (k_assignments s) y = Some b \<and> wa_status b = ACTIVE \<and> wa_package_id b = wa_package_id a
       \<and> wa_work_item_id b = wa_work_item_id a} = {duty ''w''}"
proof -
  obtain s a where s: "service_reachable kdemo s" "map_of (k_assignments s) (duty ''w'') = Some a" "wa_status a = ACTIVE"
    by (rule demo_assigned)
  then show ?thesis using one_active_assignment[OF s(1) _ s(2) _ s(3)] by blast
qed

lemma released_was_approved_witness:
  "\<exists>s s1 s2 s3. service_reachable kdemo s \<and> stage_in s ''w'' = Some STAGE_REVIEW \<and> stage_in s3 ''w'' = Some STAGE_RELEASED
    \<and> (\<exists>u \<in> set [s1, s2, s3]. stage_in u ''w'' = Some APPROVAL)"
proof -
  obtain s w1 s1 w2 s2 w3 s3 where s: "service_reachable kdemo s" "stage_in s ''w'' = Some STAGE_REVIEW"
    "approve_work kdemo ''w'' s = (Inr w1, s1)" "complete_work kdemo ''w'' s1 = (Inr w2, s2)"
    "release_work kdemo ''w'' s2 = (Inr w3, s3)" "stage_in s3 ''w'' = Some STAGE_RELEASED"
    by (rule demo_delivered)
  have "service_history kdemo s [s1, s2, s3]"
    using s(3-5) by (auto intro: service_call.intros)
  from released_was_approved[OF s(1) this, of "''w''"] s(1,2,6) show ?thesis by (metis option.inject last.simps list.discI
      insert_iff empty_iff workflow_stage.distinct)
qed

lemma event_log_append_only_witness: "\<exists>new. b_store (k_bus submitted) = b_store (k_bus staffed) @ new"
proof -
  have "validate_request demo_request = Inr ()" by code_simp
  then have "service_call kdemo staffed submitted"
    unfolding submitted_def by (rule service_call.submit[OF _ surjective_pairing])
  then show ?thesis by (rule event_log_append_only[OF demo_reachable(1)])
qed

lemma event_streams_consistent_witness:
  "\<exists>es. list_events_for_aggregate ''AGENT'' ''ada'' (b_store (k_bus staffed)) = Inr es \<and> es \<noteq> []
    \<and> map re_sequence es = map (\<lambda>n. int n + 1) [0..<length es]"
proof -
  have "case list_events_for_aggregate ''AGENT'' ''ada'' (b_store (k_bus staffed)) of Inl e \<Rightarrow> False | Inr es \<Rightarrow> es \<noteq> []"
    by code_simp
  then obtain es where es: "list_events_for_aggregate ''AGENT'' ''ada'' (b_store (k_bus staffed)) = Inr es" "es \<noteq> []"
    by (auto split: sum.splits)
  then show ?thesis using event_streams_consistent[OF demo_reachable(1) es(1)] by blast
qed

end
