(* ===== verification/Coding_Agents.thy ===== *)
theory Coding_Agents
  imports Events
begin

section \<open>Coding agents\<close>

text \<open>
  \<^verbatim>\<open>runtime/coding_agents\<close>: the requests, the progress and the results a coding agent exchanges with the
  runtime, the registry of providers, the deterministic provider, and the service that runs a request
  on a chosen provider. A provider is an object of any type; what the program calls of it is a record of
  methods (the protocol of \<^verbatim>\<open>contracts.py\<close>), of which the deterministic provider is one. A method that
  submits or cancels is told the reading of the wall clock it makes. The exceptions of the external
  task service are declared here as well.
\<close>

datatype texn =
    Runtime_Error kexn
  | DuplicateCodingAgentProviderError | CodingAgentProviderNotFoundError | CodingAgentProviderUnavailableError
  | NoCompatibleCodingAgentProviderError | CodingAgentTaskError
  | ExternalTaskNotFoundError | InvalidExternalTaskTransitionError | ApprovalPolicyError
  | Task_ValueError | Task_KeyError
  | Provider_Raised string | Workspace_Raised string

subsection \<open>What is exchanged\<close>

datatype coding_status = CA_SUCCEEDED | CA_FAILED_RETRYABLE | CA_FAILED_PERMANENT | CA_TIMED_OUT | CA_CANCELLED

fun coding_status_value :: "coding_status \<Rightarrow> string" where
  "coding_status_value CA_SUCCEEDED = ''SUCCEEDED''"
| "coding_status_value CA_FAILED_RETRYABLE = ''FAILED_RETRYABLE''"
| "coding_status_value CA_FAILED_PERMANENT = ''FAILED_PERMANENT''"
| "coding_status_value CA_TIMED_OUT = ''TIMED_OUT''"
| "coding_status_value CA_CANCELLED = ''CANCELLED''"

record coding_request =
  cr_task_id :: string
  cr_project_id :: string
  cr_repository_reference :: string
  cr_workspace_reference :: string
  cr_branch :: string
  cr_objective :: string
  cr_constraints :: "string list"
  cr_acceptance_criteria :: "string list"
  cr_allowed_commands :: "string list"
  cr_allowed_paths :: "string list"
  cr_correlation_id :: string
  cr_timeout_seconds :: int
  cr_provider_configuration :: "string option"

record coding_progress =
  cg_task_id :: string
  cg_sequence :: int
  cg_stage :: string
  cg_message :: string
  cg_timestamp :: datetime
  cg_artifacts :: "string list"

record coding_result =
  co_task_id :: string
  co_provider_task_id :: string
  co_status :: coding_status
  co_summary :: string
  co_changed_paths :: "string list"
  co_commit_sha :: "string option"
  co_test_results :: "string list"
  co_artifacts :: "string list"
  co_failure_code :: "string option"
  co_started_at :: datetime
  co_completed_at :: datetime

subsection \<open>Providers and their registry\<close>

record 'p coding_methods =
  cp_priority :: "'p \<Rightarrow> int"
  cp_capabilities :: "'p \<Rightarrow> string list"
  cp_available :: "'p \<Rightarrow> bool"
  cp_submit :: "coding_request \<Rightarrow> datetime \<Rightarrow> ('p, texn, string) sx"
  cp_progress :: "string \<Rightarrow> ('p, texn, coding_progress list) sx"
  cp_result :: "string \<Rightarrow> ('p, texn, coding_result) sx"

type_synonym 'p coding_registry = "(string, 'p) dict"

definition register_coding_provider :: "string \<Rightarrow> 'p \<Rightarrow> ('p coding_registry, texn, 'p) sx" where
  "register_coding_provider i p =
     bnd (gets (\<lambda>d. i \<in> set (dkeys d))) (\<lambda>dup.
     bnd (require (\<not> dup) DuplicateCodingAgentProviderError) (\<lambda>_.
     bnd (upd (dset i p)) (\<lambda>_. ok p)))"

definition remove_coding_provider :: "string \<Rightarrow> ('p coding_registry, texn, 'p) sx" where
  "remove_coding_provider i =
     bnd (gets (\<lambda>d. map_of d i)) (\<lambda>p.
     case p of None \<Rightarrow> fail CodingAgentProviderNotFoundError
     | Some p \<Rightarrow> bnd (upd (ddel i)) (\<lambda>_. ok p))"

definition get_coding_provider :: "'p coding_methods \<Rightarrow> string option \<Rightarrow> 'p coding_registry \<Rightarrow> texn + string" where
  "get_coding_provider P i d =
     (case i of None \<Rightarrow> Inl CodingAgentProviderNotFoundError
      | Some i \<Rightarrow>
         (case map_of d i of
            None \<Rightarrow> Inl CodingAgentProviderNotFoundError
          | Some p \<Rightarrow> if cp_available P p then Inr i else Inl CodingAgentProviderUnavailableError))"

definition list_coding_providers :: "'p coding_methods \<Rightarrow> 'p coding_registry \<Rightarrow> (string \<times> 'p) list" where
  "list_coding_providers P d = sort_key (\<lambda>(i, p). (cp_priority P p, i)) d"

definition serves :: "'p coding_methods \<Rightarrow> string list \<Rightarrow> 'p \<Rightarrow> bool" where
  "serves P caps p \<longleftrightarrow> cp_available P p \<and> list_all (\<lambda>c. c \<in> set (cp_capabilities P p)) caps"

definition choose_compatible_provider :: "'p coding_methods \<Rightarrow> string list \<Rightarrow> 'p coding_registry \<Rightarrow> texn + string" where
  "choose_compatible_provider P caps d =
     (case List.find (\<lambda>(i, p). serves P caps p) (list_coding_providers P d) of
        None \<Rightarrow> Inl NoCompatibleCodingAgentProviderError | Some (i, p) \<Rightarrow> Inr i)"

text \<open>A method called on the provider that is registered under an identifier.\<close>

definition call_provider :: "string \<Rightarrow> ('p, texn, 'a) sx \<Rightarrow> ('p coding_registry, texn, 'a) sx" where
  "call_provider i m d =
     (case map_of d i of
        None \<Rightarrow> (Inl CodingAgentProviderNotFoundError, d)
      | Some p \<Rightarrow> (case m p of (r, p') \<Rightarrow> (r, dset i p' d)))"

subsection \<open>The deterministic provider\<close>

record det_agent =
  da_provider_id :: string
  da_priority :: int
  da_capabilities :: "string list"
  da_outcomes :: "coding_status list"
  da_available :: bool
  da_tasks :: "(string, coding_progress list \<times> coding_result) dict"

definition det_agent_submit :: "coding_request \<Rightarrow> datetime \<Rightarrow> (det_agent, texn, string) sx" where
  "det_agent_submit rq t =
     bnd (gets (\<lambda>p. da_provider_id p @ '':'' @ cr_task_id rq @ '':'' @ nat_str (length (da_tasks p) + 1))) (\<lambda>i.
     bnd (gets (\<lambda>p. case da_outcomes p of [] \<Rightarrow> CA_SUCCEEDED | st # sts \<Rightarrow> st)) (\<lambda>st.
     bnd (upd (\<lambda>p. p\<lparr>da_outcomes := tl (da_outcomes p)\<rparr>)) (\<lambda>_.
     let progress = [
           \<lparr>cg_task_id = cr_task_id rq, cg_sequence = 1, cg_stage = ''ANALYSIS'', cg_message = ''Task accepted'',
            cg_timestamp = t, cg_artifacts = []\<rparr>,
           \<lparr>cg_task_id = cr_task_id rq, cg_sequence = 2, cg_stage = ''TEST'', cg_message = ''Checks recorded'',
            cg_timestamp = t, cg_artifacts = []\<rparr>];
         result = \<lparr>co_task_id = cr_task_id rq, co_provider_task_id = i, co_status = st,
           co_summary = ''Deterministic task result'',
           co_changed_paths = (if st = CA_SUCCEEDED then [''change.txt''] else []), co_commit_sha = None,
           co_test_results = [''deterministic checks''], co_artifacts = [],
           co_failure_code = (if st = CA_SUCCEEDED then None else Some (coding_status_value st)),
           co_started_at = t, co_completed_at = t\<rparr> in
     bnd (upd (\<lambda>p. p\<lparr>da_tasks := dset i (progress, result) (da_tasks p)\<rparr>)) (\<lambda>_. ok i))))"

definition det_agent_entry :: "string \<Rightarrow> (det_agent, texn, coding_progress list \<times> coding_result) sx" where
  "det_agent_entry i p = (case map_of (da_tasks p) i of None \<Rightarrow> (Inl CodingAgentTaskError, p) | Some e \<Rightarrow> (Inr e, p))"

definition det_agent_progress :: "string \<Rightarrow> (det_agent, texn, coding_progress list) sx" where
  "det_agent_progress i = bnd (det_agent_entry i) (\<lambda>(pr, r). ok pr)"

definition det_agent_result :: "string \<Rightarrow> (det_agent, texn, coding_result) sx" where
  "det_agent_result i = bnd (det_agent_entry i) (\<lambda>(pr, r). ok r)"

definition det_agent_status :: "string \<Rightarrow> (det_agent, texn, coding_status) sx" where
  "det_agent_status i = bnd (det_agent_result i) (\<lambda>r. ok (co_status r))"

definition det_agent_cancel :: "string \<Rightarrow> datetime \<Rightarrow> (det_agent, texn, unit) sx" where
  "det_agent_cancel i t =
     bnd (det_agent_entry i) (\<lambda>(pr, r).
     upd (\<lambda>p. p\<lparr>da_tasks := dset i (pr,
       \<lparr>co_task_id = co_task_id r, co_provider_task_id = co_provider_task_id r, co_status = CA_CANCELLED,
        co_summary = ''Cancelled'', co_changed_paths = [], co_commit_sha = None, co_test_results = [],
        co_artifacts = [], co_failure_code = Some ''CANCELLED'', co_started_at = co_started_at r,
        co_completed_at = t\<rparr>) (da_tasks p)\<rparr>))"

definition det_agent_methods :: "det_agent coding_methods" where
  "det_agent_methods = \<lparr>cp_priority = da_priority, cp_capabilities = da_capabilities, cp_available = da_available,
     cp_submit = det_agent_submit, cp_progress = det_agent_progress, cp_result = det_agent_result\<rparr>"

subsection \<open>Running a request\<close>

text \<open>\<open>enumerate(progress, start=1)\<close>: the entries are of the task and numbered from one.\<close>

fun progress_from :: "string \<Rightarrow> int \<Rightarrow> coding_progress list \<Rightarrow> bool" where
  "progress_from tid n [] = True"
| "progress_from tid n (g # gs) = (cg_task_id g = tid \<and> cg_sequence g = n \<and> progress_from tid (n + 1) gs)"

definition validate_progress :: "string \<Rightarrow> coding_progress list \<Rightarrow> texn + unit" where
  "validate_progress tid gs = check (progress_from tid 1 gs) Task_ValueError"

definition coding_execute ::
    "'p coding_methods \<Rightarrow> coding_request \<Rightarrow> string list \<Rightarrow> datetime \<Rightarrow>
     ('p coding_registry, texn, string \<times> string \<times> coding_progress list \<times> coding_result) sx" where
  "coding_execute P rq caps t =
     bnd (gets (choose_compatible_provider P caps)) (\<lambda>chosen.
     bnd (of_sum chosen) (\<lambda>i.
     bnd (call_provider i (cp_submit P rq t)) (\<lambda>ptid.
     bnd (call_provider i (cp_progress P ptid)) (\<lambda>gs.
     bnd (of_sum (validate_progress (cr_task_id rq) gs)) (\<lambda>_.
     bnd (call_provider i (cp_result P ptid)) (\<lambda>r.
     bnd (require (co_task_id r = cr_task_id rq) Task_ValueError) (\<lambda>_.
     ok (i, ptid, gs, r))))))))"

end
