(* ===== verification/External_Tasks.thy ===== *)
theory External_Tasks
  imports Coding_Agents Status_Policy
begin

section \<open>External tasks\<close>

text \<open>
  \<^verbatim>\<open>runtime/tasks\<close>: the external task service, which has coding agents work on tasks and keeps their
  review. Its state is a record of its dictionaries, of the providers of its registry, of the workspaces
  and of the event bus.

  A transaction of the publisher captures the attributes of the service (\<open>_snapshot_targets\<close> is the
  service itself, and \<^verbatim>\<open>transactions/snapshot.py\<close> copies attributes, not what they hold): a rollback
  puts the same dictionaries back that the operation has changed in place. So \<open>tatomic\<close> gives
  back the event bus when an operation raises, and nothing else.
\<close>

subsection \<open>Tasks, decisions, operations\<close>

datatype task_status =
    TASK_CREATED | TASK_QUEUED | TASK_RUNNING | TASK_WAITING_FOR_REVIEW | TASK_CHANGES_REQUESTED | TASK_APPROVED
  | TASK_REJECTED | TASK_FAILED | TASK_CANCELLED | TASK_COMPLETED | TASK_RECONCILIATION_REQUIRED

datatype approval_status = AP_NOT_REQUESTED | AP_PENDING | AP_APPROVED | AP_REJECTED | AP_CHANGES_REQUESTED

datatype operation_status = EO_PLANNED | EO_STARTED | EO_SUCCEEDED | EO_FAILED | EO_RECONCILIATION_REQUIRED

record external_task =
  xt_task_id :: string
  xt_project_id :: string
  xt_work_item_id :: string
  xt_task_type :: string
  xt_title :: string
  xt_description :: string
  xt_provider_id :: "string option"
  xt_workspace_id :: "string option"
  xt_repository_reference :: string
  xt_base_branch :: string
  xt_working_branch :: string
  xt_status :: task_status
  xt_capabilities :: "string list"
  xt_created_at :: datetime
  xt_started_at :: "datetime option"
  xt_completed_at :: "datetime option"
  xt_failure_code :: "string option"
  xt_retry_count :: int
  xt_approval_status :: approval_status
  xt_correlation_id :: "string option"
  xt_causation_id :: "string option"
  xt_result_reference :: "string option"

record approval_decision =
  ad_task_id :: string
  ad_decision :: approval_status
  ad_approver_id :: string
  ad_reason :: string
  ad_decided_at :: datetime

record external_operation =
  eo_operation_id :: string
  eo_task_id :: string
  eo_operation_type :: string
  eo_status :: operation_status
  eo_created_at :: datetime
  eo_updated_at :: datetime
  eo_attempt :: int
  eo_failure_code :: "string option"

text \<open>\<open>ALLOWED_TRANSITIONS\<close>; a status without an entry has none.\<close>

fun allowed_transitions :: "task_status \<Rightarrow> task_status list" where
  "allowed_transitions TASK_CREATED = [TASK_QUEUED, TASK_CANCELLED]"
| "allowed_transitions TASK_QUEUED = [TASK_RUNNING, TASK_CANCELLED]"
| "allowed_transitions TASK_RUNNING =
     [TASK_WAITING_FOR_REVIEW, TASK_FAILED, TASK_CANCELLED, TASK_RECONCILIATION_REQUIRED]"
| "allowed_transitions TASK_WAITING_FOR_REVIEW = [TASK_APPROVED, TASK_REJECTED, TASK_CHANGES_REQUESTED]"
| "allowed_transitions TASK_CHANGES_REQUESTED = [TASK_QUEUED, TASK_CANCELLED]"
| "allowed_transitions TASK_APPROVED = [TASK_COMPLETED]"
| "allowed_transitions TASK_FAILED = [TASK_QUEUED, TASK_CANCELLED]"
| "allowed_transitions TASK_RECONCILIATION_REQUIRED = [TASK_RUNNING, TASK_FAILED, TASK_WAITING_FOR_REVIEW]"
| "allowed_transitions _ = []"

definition validate_task_transition :: "task_status \<Rightarrow> task_status \<Rightarrow> texn + unit" where
  "validate_task_transition a b = check (b \<in> set (allowed_transitions a)) InvalidExternalTaskTransitionError"

interpretation task_policy: status_policy allowed_transitions validate_task_transition
  by unfold_locales (simp add: validate_task_transition_def)

fun task_status_value :: "task_status \<Rightarrow> string" where
  "task_status_value TASK_CREATED = ''CREATED''"
| "task_status_value TASK_QUEUED = ''QUEUED''"
| "task_status_value TASK_RUNNING = ''RUNNING''"
| "task_status_value TASK_WAITING_FOR_REVIEW = ''WAITING_FOR_REVIEW''"
| "task_status_value TASK_CHANGES_REQUESTED = ''CHANGES_REQUESTED''"
| "task_status_value TASK_APPROVED = ''APPROVED''"
| "task_status_value TASK_REJECTED = ''REJECTED''"
| "task_status_value TASK_FAILED = ''FAILED''"
| "task_status_value TASK_CANCELLED = ''CANCELLED''"
| "task_status_value TASK_COMPLETED = ''COMPLETED''"
| "task_status_value TASK_RECONCILIATION_REQUIRED = ''RECONCILIATION_REQUIRED''"

fun approval_value :: "approval_status \<Rightarrow> string" where
  "approval_value AP_NOT_REQUESTED = ''NOT_REQUESTED''"
| "approval_value AP_PENDING = ''PENDING''"
| "approval_value AP_APPROVED = ''APPROVED''"
| "approval_value AP_REJECTED = ''REJECTED''"
| "approval_value AP_CHANGES_REQUESTED = ''CHANGES_REQUESTED''"

fun operation_value :: "operation_status \<Rightarrow> string" where
  "operation_value EO_PLANNED = ''PLANNED''"
| "operation_value EO_STARTED = ''STARTED''"
| "operation_value EO_SUCCEEDED = ''SUCCEEDED''"
| "operation_value EO_FAILED = ''FAILED''"
| "operation_value EO_RECONCILIATION_REQUIRED = ''RECONCILIATION_REQUIRED''"

text \<open>The checks of \<open>decision\<close> in \<^verbatim>\<open>approval.py\<close>.\<close>

definition validate_decision :: "approval_status \<Rightarrow> string \<Rightarrow> string \<Rightarrow> texn + unit" where
  "validate_decision st approver reason = checks [
     check (\<not> blank approver) ApprovalPolicyError,
     check (\<not> (st \<in> {AP_REJECTED, AP_CHANGES_REQUESTED} \<and> blank reason)) ApprovalPolicyError]"

subsection \<open>The service\<close>

text \<open>
  The environment: the wall clock, \<open>uuid4\<close>, the ISO text of a time and its parse, and
  \<open>create_workspace\<close> of the workspace provider, if the service has one. The provider's
  directories are outside the service: a creation is recorded, and refused with the error the provider
  raises for it.
\<close>

record tenv =
  te_kernel :: kenv
  te_uuid :: "nat \<Rightarrow> string"
  te_iso :: "datetime \<Rightarrow> string"
  te_parse :: "string \<Rightarrow> datetime option"
  te_workspaces :: "(string list \<Rightarrow> string \<Rightarrow> string option) option"

record 'p tasks =
  ts_tasks :: "(string, external_task) dict"
  ts_progress :: "(string, coding_progress list) dict"
  ts_results :: "(string, coding_result) dict"
  ts_decisions :: "(string, approval_decision list) dict"
  ts_operations :: "(string, external_operation) dict"
  ts_registry :: "'p coding_registry"
  ts_workspaces :: "string list"
  ts_uuids :: nat
  ts_eventing :: bool
  ts_bus :: bus

type_synonym ('p, 'a) top = "('p tasks, texn, 'a) sx"

definition empty_tasks :: "'p coding_registry \<Rightarrow> bool \<Rightarrow> 'p tasks" where
  "empty_tasks reg eventing = \<lparr>ts_tasks = [], ts_progress = [], ts_results = [], ts_decisions = [],
     ts_operations = [], ts_registry = reg, ts_workspaces = [], ts_uuids = 0, ts_eventing = eventing, ts_bus = empty_bus\<rparr>"

definition runtime_error :: "kexn + 'a \<Rightarrow> texn + 'a" where
  "runtime_error r = (case r of Inl e \<Rightarrow> Inl (Runtime_Error e) | Inr x \<Rightarrow> Inr x)"

definition on_task_bus :: "'a bop \<Rightarrow> ('p, 'a) top" where
  "on_task_bus m s = (case m (ts_bus s) of (r, b) \<Rightarrow> (runtime_error r, s\<lparr>ts_bus := b\<rparr>))"

definition task_now :: "tenv \<Rightarrow> ('p, datetime) top" where
  "task_now E = on_task_bus (tick (te_kernel E))"

definition on_registry :: "('p coding_registry, texn, 'a) sx \<Rightarrow> ('p, 'a) top" where
  "on_registry = zoom ts_registry (\<lambda>d s. s\<lparr>ts_registry := d\<rparr>)"

definition get_task :: "string \<Rightarrow> ('p, external_task) top" where
  "get_task tid =
     bnd (gets (\<lambda>s. map_of (ts_tasks s) tid)) (\<lambda>t.
     case t of None \<Rightarrow> fail ExternalTaskNotFoundError | Some t \<Rightarrow> ok t)"

text \<open>An assignment to an attribute of the task object, or of the operation object.\<close>

definition put_task :: "string \<Rightarrow> (external_task \<Rightarrow> external_task) \<Rightarrow> ('p, unit) top" where
  "put_task tid f = upd (\<lambda>s. s\<lparr>ts_tasks :=
     (case map_of (ts_tasks s) tid of None \<Rightarrow> ts_tasks s | Some t \<Rightarrow> dset tid (f t) (ts_tasks s))\<rparr>)"

definition put_task_operation :: "string \<Rightarrow> (external_operation \<Rightarrow> external_operation) \<Rightarrow> ('p, unit) top" where
  "put_task_operation oid f = upd (\<lambda>s. s\<lparr>ts_operations :=
     (case map_of (ts_operations s) oid of None \<Rightarrow> ts_operations s | Some x \<Rightarrow> dset oid (f x) (ts_operations s))\<rparr>)"

definition list_tasks :: "'p tasks \<Rightarrow> external_task list" where
  "list_tasks s = dvals (ts_tasks s)"

definition list_progress :: "string \<Rightarrow> 'p tasks \<Rightarrow> coding_progress list" where
  "list_progress tid s = (case map_of (ts_progress s) tid of None \<Rightarrow> [] | Some gs \<Rightarrow> gs)"

definition get_task_result :: "string \<Rightarrow> 'p tasks \<Rightarrow> coding_result option" where
  "get_task_result tid s = map_of (ts_results s) tid"

definition list_decisions :: "string \<Rightarrow> 'p tasks \<Rightarrow> approval_decision list" where
  "list_decisions tid s = (case map_of (ts_decisions s) tid of None \<Rightarrow> [] | Some ds \<Rightarrow> ds)"

definition list_task_operations :: "string option \<Rightarrow> 'p tasks \<Rightarrow> external_operation list" where
  "list_task_operations tid s =
     filter (\<lambda>x. case tid of None \<Rightarrow> True | Some i \<Rightarrow> eo_task_id x = i) (dvals (ts_operations s))"

subsection \<open>Events and transactions\<close>

text \<open>\<open>_emit\<close>: the payload and the correlation are those of the task at that moment.\<close>

definition emit_task :: "tenv \<Rightarrow> string \<Rightarrow> string \<Rightarrow> (external_task \<Rightarrow> json) \<Rightarrow> ('p, unit) top" where
  "emit_task E et tid pl =
     bnd (get_task tid) (\<lambda>t.
     bnd (gets ts_eventing) (\<lambda>eventing.
     if eventing
     then bnd (on_task_bus (publish (te_kernel E) et ''external-task'' (xt_task_id t) (pl t)
            (xt_correlation_id t) (xt_causation_id t) None)) (\<lambda>_. ok ())
     else ok ()))"

definition status_payload :: "external_task \<Rightarrow> json" where
  "status_payload t = JObj [(''status'', JStr (task_status_value (xt_status t)))]"

definition operation_payload :: "string \<Rightarrow> external_task \<Rightarrow> json" where
  "operation_payload oid t = JObj [(''operation_id'', JStr oid)]"

definition bus_rolled_back :: "'p tasks \<Rightarrow> 'p tasks \<Rightarrow> 'p tasks" where
  "bus_rolled_back s t = t\<lparr>ts_bus := (ts_bus s)\<lparr>b_ticks := b_ticks (ts_bus t)\<rparr>\<rparr>"

text \<open>
  \<open>_atomic\<close>, and the decorator: no operation it is put on raises the error of a recorded failed
  execution, which it would commit.
\<close>

definition tatomic :: "('p, 'a) top \<Rightarrow> ('p, 'a) top" where
  "tatomic m s =
     (if \<not> ts_eventing s \<or> b_tx (ts_bus s) \<noteq> None then m s
      else case m (s\<lparr>ts_bus := (ts_bus s)\<lparr>b_tx := Some []\<rparr>\<rparr>) of (r, t) \<Rightarrow>
        (case r of
           Inl e \<Rightarrow> (Inl e, bus_rolled_back s t)
         | Inr x \<Rightarrow>
             (case add_events (staged (ts_bus t)) (b_store (ts_bus t)) of
                Inl e \<Rightarrow> (Inl (Runtime_Error TransactionCommitError), bus_rolled_back s t)
              | Inr st \<Rightarrow> (Inr x, t\<lparr>ts_bus := (ts_bus t)\<lparr>b_store := st, b_tx := None\<rparr>\<rparr>))))"

definition transition :: "string \<Rightarrow> task_status \<Rightarrow> ('p, unit) top" where
  "transition tid st =
     bnd (get_task tid) (\<lambda>t.
     bnd (of_sum (validate_task_transition (xt_status t) st)) (\<lambda>_.
     put_task tid (\<lambda>t. t\<lparr>xt_status := st\<rparr>)))"

subsection \<open>Creating and queueing\<close>

record task_values =
  tv_task_id :: string
  tv_project_id :: string
  tv_work_item_id :: string
  tv_task_type :: "string option"
  tv_title :: string
  tv_description :: string
  tv_repository_reference :: string
  tv_base_branch :: "string option"
  tv_working_branch :: string
  tv_capabilities :: "string list option"
  tv_correlation_id :: "string option"
  tv_causation_id :: "string option"

definition new_task :: "task_values \<Rightarrow> datetime \<Rightarrow> external_task" where
  "new_task v t = \<lparr>xt_task_id = tv_task_id v, xt_project_id = tv_project_id v, xt_work_item_id = tv_work_item_id v,
     xt_task_type = (case tv_task_type v of None \<Rightarrow> ''CODING'' | Some x \<Rightarrow> x), xt_title = tv_title v,
     xt_description = tv_description v, xt_provider_id = None, xt_workspace_id = None,
     xt_repository_reference = tv_repository_reference v,
     xt_base_branch = (case tv_base_branch v of None \<Rightarrow> ''main'' | Some x \<Rightarrow> x), xt_working_branch = tv_working_branch v,
     xt_status = TASK_CREATED, xt_capabilities = (case tv_capabilities v of None \<Rightarrow> [] | Some cs \<Rightarrow> cs),
     xt_created_at = t, xt_started_at = None, xt_completed_at = None, xt_failure_code = None, xt_retry_count = 0,
     xt_approval_status = AP_NOT_REQUESTED, xt_correlation_id = tv_correlation_id v,
     xt_causation_id = tv_causation_id v, xt_result_reference = None\<rparr>"

definition create_task :: "tenv \<Rightarrow> task_values \<Rightarrow> ('p, external_task) top" where
  "create_task E v = tatomic (
     bnd (gets (\<lambda>s. tv_task_id v \<in> set (dkeys (ts_tasks s)))) (\<lambda>dup.
     bnd (require (\<not> dup) InvalidExternalTaskTransitionError) (\<lambda>_.
     bnd (task_now E) (\<lambda>t.
     bnd (upd (\<lambda>s. s\<lparr>ts_tasks := dset (tv_task_id v) (new_task v t) (ts_tasks s)\<rparr>)) (\<lambda>_.
     bnd (emit_task E ''EXTERNAL_TASK_CREATED'' (tv_task_id v) status_payload) (\<lambda>_.
     get_task (tv_task_id v)))))))"

definition create_workspace :: "tenv \<Rightarrow> string \<Rightarrow> ('p, unit) top" where
  "create_workspace E w =
     (case te_workspaces E of
        None \<Rightarrow> ok ()
      | Some create \<Rightarrow>
          bnd (gets (\<lambda>s. create (ts_workspaces s) w)) (\<lambda>refused.
          case refused of
            Some e \<Rightarrow> fail (Workspace_Raised e)
          | None \<Rightarrow> upd (\<lambda>s. s\<lparr>ts_workspaces := ts_workspaces s @ [w]\<rparr>)))"

definition queue_task :: "tenv \<Rightarrow> 'p coding_methods \<Rightarrow> string \<Rightarrow> ('p, external_task) top" where
  "queue_task E P tid = tatomic (
     bnd (get_task tid) (\<lambda>t.
     bnd (gets (\<lambda>s. choose_compatible_provider P (xt_capabilities t) (ts_registry s))) (\<lambda>chosen.
     bnd (of_sum chosen) (\<lambda>pid.
     bnd (put_task tid (\<lambda>t. t\<lparr>xt_provider_id := Some pid\<rparr>)) (\<lambda>_.
     bnd (if te_workspaces E \<noteq> None \<and> xt_workspace_id t = None
          then bnd (put_task tid (\<lambda>t. t\<lparr>xt_workspace_id := Some (''task-'' @ xt_task_id t)\<rparr>)) (\<lambda>_.
               create_workspace E (''task-'' @ xt_task_id t))
          else ok ()) (\<lambda>_.
     bnd (transition tid TASK_QUEUED) (\<lambda>_.
     bnd (emit_task E ''EXTERNAL_TASK_PROVIDER_SELECTED'' tid (\<lambda>t. JObj [(''provider_id'', JStr pid)])) (\<lambda>_.
     bnd (emit_task E ''EXTERNAL_TASK_QUEUED'' tid status_payload) (\<lambda>_.
     get_task tid)))))))))"

subsection \<open>Execution\<close>

text \<open>The intent: recorded before the provider is called.\<close>

definition start_operation :: "tenv \<Rightarrow> string \<Rightarrow> ('p, string) top" where
  "start_operation E tid =
     bnd (get_task tid) (\<lambda>x.
     bnd (transition tid TASK_RUNNING) (\<lambda>_.
     bnd (task_now E) (\<lambda>t.
     bnd (put_task tid (\<lambda>x. x\<lparr>xt_started_at := Some t\<rparr>)) (\<lambda>_.
     bnd (emit_task E ''EXTERNAL_TASK_STARTED'' tid status_payload) (\<lambda>_.
     bnd (task_now E) (\<lambda>u.
     bnd (gets (\<lambda>s. te_uuid E (ts_uuids s))) (\<lambda>oid.
     bnd (upd (\<lambda>s. s\<lparr>ts_uuids := Suc (ts_uuids s), ts_operations := dset oid
       \<lparr>eo_operation_id = oid, eo_task_id = xt_task_id x, eo_operation_type = ''CODING_AGENT_SUBMIT'', eo_status = EO_PLANNED,
        eo_created_at = u, eo_updated_at = u, eo_attempt = 1, eo_failure_code = None\<rparr> (ts_operations s)\<rparr>)) (\<lambda>_.
     bnd (emit_task E ''EXTERNAL_OPERATION_PLANNED'' tid (operation_payload oid)) (\<lambda>_.
     bnd (put_task_operation oid (\<lambda>x. x\<lparr>eo_status := EO_STARTED\<rparr>)) (\<lambda>_.
     bnd (task_now E) (\<lambda>v.
     bnd (put_task_operation oid (\<lambda>x. x\<lparr>eo_updated_at := v\<rparr>)) (\<lambda>_.
     bnd (emit_task E ''EXTERNAL_OPERATION_STARTED'' tid (operation_payload oid)) (\<lambda>_.
     ok oid)))))))))))))"

definition call_agent ::
    "tenv \<Rightarrow> 'p coding_methods \<Rightarrow> string \<Rightarrow> coding_request \<Rightarrow>
     ('p, string \<times> coding_progress list \<times> coding_result) top" where
  "call_agent E P tid rq =
     bnd (get_task tid) (\<lambda>t.
     bnd (gets (\<lambda>s. get_coding_provider P (xt_provider_id t) (ts_registry s))) (\<lambda>found.
     bnd (of_sum found) (\<lambda>pid.
     bnd (task_now E) (\<lambda>now.
     bnd (on_registry (call_provider pid (cp_submit P rq now))) (\<lambda>ptid.
     bnd (on_registry (call_provider pid (cp_progress P ptid))) (\<lambda>gs.
     bnd (on_registry (call_provider pid (cp_result P ptid))) (\<lambda>r.
     bnd (of_sum (validate_progress tid gs)) (\<lambda>_.
     bnd (require (co_task_id r = tid) Task_ValueError) (\<lambda>_.
     ok (ptid, gs, r))))))))))"

definition record_uncertain :: "tenv \<Rightarrow> string \<Rightarrow> string \<Rightarrow> ('p, unit) top" where
  "record_uncertain E tid oid = tatomic (
     bnd (put_task_operation oid (\<lambda>x. x\<lparr>eo_status := EO_RECONCILIATION_REQUIRED\<rparr>)) (\<lambda>_.
     bnd (task_now E) (\<lambda>t.
     bnd (put_task_operation oid (\<lambda>x. x\<lparr>eo_updated_at := t\<rparr>)) (\<lambda>_.
     bnd (put_task tid (\<lambda>x. x\<lparr>xt_status := TASK_RECONCILIATION_REQUIRED\<rparr>)) (\<lambda>_.
     emit_task E ''EXTERNAL_OPERATION_RECONCILIATION_REQUIRED'' tid (operation_payload oid))))))"

fun emit_progress :: "tenv \<Rightarrow> string \<Rightarrow> coding_progress list \<Rightarrow> ('p, unit) top" where
  "emit_progress E tid [] = ok ()"
| "emit_progress E tid (g # gs) =
     bnd (emit_task E ''EXTERNAL_TASK_PROGRESS_RECORDED'' tid
       (\<lambda>t. JObj [(''sequence'', JInt (cg_sequence g)), (''stage'', JStr (cg_stage g))])) (\<lambda>_.
     emit_progress E tid gs)"

definition json_text :: "string option \<Rightarrow> json" where
  "json_text x = (case x of None \<Rightarrow> JNull | Some v \<Rightarrow> JStr v)"

definition record_outcome ::
    "tenv \<Rightarrow> string \<Rightarrow> string \<Rightarrow> string \<Rightarrow> coding_progress list \<Rightarrow> coding_result \<Rightarrow> ('p, unit) top" where
  "record_outcome E tid oid ptid gs r = tatomic (
     bnd (upd (\<lambda>s. s\<lparr>ts_progress := dset tid gs (ts_progress s)\<rparr>)) (\<lambda>_.
     bnd (emit_progress E tid gs) (\<lambda>_.
     bnd (upd (\<lambda>s. s\<lparr>ts_results := dset tid r (ts_results s)\<rparr>)) (\<lambda>_.
     bnd (put_task_operation oid (\<lambda>x. x\<lparr>eo_status := EO_SUCCEEDED\<rparr>)) (\<lambda>_.
     bnd (task_now E) (\<lambda>t.
     bnd (put_task_operation oid (\<lambda>x. x\<lparr>eo_updated_at := t\<rparr>)) (\<lambda>_.
     bnd (emit_task E ''EXTERNAL_OPERATION_SUCCEEDED'' tid (operation_payload oid)) (\<lambda>_.
     if co_status r = CA_SUCCEEDED
     then put_task tid (\<lambda>x. x\<lparr>xt_result_reference := Some ptid\<rparr>)
     else
       bnd (put_task tid (\<lambda>x. x\<lparr>xt_failure_code := co_failure_code r\<rparr>)) (\<lambda>_.
       bnd (transition tid TASK_FAILED) (\<lambda>_.
       emit_task E ''EXTERNAL_TASK_FAILED'' tid
         (\<lambda>t. JObj [(''failure_code'', json_text (xt_failure_code t))])))))))))))"

definition execute_task ::
    "tenv \<Rightarrow> 'p coding_methods \<Rightarrow> string \<Rightarrow> coding_request \<Rightarrow> ('p, coding_result) top" where
  "execute_task E P tid rq =
     bnd (get_task tid) (\<lambda>_.
     bnd (tatomic (start_operation E tid)) (\<lambda>oid.
     bnd (catch (call_agent E P tid rq) (\<lambda>e. bnd (record_uncertain E tid oid) (\<lambda>_. fail e))) (\<lambda>(ptid, gs, r).
     bnd (record_outcome E tid oid ptid gs r) (\<lambda>_. ok r))))"

subsection \<open>Review, retry, completion\<close>

definition request_review :: "tenv \<Rightarrow> string \<Rightarrow> ('p, external_task) top" where
  "request_review E tid = tatomic (
     bnd (get_task tid) (\<lambda>t.
     bnd (require (xt_status t = TASK_RUNNING \<and> xt_result_reference t \<noteq> None)
       InvalidExternalTaskTransitionError) (\<lambda>_.
     bnd (put_task tid (\<lambda>x. x\<lparr>xt_approval_status := AP_PENDING\<rparr>)) (\<lambda>_.
     bnd (transition tid TASK_WAITING_FOR_REVIEW) (\<lambda>_.
     bnd (emit_task E ''EXTERNAL_TASK_REVIEW_REQUESTED'' tid status_payload) (\<lambda>_.
     get_task tid))))))"

definition retry_task :: "tenv \<Rightarrow> string \<Rightarrow> ('p, external_task) top" where
  "retry_task E tid = tatomic (
     bnd (get_task tid) (\<lambda>t.
     bnd (require (xt_status t \<in> {TASK_FAILED, TASK_CHANGES_REQUESTED}) InvalidExternalTaskTransitionError) (\<lambda>_.
     bnd (gets (get_task_result tid)) (\<lambda>r.
     bnd (require (\<not> (xt_status t = TASK_FAILED
         \<and> (case r of None \<Rightarrow> True | Some x \<Rightarrow> co_status x \<noteq> CA_FAILED_RETRYABLE)))
       InvalidExternalTaskTransitionError) (\<lambda>_.
     bnd (put_task tid (\<lambda>x. x\<lparr>xt_retry_count := xt_retry_count x + 1\<rparr>)) (\<lambda>_.
     bnd (transition tid TASK_QUEUED) (\<lambda>_.
     bnd (emit_task E ''EXTERNAL_TASK_RETRY_REQUESTED'' tid
       (\<lambda>t. JObj [(''retry_count'', JInt (xt_retry_count t))])) (\<lambda>_.
     get_task tid))))))))"

text \<open>\<open>self._decisions.setdefault(task_id, []).append(item)\<close>.\<close>

definition add_decision :: "string \<Rightarrow> approval_decision \<Rightarrow> (string, approval_decision list) dict \<Rightarrow>
    (string, approval_decision list) dict" where
  "add_decision tid x d = dset tid ((case map_of d tid of None \<Rightarrow> [] | Some xs \<Rightarrow> xs) @ [x]) d"

definition record_decision ::
    "tenv \<Rightarrow> string \<Rightarrow> approval_status \<Rightarrow> string \<Rightarrow> string \<Rightarrow> ('p, approval_decision) top" where
  "record_decision E tid approval approver reason =
     bnd (of_sum (validate_decision approval approver reason)) (\<lambda>_.
     bnd (task_now E) (\<lambda>t.
     let x = \<lparr>ad_task_id = tid, ad_decision = approval, ad_approver_id = approver, ad_reason = reason, ad_decided_at = t\<rparr> in
     bnd (upd (\<lambda>s. s\<lparr>ts_decisions := add_decision tid x (ts_decisions s)\<rparr>)) (\<lambda>_.
     bnd (put_task tid (\<lambda>x. x\<lparr>xt_approval_status := approval\<rparr>)) (\<lambda>_. ok x))))"

definition approve_task :: "tenv \<Rightarrow> string \<Rightarrow> string \<Rightarrow> string \<Rightarrow> ('p, approval_decision) top" where
  "approve_task E tid approver reason = tatomic (
     bnd (get_task tid) (\<lambda>t.
     bnd (require (xt_status t = TASK_WAITING_FOR_REVIEW) ApprovalPolicyError) (\<lambda>_.
     bnd (require (Some approver \<noteq> xt_provider_id t) ApprovalPolicyError) (\<lambda>_.
     bnd (record_decision E tid AP_APPROVED approver reason) (\<lambda>x.
     bnd (transition tid TASK_APPROVED) (\<lambda>_.
     bnd (emit_task E ''EXTERNAL_TASK_APPROVED'' tid (\<lambda>t. JObj [(''approver_id'', JStr approver)])) (\<lambda>_.
     ok x)))))))"

definition review_decision ::
    "tenv \<Rightarrow> string \<Rightarrow> string \<Rightarrow> string \<Rightarrow> approval_status \<Rightarrow> task_status \<Rightarrow> string \<Rightarrow> ('p, approval_decision) top" where
  "review_decision E tid approver reason approval st ev =
     bnd (get_task tid) (\<lambda>t.
     bnd (require (xt_status t = TASK_WAITING_FOR_REVIEW) ApprovalPolicyError) (\<lambda>_.
     bnd (record_decision E tid approval approver reason) (\<lambda>x.
     bnd (transition tid st) (\<lambda>_.
     bnd (emit_task E ev tid (\<lambda>t. JObj [(''approver_id'', JStr approver), (''reason'', JStr reason)])) (\<lambda>_.
     ok x)))))"

definition reject_task :: "tenv \<Rightarrow> string \<Rightarrow> string \<Rightarrow> string \<Rightarrow> ('p, approval_decision) top" where
  "reject_task E tid approver reason =
     tatomic (review_decision E tid approver reason AP_REJECTED TASK_REJECTED ''EXTERNAL_TASK_REJECTED'')"

definition request_changes :: "tenv \<Rightarrow> string \<Rightarrow> string \<Rightarrow> string \<Rightarrow> ('p, approval_decision) top" where
  "request_changes E tid approver reason =
     tatomic (review_decision E tid approver reason AP_CHANGES_REQUESTED TASK_CHANGES_REQUESTED
       ''EXTERNAL_TASK_CHANGES_REQUESTED'')"

definition complete_task :: "tenv \<Rightarrow> string \<Rightarrow> ('p, external_task) top" where
  "complete_task E tid = tatomic (
     bnd (get_task tid) (\<lambda>_.
     bnd (transition tid TASK_COMPLETED) (\<lambda>_.
     bnd (task_now E) (\<lambda>t.
     bnd (put_task tid (\<lambda>x. x\<lparr>xt_completed_at := Some t\<rparr>)) (\<lambda>_.
     bnd (emit_task E ''EXTERNAL_TASK_COMPLETED'' tid status_payload) (\<lambda>_.
     get_task tid))))))"

definition cancel_task :: "tenv \<Rightarrow> string \<Rightarrow> ('p, external_task) top" where
  "cancel_task E tid = tatomic (
     bnd (get_task tid) (\<lambda>_.
     bnd (transition tid TASK_CANCELLED) (\<lambda>_.
     bnd (emit_task E ''EXTERNAL_TASK_CANCELLED'' tid status_payload) (\<lambda>_.
     get_task tid))))"

subsection \<open>Snapshots\<close>

text \<open>
  The values of a snapshot are read back as the types that \<open>snapshot\<close> writes: a missing key raises
  a key error, and a value of another type a value error.
\<close>

definition and_then :: "'e + 'a \<Rightarrow> ('a \<Rightarrow> 'e + 'b) \<Rightarrow> 'e + 'b" where
  "and_then r f = (case r of Inl e \<Rightarrow> Inl e | Inr x \<Rightarrow> f x)"

definition field :: "string \<Rightarrow> json \<Rightarrow> texn + json" where
  "field k v = (case jget k v of None \<Rightarrow> Inl Task_KeyError | Some x \<Rightarrow> Inr x)"

fun as_text :: "json \<Rightarrow> texn + string" where
  "as_text (JStr x) = Inr x"
| "as_text _ = Inl Task_ValueError"

fun as_int :: "json \<Rightarrow> texn + int" where
  "as_int (JInt n) = Inr n"
| "as_int _ = Inl Task_ValueError"

fun as_optional :: "(json \<Rightarrow> texn + 'a) \<Rightarrow> json \<Rightarrow> texn + 'a option" where
  "as_optional f JNull = Inr None"
| "as_optional f v = and_then (f v) (\<lambda>x. Inr (Some x))"

fun each :: "('v \<Rightarrow> 'e + 'a) \<Rightarrow> 'v list \<Rightarrow> 'e + 'a list" where
  "each f [] = Inr []"
| "each f (v # vs) = and_then (f v) (\<lambda>x. and_then (each f vs) (\<lambda>xs. Inr (x # xs)))"

fun as_list :: "(json \<Rightarrow> texn + 'a) \<Rightarrow> json \<Rightarrow> texn + 'a list" where
  "as_list f (JArr vs) = each f vs"
| "as_list f _ = Inl Task_ValueError"

definition as_time :: "tenv \<Rightarrow> json \<Rightarrow> texn + datetime" where
  "as_time E v = and_then (as_text v) (\<lambda>x. case te_parse E x of None \<Rightarrow> Inl Task_ValueError | Some t \<Rightarrow> Inr t)"

definition as_enum :: "('a \<Rightarrow> string) \<Rightarrow> 'a list \<Rightarrow> json \<Rightarrow> texn + 'a" where
  "as_enum value members v =
     and_then (as_text v) (\<lambda>x. case List.find (\<lambda>m. value m = x) members of None \<Rightarrow> Inl Task_ValueError | Some m \<Rightarrow> Inr m)"

definition json_time :: "tenv \<Rightarrow> datetime option \<Rightarrow> json" where
  "json_time E t = (case t of None \<Rightarrow> JNull | Some x \<Rightarrow> JStr (te_iso E x))"

definition task_statuses :: "task_status list" where
  "task_statuses = [TASK_CREATED, TASK_QUEUED, TASK_RUNNING, TASK_WAITING_FOR_REVIEW, TASK_CHANGES_REQUESTED,
     TASK_APPROVED, TASK_REJECTED, TASK_FAILED, TASK_CANCELLED, TASK_COMPLETED, TASK_RECONCILIATION_REQUIRED]"

definition approval_statuses :: "approval_status list" where
  "approval_statuses = [AP_NOT_REQUESTED, AP_PENDING, AP_APPROVED, AP_REJECTED, AP_CHANGES_REQUESTED]"

definition operation_statuses :: "operation_status list" where
  "operation_statuses = [EO_PLANNED, EO_STARTED, EO_SUCCEEDED, EO_FAILED, EO_RECONCILIATION_REQUIRED]"

definition coding_statuses :: "coding_status list" where
  "coding_statuses = [CA_SUCCEEDED, CA_FAILED_RETRYABLE, CA_FAILED_PERMANENT, CA_TIMED_OUT, CA_CANCELLED]"

definition serialize_task :: "tenv \<Rightarrow> external_task \<Rightarrow> json" where
  "serialize_task E t = JObj [
     (''task_id'', JStr (xt_task_id t)), (''project_id'', JStr (xt_project_id t)),
     (''work_item_id'', JStr (xt_work_item_id t)), (''task_type'', JStr (xt_task_type t)),
     (''title'', JStr (xt_title t)), (''description'', JStr (xt_description t)),
     (''provider_id'', json_text (xt_provider_id t)), (''workspace_id'', json_text (xt_workspace_id t)),
     (''repository_reference'', JStr (xt_repository_reference t)), (''base_branch'', JStr (xt_base_branch t)),
     (''working_branch'', JStr (xt_working_branch t)), (''status'', JStr (task_status_value (xt_status t))),
     (''requested_capabilities'', JArr (map JStr (xt_capabilities t))),
     (''created_at'', JStr (te_iso E (xt_created_at t))), (''started_at'', json_time E (xt_started_at t)),
     (''completed_at'', json_time E (xt_completed_at t)), (''failure_code'', json_text (xt_failure_code t)),
     (''retry_count'', JInt (xt_retry_count t)),
     (''approval_status'', JStr (approval_value (xt_approval_status t))),
     (''correlation_id'', json_text (xt_correlation_id t)), (''causation_id'', json_text (xt_causation_id t)),
     (''result_reference'', json_text (xt_result_reference t))]"

definition serialize_operation :: "tenv \<Rightarrow> external_operation \<Rightarrow> json" where
  "serialize_operation E x = JObj [
     (''operation_id'', JStr (eo_operation_id x)), (''task_id'', JStr (eo_task_id x)),
     (''operation_type'', JStr (eo_operation_type x)), (''status'', JStr (operation_value (eo_status x))),
     (''created_at'', JStr (te_iso E (eo_created_at x))), (''updated_at'', JStr (te_iso E (eo_updated_at x))),
     (''attempt'', JInt (eo_attempt x)), (''failure_code'', json_text (eo_failure_code x))]"

definition serialize_decision :: "tenv \<Rightarrow> approval_decision \<Rightarrow> json" where
  "serialize_decision E x = JObj [
     (''task_id'', JStr (ad_task_id x)), (''decision'', JStr (approval_value (ad_decision x))),
     (''approver_id'', JStr (ad_approver_id x)), (''reason'', JStr (ad_reason x)),
     (''decided_at'', JStr (te_iso E (ad_decided_at x)))]"

definition serialize_progress :: "tenv \<Rightarrow> coding_progress \<Rightarrow> json" where
  "serialize_progress E g = JObj [
     (''task_id'', JStr (cg_task_id g)), (''sequence'', JInt (cg_sequence g)), (''stage'', JStr (cg_stage g)),
     (''message'', JStr (cg_message g)), (''timestamp'', JStr (te_iso E (cg_timestamp g))),
     (''artifact_references'', JArr (map JStr (cg_artifacts g)))]"

definition serialize_result :: "tenv \<Rightarrow> coding_result \<Rightarrow> json" where
  "serialize_result E r = JObj [
     (''task_id'', JStr (co_task_id r)), (''provider_task_id'', JStr (co_provider_task_id r)),
     (''status'', JStr (coding_status_value (co_status r))), (''summary'', JStr (co_summary r)),
     (''changed_paths'', JArr (map JStr (co_changed_paths r))), (''commit_sha'', json_text (co_commit_sha r)),
     (''test_results'', JArr (map JStr (co_test_results r))),
     (''generated_artifacts'', JArr (map JStr (co_artifacts r))), (''failure_code'', json_text (co_failure_code r)),
     (''started_at'', JStr (te_iso E (co_started_at r))), (''completed_at'', JStr (te_iso E (co_completed_at r)))]"

definition snapshot_tasks :: "tenv \<Rightarrow> 'p tasks \<Rightarrow> json" where
  "snapshot_tasks E s = JObj [
     (''tasks'', JArr (map (serialize_task E) (dvals (ts_tasks s)))),
     (''operations'', JArr (map (serialize_operation E) (dvals (ts_operations s)))),
     (''decisions'', JArr (map (serialize_decision E) (concat (dvals (ts_decisions s))))),
     (''progress'', JObj (dmap (\<lambda>gs. JArr (map (serialize_progress E) gs)) (ts_progress s))),
     (''results'', JObj (dmap (serialize_result E) (ts_results s)))]"

definition deserialize_task :: "tenv \<Rightarrow> json \<Rightarrow> texn + external_task" where
  "deserialize_task E v =
     and_then (and_then (field ''task_id'' v) as_text) (\<lambda>a1.
     and_then (and_then (field ''project_id'' v) as_text) (\<lambda>a2.
     and_then (and_then (field ''work_item_id'' v) as_text) (\<lambda>a3.
     and_then (and_then (field ''task_type'' v) as_text) (\<lambda>a4.
     and_then (and_then (field ''title'' v) as_text) (\<lambda>a5.
     and_then (and_then (field ''description'' v) as_text) (\<lambda>a6.
     and_then (and_then (field ''provider_id'' v) (as_optional as_text)) (\<lambda>a7.
     and_then (and_then (field ''workspace_id'' v) (as_optional as_text)) (\<lambda>a8.
     and_then (and_then (field ''repository_reference'' v) as_text) (\<lambda>a9.
     and_then (and_then (field ''base_branch'' v) as_text) (\<lambda>a10.
     and_then (and_then (field ''working_branch'' v) as_text) (\<lambda>a11.
     and_then (and_then (field ''status'' v) (as_enum task_status_value task_statuses)) (\<lambda>a12.
     and_then (and_then (field ''requested_capabilities'' v) (as_list as_text)) (\<lambda>a13.
     and_then (and_then (field ''created_at'' v) (as_time E)) (\<lambda>a14.
     and_then (and_then (field ''started_at'' v) (as_optional (as_time E))) (\<lambda>a15.
     and_then (and_then (field ''completed_at'' v) (as_optional (as_time E))) (\<lambda>a16.
     and_then (and_then (field ''failure_code'' v) (as_optional as_text)) (\<lambda>a17.
     and_then (and_then (field ''retry_count'' v) as_int) (\<lambda>a18.
     and_then (and_then (field ''approval_status'' v) (as_enum approval_value approval_statuses)) (\<lambda>a19.
     and_then (and_then (field ''correlation_id'' v) (as_optional as_text)) (\<lambda>a20.
     and_then (and_then (field ''causation_id'' v) (as_optional as_text)) (\<lambda>a21.
     and_then (and_then (field ''result_reference'' v) (as_optional as_text)) (\<lambda>a22.
     Inr \<lparr>xt_task_id = a1, xt_project_id = a2, xt_work_item_id = a3, xt_task_type = a4, xt_title = a5,
       xt_description = a6, xt_provider_id = a7, xt_workspace_id = a8, xt_repository_reference = a9,
       xt_base_branch = a10, xt_working_branch = a11, xt_status = a12, xt_capabilities = a13,
       xt_created_at = a14, xt_started_at = a15, xt_completed_at = a16, xt_failure_code = a17,
       xt_retry_count = a18, xt_approval_status = a19, xt_correlation_id = a20,
       xt_causation_id = a21, xt_result_reference = a22\<rparr>))))))))))))))))))))))"

definition deserialize_operation :: "tenv \<Rightarrow> json \<Rightarrow> texn + external_operation" where
  "deserialize_operation E v =
     and_then (and_then (field ''operation_id'' v) as_text) (\<lambda>a1.
     and_then (and_then (field ''task_id'' v) as_text) (\<lambda>a2.
     and_then (and_then (field ''operation_type'' v) as_text) (\<lambda>a3.
     and_then (and_then (field ''status'' v) (as_enum operation_value operation_statuses)) (\<lambda>a4.
     and_then (and_then (field ''created_at'' v) (as_time E)) (\<lambda>a5.
     and_then (and_then (field ''updated_at'' v) (as_time E)) (\<lambda>a6.
     and_then (and_then (field ''attempt'' v) as_int) (\<lambda>a7.
     and_then (and_then (field ''failure_code'' v) (as_optional as_text)) (\<lambda>a8.
     Inr \<lparr>eo_operation_id = a1, eo_task_id = a2, eo_operation_type = a3, eo_status = a4,
       eo_created_at = a5, eo_updated_at = a6, eo_attempt = a7, eo_failure_code = a8\<rparr>))))))))"

definition deserialize_decision :: "tenv \<Rightarrow> json \<Rightarrow> texn + approval_decision" where
  "deserialize_decision E v =
     and_then (and_then (field ''task_id'' v) as_text) (\<lambda>a1.
     and_then (and_then (field ''decision'' v) (as_enum approval_value approval_statuses)) (\<lambda>a2.
     and_then (and_then (field ''approver_id'' v) as_text) (\<lambda>a3.
     and_then (and_then (field ''reason'' v) as_text) (\<lambda>a4.
     and_then (and_then (field ''decided_at'' v) (as_time E)) (\<lambda>a5.
     Inr \<lparr>ad_task_id = a1, ad_decision = a2, ad_approver_id = a3, ad_reason = a4, ad_decided_at = a5\<rparr>)))))"

definition deserialize_progress :: "tenv \<Rightarrow> json \<Rightarrow> texn + coding_progress" where
  "deserialize_progress E v =
     and_then (and_then (field ''task_id'' v) as_text) (\<lambda>a1.
     and_then (and_then (field ''sequence'' v) as_int) (\<lambda>a2.
     and_then (and_then (field ''stage'' v) as_text) (\<lambda>a3.
     and_then (and_then (field ''message'' v) as_text) (\<lambda>a4.
     and_then (and_then (field ''timestamp'' v) (as_time E)) (\<lambda>a5.
     and_then (and_then (field ''artifact_references'' v) (as_list as_text)) (\<lambda>a6.
     Inr \<lparr>cg_task_id = a1, cg_sequence = a2, cg_stage = a3, cg_message = a4, cg_timestamp = a5,
       cg_artifacts = a6\<rparr>))))))"

definition deserialize_result :: "tenv \<Rightarrow> json \<Rightarrow> texn + coding_result" where
  "deserialize_result E v =
     and_then (and_then (field ''task_id'' v) as_text) (\<lambda>a1.
     and_then (and_then (field ''provider_task_id'' v) as_text) (\<lambda>a2.
     and_then (and_then (field ''status'' v) (as_enum coding_status_value coding_statuses)) (\<lambda>a3.
     and_then (and_then (field ''summary'' v) as_text) (\<lambda>a4.
     and_then (and_then (field ''changed_paths'' v) (as_list as_text)) (\<lambda>a5.
     and_then (and_then (field ''commit_sha'' v) (as_optional as_text)) (\<lambda>a6.
     and_then (and_then (field ''test_results'' v) (as_list as_text)) (\<lambda>a7.
     and_then (and_then (field ''generated_artifacts'' v) (as_list as_text)) (\<lambda>a8.
     and_then (and_then (field ''failure_code'' v) (as_optional as_text)) (\<lambda>a9.
     and_then (and_then (field ''started_at'' v) (as_time E)) (\<lambda>a10.
     and_then (and_then (field ''completed_at'' v) (as_time E)) (\<lambda>a11.
     Inr \<lparr>co_task_id = a1, co_provider_task_id = a2, co_status = a3, co_summary = a4,
       co_changed_paths = a5, co_commit_sha = a6, co_test_results = a7, co_artifacts = a8,
       co_failure_code = a9, co_started_at = a10, co_completed_at = a11\<rparr>)))))))))))"

text \<open>A decision is read back through \<open>decision\<close>, whose checks it has to pass again.\<close>

definition read_decision :: "tenv \<Rightarrow> json \<Rightarrow> texn + approval_decision" where
  "read_decision E v =
     and_then (deserialize_decision E v) (\<lambda>x.
     and_then (validate_decision (ad_decision x) (ad_approver_id x) (ad_reason x)) (\<lambda>_. Inr x))"

text \<open>An operation that was started and not finished: its outcome is uncertain, and so is its task.\<close>

definition restore_operation :: "tenv \<Rightarrow> json \<Rightarrow> ('p, unit) top" where
  "restore_operation E v =
     bnd (of_sum (deserialize_operation E v)) (\<lambda>x.
     if eo_status x = EO_STARTED
     then
       bnd (gets (\<lambda>s. eo_task_id x \<in> set (dkeys (ts_tasks s)))) (\<lambda>known.
       bnd (require known Task_KeyError) (\<lambda>_.
       bnd (put_task (eo_task_id x) (\<lambda>t. t\<lparr>xt_status := TASK_RECONCILIATION_REQUIRED\<rparr>)) (\<lambda>_.
       upd (\<lambda>s. s\<lparr>ts_operations := dset (eo_operation_id x) (x\<lparr>eo_status := EO_RECONCILIATION_REQUIRED\<rparr>)
         (ts_operations s)\<rparr>))))
     else upd (\<lambda>s. s\<lparr>ts_operations := dset (eo_operation_id x) x (ts_operations s)\<rparr>))"

definition restore_decision :: "tenv \<Rightarrow> json \<Rightarrow> ('p, unit) top" where
  "restore_decision E v =
     bnd (of_sum (read_decision E v)) (\<lambda>x.
     upd (\<lambda>s. s\<lparr>ts_decisions := add_decision (ad_task_id x) x (ts_decisions s)\<rparr>))"

fun for_each :: "('v \<Rightarrow> ('s, 'e, unit) sx) \<Rightarrow> 'v list \<Rightarrow> ('s, 'e, unit) sx" where
  "for_each f [] = ok ()"
| "for_each f (v # vs) = bnd (f v) (\<lambda>_. for_each f vs)"

text \<open>A dict comprehension, over a list or over the items of a dict; \<open>get\<close> with an empty default.\<close>

definition keyed :: "('a \<Rightarrow> string) \<Rightarrow> 'a list \<Rightarrow> (string, 'a) dict" where
  "keyed key xs = foldl (\<lambda>d x. dset (key x) x d) [] xs"

fun entries :: "json \<Rightarrow> texn + (string \<times> json) list" where
  "entries (JObj d) = Inr d"
| "entries _ = Inl Task_ValueError"

definition read_entries :: "(json \<Rightarrow> texn + 'a) \<Rightarrow> json \<Rightarrow> texn + (string, 'a) dict" where
  "read_entries f v = and_then (entries v) (each (\<lambda>(k, x). and_then (f x) (\<lambda>y. Inr (k, y))))"

definition with_default :: "string \<Rightarrow> json \<Rightarrow> json \<Rightarrow> json" where
  "with_default k dflt v = (case jget k v of None \<Rightarrow> dflt | Some x \<Rightarrow> x)"

fun items :: "json \<Rightarrow> texn + json list" where
  "items (JArr vs) = Inr vs"
| "items _ = Inl Task_ValueError"

definition restore_tasks :: "tenv \<Rightarrow> json \<Rightarrow> ('p, unit) top" where
  "restore_tasks E v =
     bnd (of_sum (as_list (deserialize_task E) (with_default ''tasks'' (JArr []) v))) (\<lambda>ts.
     bnd (upd (\<lambda>s. s\<lparr>ts_tasks := keyed xt_task_id ts\<rparr>)) (\<lambda>_.
     bnd (upd (\<lambda>s. s\<lparr>ts_operations := []\<rparr>)) (\<lambda>_.
     bnd (of_sum (items (with_default ''operations'' (JArr []) v))) (\<lambda>xs.
     bnd (for_each (restore_operation E) xs) (\<lambda>_.
     bnd (upd (\<lambda>s. s\<lparr>ts_decisions := []\<rparr>)) (\<lambda>_.
     bnd (of_sum (items (with_default ''decisions'' (JArr []) v))) (\<lambda>ds.
     bnd (for_each (restore_decision E) ds) (\<lambda>_.
     bnd (of_sum (read_entries (as_list (deserialize_progress E)) (with_default ''progress'' (JObj []) v))) (\<lambda>gs.
     bnd (upd (\<lambda>s. s\<lparr>ts_progress := gs\<rparr>)) (\<lambda>_.
     bnd (of_sum (read_entries (deserialize_result E) (with_default ''results'' (JObj []) v))) (\<lambda>rs.
     upd (\<lambda>s. s\<lparr>ts_results := rs\<rparr>))))))))))))"

subsection \<open>The task queue\<close>

text \<open>\<open>InMemoryExternalTaskQueue\<close>: identifiers in order, each once.\<close>

definition enqueue_task :: "string \<Rightarrow> string list \<Rightarrow> string list" where
  "enqueue_task tid ids = (if tid \<in> set ids then ids else ids @ [tid])"

definition dequeue_task :: "string list \<Rightarrow> string option \<times> string list" where
  "dequeue_task ids = (case ids of [] \<Rightarrow> (None, []) | x # xs \<Rightarrow> (Some x, xs))"

end
