(* ===== verification/Triples.thy ===== *)
theory Triples
  imports Prelude
begin

section \<open>Triples for operations that return or raise\<close>

text \<open>
  \<open>triple P m Q R\<close>: from a state of \<open>P\<close> the operation \<open>m\<close> ends in one of \<open>Q\<close>, with the value it returns, or
  raises in one of \<open>R\<close>. With \<open>P\<close>, \<open>Q\<close> and \<open>R\<close> the same it is the preservation of an invariant,
  \<open>keeps\<close>; the rules here take an operation apart where a statement needs what an earlier one has
  checked or done.
\<close>

definition triple ::
    "('s \<Rightarrow> bool) \<Rightarrow> ('s, 'e, 'a) sx \<Rightarrow> ('a \<Rightarrow> 's \<Rightarrow> bool) \<Rightarrow> ('s \<Rightarrow> bool) \<Rightarrow> bool" where
  "triple P m Q R \<longleftrightarrow> (\<forall>s r t. P s \<longrightarrow> m s = (r, t) \<longrightarrow> (case r of Inl e \<Rightarrow> R t | Inr x \<Rightarrow> Q x t))"

lemma triple_keeps: "triple R m (\<lambda>_. R) R \<Longrightarrow> keeps R m"
  by (auto simp: triple_def intro!: keepsI split: sum.splits)

lemma keeps_triple: "keeps P m \<Longrightarrow> (\<And>s. P s \<Longrightarrow> R s) \<Longrightarrow> triple P m (\<lambda>_. P) R"
  by (auto simp: triple_def dest: keepsD split: sum.splits)

lemma triple_weaken:
  "triple P m Q R \<Longrightarrow> (\<And>s. P' s \<Longrightarrow> P s) \<Longrightarrow> (\<And>x s. Q x s \<Longrightarrow> Q' x s) \<Longrightarrow> (\<And>s. R s \<Longrightarrow> R' s) \<Longrightarrow> triple P' m Q' R'"
  unfolding triple_def by (fastforce split: sum.splits)

lemma triple_end: "(\<And>s. P s \<Longrightarrow> P' s) \<Longrightarrow> keeps P' m \<Longrightarrow> (\<And>s. P' s \<Longrightarrow> R s) \<Longrightarrow> triple P m (\<lambda>_. R) R"
  by (auto simp: triple_def dest!: keepsD split: sum.splits)

lemma triple_bnd: "triple P m Q R \<Longrightarrow> (\<And>x. triple (Q x) (f x) S R) \<Longrightarrow> triple P (bnd m f) S R"
  unfolding triple_def bnd_def by (fastforce split: prod.splits sum.splits)

lemma triple_after: "keeps P m \<Longrightarrow> (\<And>s. P s \<Longrightarrow> R s) \<Longrightarrow> (\<And>x. triple P (f x) S R) \<Longrightarrow> triple P (bnd m f) S R"
  by (rule triple_bnd[OF keeps_triple])

lemma triple_require: "(b \<Longrightarrow> triple P (f ()) Q R) \<Longrightarrow> (\<And>s. P s \<Longrightarrow> R s) \<Longrightarrow> triple P (bnd (require b e) f) Q R"
  by (auto simp: triple_def bnd_require split: if_splits sum.splits)

lemma triple_gets: "(\<And>v. triple (\<lambda>s. P s \<and> g s = v) (f v) Q R) \<Longrightarrow> triple P (bnd (gets g) f) Q R"
  by (auto simp: triple_def bnd_gets)

lemma triple_of_sum:
  "(\<And>x. r = Inr x \<Longrightarrow> triple P (f x) Q R) \<Longrightarrow> (\<And>s. P s \<Longrightarrow> R s) \<Longrightarrow> triple P (bnd (of_sum r) f) Q R"
  by (auto simp: triple_def bnd_of_sum split: sum.splits)

lemma triple_upd: "(\<And>s. P s \<Longrightarrow> P' (g s)) \<Longrightarrow> triple P' (f ()) Q R \<Longrightarrow> triple P (bnd (upd g) f) Q R"
  by (auto simp: triple_def bnd_upd)

lemma triple_catch: "triple P m Q H \<Longrightarrow> (\<And>e. triple H (h e) Q R) \<Longrightarrow> triple P (catch m h) Q R"
  unfolding triple_def catch_def by (fastforce split: prod.splits sum.splits)

lemma triple_ok: "(\<And>s. P s \<Longrightarrow> Q x s) \<Longrightarrow> triple P (ok x) Q R"
  by (simp add: triple_def ok_def)

lemma triple_fail: "(\<And>s. P s \<Longrightarrow> R s) \<Longrightarrow> triple P (fail e) Q R"
  by (simp add: triple_def fail_def)

lemma tripleD: "triple P m Q R \<Longrightarrow> P s \<Longrightarrow> m s = (r, t) \<Longrightarrow> (case r of Inl e \<Rightarrow> R t | Inr x \<Rightarrow> Q x t)"
  by (simp add: triple_def)

lemma keeps_prod [keeps_intros]: "(\<And>a b. p = (a, b) \<Longrightarrow> keeps R (f a b)) \<Longrightarrow> keeps R (case p of (a, b) \<Rightarrow> f a b)"
  by (cases p) simp

lemma keeps_conj: "keeps P m \<Longrightarrow> keeps R m \<Longrightarrow> keeps (\<lambda>s. P s \<and> R s) m"
  by (simp add: keeps_def)

end
