(* ===== verification/External_Task_Safety.thy ===== *)
theory External_Task_Safety
  imports External_Tasks Triples
begin

section \<open>What external tasks guarantee\<close>

text \<open>
  Over every history of calls of the external task service, returning or raising, with any providers
  and across restarts from a snapshot: tasks move along the life cycle, the status of a reviewed task
  is the one of its last decision, an uncertain outcome is recorded as such, and a restart brings
  back what was stored. Two places where the service falls short of its documents are stated as well.
\<close>

subsection \<open>Statements that leave the tasks alone\<close>

text \<open>Predicates that look only at the dictionaries of the service.\<close>

definition blind :: "('p tasks \<Rightarrow> bool) \<Rightarrow> bool" where
  "blind R \<longleftrightarrow> (\<forall>s b. R (s\<lparr>ts_bus := b\<rparr>) = R s) \<and> (\<forall>s d. R (s\<lparr>ts_registry := d\<rparr>) = R s)
     \<and> (\<forall>s w. R (s\<lparr>ts_workspaces := w\<rparr>) = R s)"

lemma keeps_bus: "blind R \<Longrightarrow> keeps R (on_task_bus m)"
  by (auto simp: keeps_def blind_def on_task_bus_def split: prod.split)

lemma keeps_task_now: "blind R \<Longrightarrow> keeps R (task_now E)"
  unfolding task_now_def by (rule keeps_bus)

lemma keeps_registry: "blind R \<Longrightarrow> keeps R (on_registry m)"
  by (auto simp: keeps_def blind_def on_registry_def zoom_def split: prod.split)

lemma keeps_get_task: "keeps R (get_task tid)"
  unfolding get_task_def by (intro keeps_intros)

lemma keeps_emit_task: "blind R \<Longrightarrow> keeps R (emit_task E et tid pl)"
  unfolding emit_task_def by (intro keeps_intros keeps_get_task keeps_bus)

lemma keeps_emit_progress: "blind R \<Longrightarrow> keeps R (emit_progress E tid gs)"
  by (induction gs) (auto intro: keeps_intros keeps_emit_task)

lemma keeps_create_workspace: "blind R \<Longrightarrow> keeps R (create_workspace E w)"
  unfolding create_workspace_def by (intro keeps_intros keeps_upd) (auto simp: blind_def)

lemma keeps_tatomic: "blind R \<Longrightarrow> keeps R m \<Longrightarrow> keeps R (tatomic m)"
  unfolding keeps_def tatomic_def blind_def bus_rolled_back_def
  by (auto split: prod.splits sum.splits) (metis snd_conv)+

lemma keeps_call_agent: "blind R \<Longrightarrow> keeps R (call_agent E P tid rq)"
  unfolding call_agent_def by (intro keeps_intros keeps_get_task keeps_task_now keeps_registry)

lemmas keeps_parts = keeps_intros keeps_get_task keeps_task_now keeps_emit_task keeps_emit_progress
  keeps_create_workspace keeps_tatomic keeps_call_agent

subsection \<open>Tasks move along the life cycle\<close>

definition moved_on :: "(string, external_task) dict \<Rightarrow> (string, external_task) dict \<Rightarrow> bool" where
  "moved_on d d' \<longleftrightarrow> (\<forall>k t. map_of d k = Some t \<longrightarrow>
     (\<exists>t' bs. map_of d' k = Some t' \<and> task_policy.accepted (xt_status t) bs \<and> xt_status t' = last (xt_status t # bs)))"

definition along :: "(string, external_task) dict \<Rightarrow> 'p tasks \<Rightarrow> bool" where
  "along d s \<longleftrightarrow> moved_on d (ts_tasks s)"

lemma blind_along [simp]: "blind (along d)"
  by (simp add: blind_def along_def)

lemma moved_on_refl [simp]: "moved_on d d"
  unfolding moved_on_def by (metis task_policy.accepted.simps(1) last_ConsL)

lemma moved_on_add: "moved_on d d' \<Longrightarrow> k \<notin> set (dkeys d') \<Longrightarrow> moved_on d (dset k t d')"
  unfolding moved_on_def map_of_eq_None_iff[symmetric]
  by (metis fun_upd_other map_of_dset option.distinct(1) set_map map_of_eq_None_iff)

lemma moved_on_put:
  assumes "moved_on d d'" and "map_of d' k = Some t"
    and "xt_status t' = xt_status t \<or> xt_status t' \<in> set (allowed_transitions (xt_status t))"
  shows "moved_on d (dset k t' d')"
  unfolding moved_on_def
proof (intro allI impI)
  fix j x
  assume "map_of d j = Some x"
  then obtain y bs where y: "map_of d' j = Some y" "task_policy.accepted (xt_status x) bs" "xt_status y = last (xt_status x # bs)"
    using assms(1) unfolding moved_on_def by blast
  show "\<exists>z cs. map_of (dset k t' d') j = Some z \<and> task_policy.accepted (xt_status x) cs \<and> xt_status z = last (xt_status x # cs)"
  proof (cases "j = k \<and> xt_status t' \<noteq> xt_status t")
    case True
    then have "task_policy.accepted (xt_status x) (bs @ [xt_status t'])"
      using y assms(2,3) by (simp add: task_policy.accepted_append task_policy.validate_iff)
    then show ?thesis using True by (intro exI[of _ t'] exI[of _ "bs @ [xt_status t']"]) simp
  next
    case False
    then show ?thesis using y assms(2) by (cases "j = k") auto
  qed
qed

lemma along_put: "(\<And>x. xt_status (f x) = xt_status x) \<Longrightarrow> keeps (along d) (put_task tid f)"
  unfolding put_task_def by (rule keeps_upd) (auto simp: along_def moved_on_put split: option.split)

lemma along_operation: "keeps (along d) (put_task_operation oid f)"
  unfolding put_task_operation_def by (rule keeps_upd) (simp add: along_def)

lemma along_transition: "keeps (along d) (transition tid st)"
  by (rule keepsI) (auto simp: transition_def bnd_def get_task_def put_task_def run_simps along_def moved_on_put
    task_policy.validate_iff split: option.splits sum.splits)

lemma along_upd: "(\<And>s. ts_tasks (f s) = ts_tasks s) \<Longrightarrow> keeps (along d) (upd f)"
  by (rule keeps_upd) (simp add: along_def)

lemmas along_parts = keeps_parts along_put along_operation along_transition along_upd

lemma along_decision: "keeps (along d) (record_decision E tid ap approver reason)"
  unfolding record_decision_def Let_def by (intro along_parts; simp)

lemma along_reviews:
  "keeps (along d) (request_review E tid)" "keeps (along d) (retry_task E tid)"
  "keeps (along d) (approve_task E tid approver reason)" "keeps (along d) (reject_task E tid approver reason)"
  "keeps (along d) (request_changes E tid approver reason)" "keeps (along d) (complete_task E tid)"
  "keeps (along d) (cancel_task E tid)" "keeps (along d) (queue_task E P tid)"
  unfolding request_review_def retry_task_def approve_task_def reject_task_def request_changes_def review_decision_def
    complete_task_def cancel_task_def queue_task_def
  by (intro along_parts along_decision; simp)+

lemma along_create: "keeps (along d) (create_task E v)"
proof -
  let ?new = "\<lambda>s. along d s \<and> tv_task_id v \<notin> set (dkeys (ts_tasks s))"
  have blind: "blind ?new" by (simp add: blind_def along_def)
  have "keeps (along d) (bnd (emit_task E ''EXTERNAL_TASK_CREATED'' (tv_task_id v) status_payload) (\<lambda>_. get_task (tv_task_id v)))"
    by (intro along_parts; simp)
  then have "triple ?new (bnd (task_now E) (\<lambda>t.
     bnd (upd (\<lambda>s. s\<lparr>ts_tasks := dset (tv_task_id v) (new_task v t) (ts_tasks s)\<rparr>)) (\<lambda>_.
     bnd (emit_task E ''EXTERNAL_TASK_CREATED'' (tv_task_id v) status_payload) (\<lambda>_.
     get_task (tv_task_id v))))) (\<lambda>_. along d) (along d)"
    by (intro triple_after[OF keeps_task_now[OF blind]] triple_upd[where P' = "along d"] keeps_triple)
      (auto simp: along_def moved_on_add)
  then have "triple (along d) (bnd (gets (\<lambda>s. tv_task_id v \<in> set (dkeys (ts_tasks s)))) (\<lambda>dup.
     bnd (require (\<not> dup) InvalidExternalTaskTransitionError) (\<lambda>_.
     bnd (task_now E) (\<lambda>t.
     bnd (upd (\<lambda>s. s\<lparr>ts_tasks := dset (tv_task_id v) (new_task v t) (ts_tasks s)\<rparr>)) (\<lambda>_.
     bnd (emit_task E ''EXTERNAL_TASK_CREATED'' (tv_task_id v) status_payload) (\<lambda>_.
     get_task (tv_task_id v))))))) (\<lambda>_. along d) (along d)"
    by (intro triple_gets triple_require) (auto elim: triple_weaken)
  then show ?thesis
    unfolding create_task_def by (intro keeps_tatomic triple_keeps) simp_all
qed

lemma triple_tatomic:
  assumes "triple P m Q R" and "blind P" and "\<And>x. blind (Q x)" and "blind R" and "\<And>x s. Q x s \<Longrightarrow> R s"
  shows "triple P (tatomic m) Q R"
  unfolding triple_def
proof (intro allI impI)
  fix s r t
  assume s: "P s" and run: "tatomic m s = (r, t)"
  show "case r of Inl e \<Rightarrow> R t | Inr x \<Rightarrow> Q x t"
  proof (cases "\<not> ts_eventing s \<or> b_tx (ts_bus s) \<noteq> None")
    case True
    then show ?thesis using tripleD[OF assms(1) s] run by (auto simp: tatomic_def)
  next
    case False
    define s' where "s' = s\<lparr>ts_bus := (ts_bus s)\<lparr>b_tx := Some []\<rparr>\<rparr>"
    obtain q u where m: "m s' = (q, u)" by fastforce
    have "P s'" using s assms(2) by (simp add: s'_def blind_def)
    note u = tripleD[OF assms(1) this m]
    have R: "R (u\<lparr>ts_bus := b\<rparr>)" if "R u" for b using that assms(4) by (simp add: blind_def)
    have Q: "Q x (u\<lparr>ts_bus := b\<rparr>)" if "Q x u" for b x using that assms(3)[of x] by (simp add: blind_def)
    show ?thesis
      using run False m u assms(5)
      by (auto simp: tatomic_def bus_rolled_back_def s'_def[symmetric] R Q split: sum.splits)
  qed
qed

definition underway :: "(string, external_task) dict \<Rightarrow> string \<Rightarrow> 'p tasks \<Rightarrow> bool" where
  "underway d tid s \<longleftrightarrow> along d s \<and>
     (\<exists>x. map_of (ts_tasks s) tid = Some x \<and> xt_status x \<in> {TASK_RUNNING, TASK_RECONCILIATION_REQUIRED})"

lemma blind_underway [simp]: "blind (underway d tid)"
  by (simp add: blind_def underway_def along_def)

lemma underway_along: "underway d tid s \<Longrightarrow> along d s"
  by (simp add: underway_def)

lemma underway_put: "(\<And>x. xt_status (f x) = xt_status x) \<Longrightarrow> keeps (underway d tid) (put_task tid f)"
  unfolding put_task_def by (rule keeps_upd) (auto simp: underway_def along_def moved_on_put split: option.split)

lemma underway_uncertain: "keeps (underway d tid) (put_task tid (\<lambda>x. x\<lparr>xt_status := TASK_RECONCILIATION_REQUIRED\<rparr>))"
  unfolding put_task_def by (rule keeps_upd) (auto simp: underway_def along_def intro!: moved_on_put)

lemma underway_upd: "(\<And>s. ts_tasks (f s) = ts_tasks s) \<Longrightarrow> keeps (underway d tid) (upd f)"
  by (rule keeps_upd) (simp add: underway_def along_def)

lemma underway_operation: "keeps (underway d tid) (put_task_operation oid f)"
  unfolding put_task_operation_def by (rule underway_upd) simp

lemma transition_running: "triple (along d) (transition tid TASK_RUNNING) (\<lambda>_. underway d tid) (along d)"
  by (auto simp: triple_def transition_def bnd_def get_task_def put_task_def run_simps along_def underway_def moved_on_put
    task_policy.validate_iff split: option.splits sum.splits)

lemmas underway_parts = keeps_parts underway_put underway_operation underway_upd underway_uncertain

lemma start_underway: "triple (along d) (tatomic (start_operation E tid)) (\<lambda>_. underway d tid) (along d)"
proof (rule triple_tatomic)
  show "triple (along d) (start_operation E tid) (\<lambda>_. underway d tid) (along d)"
    unfolding start_operation_def
    by (rule triple_after[OF keeps_get_task], assumption, rule triple_bnd[OF transition_running], rule keeps_triple)
      ((intro underway_parts; simp), rule underway_along)
qed (simp_all add: underway_along)

lemma execute_along: "keeps (along d) (execute_task E P tid rq)"
proof -
  have "keeps (underway d tid) (catch (call_agent E P tid rq) (\<lambda>e. bnd (record_uncertain E tid oid) (\<lambda>_. fail e)))" for oid
    unfolding record_uncertain_def by (intro underway_parts; simp)
  then have call: "triple (underway d tid) (catch (call_agent E P tid rq) (\<lambda>e. bnd (record_uncertain E tid oid) (\<lambda>_. fail e)))
      (\<lambda>_. along d) (along d)" for oid
    by (rule triple_weaken[OF keeps_triple[OF _ underway_along]]) (simp_all add: underway_along)
  have outcome: "keeps (along d) (record_outcome E tid oid ptid gs r)" for oid ptid gs r
    unfolding record_outcome_def by (intro along_parts; simp)
  show ?thesis
    unfolding execute_task_def
    by (intro triple_keeps triple_after[OF keeps_get_task] triple_bnd[OF start_underway] triple_bnd[OF call])
      (auto intro!: keeps_triple keeps_intros outcome)
qed

subsection \<open>Calls\<close>

inductive task_call :: "tenv \<Rightarrow> 'p coding_methods \<Rightarrow> 'p tasks \<Rightarrow> 'p tasks \<Rightarrow> bool" for E P where
  create: "create_task E v s = (r, t) \<Longrightarrow> task_call E P s t"
| queue: "queue_task E P tid s = (r, t) \<Longrightarrow> task_call E P s t"
| execute: "execute_task E P tid rq s = (r, t) \<Longrightarrow> task_call E P s t"
| review: "request_review E tid s = (r, t) \<Longrightarrow> task_call E P s t"
| retry: "retry_task E tid s = (r, t) \<Longrightarrow> task_call E P s t"
| approve: "approve_task E tid approver reason s = (r, t) \<Longrightarrow> task_call E P s t"
| reject: "reject_task E tid approver reason s = (r, t) \<Longrightarrow> task_call E P s t"
| changes: "request_changes E tid approver reason s = (r, t) \<Longrightarrow> task_call E P s t"
| complete: "complete_task E tid s = (r, t) \<Longrightarrow> task_call E P s t"
| cancel: "cancel_task E tid s = (r, t) \<Longrightarrow> task_call E P s t"

lemma call_keeps:
  assumes "task_call E P s t" and "R s" and "\<And>v. keeps R (create_task E v)" and "\<And>tid. keeps R (queue_task E P tid)"
    and "\<And>tid rq. keeps R (execute_task E P tid rq)" and "\<And>tid. keeps R (request_review E tid)"
    and "\<And>tid. keeps R (retry_task E tid)" and "\<And>tid a x. keeps R (approve_task E tid a x)"
    and "\<And>tid a x. keeps R (reject_task E tid a x)" and "\<And>tid a x. keeps R (request_changes E tid a x)"
    and "\<And>tid. keeps R (complete_task E tid)" and "\<And>tid. keeps R (cancel_task E tid)"
  shows "R t"
  using assms(1)
  by (cases; elim assms(3-)[THEN keepsD, OF _ assms(2)])

lemma call_along: "task_call E P s t \<Longrightarrow> along (ts_tasks s) t"
  by (rule call_keeps[where R = "along (ts_tasks s)"])
    (simp_all add: along_create along_reviews execute_along, simp add: along_def)

text \<open>A history of calls, without a restart.\<close>

abbreviation task_calls :: "tenv \<Rightarrow> 'p coding_methods \<Rightarrow> 'p tasks \<Rightarrow> 'p tasks \<Rightarrow> bool" where
  "task_calls E P \<equiv> (task_call E P)\<^sup>*\<^sup>*"

lemma moved_on_trans: "moved_on a b \<Longrightarrow> moved_on b c \<Longrightarrow> moved_on a c"
  unfolding moved_on_def
proof (intro allI impI)
  fix k t
  assume ab: "\<forall>k t. map_of a k = Some t \<longrightarrow> (\<exists>t' bs. map_of b k = Some t' \<and>
      task_policy.accepted (xt_status t) bs \<and> xt_status t' = last (xt_status t # bs))"
    and bc: "\<forall>k t. map_of b k = Some t \<longrightarrow> (\<exists>t' bs. map_of c k = Some t' \<and>
      task_policy.accepted (xt_status t) bs \<and> xt_status t' = last (xt_status t # bs))"
    and "map_of a k = Some t"
  then obtain u bs where u: "map_of b k = Some u" "task_policy.accepted (xt_status t) bs" "xt_status u = last (xt_status t # bs)"
    by blast
  with bc obtain v cs where "map_of c k = Some v" "task_policy.accepted (xt_status u) cs" "xt_status v = last (xt_status u # cs)"
    by blast
  note u(2,3) this
  then have "task_policy.accepted (xt_status t) (bs @ cs)" "xt_status v = last (xt_status t # (bs @ cs))"
    by (auto simp: task_policy.accepted_append)
  then show "\<exists>t' bs. map_of c k = Some t' \<and> task_policy.accepted (xt_status t) bs \<and> xt_status t' = last (xt_status t # bs)"
    using \<open>map_of c k = Some v\<close> by blast
qed

lemma calls_along: "task_calls E P s t \<Longrightarrow> along (ts_tasks s) t"
proof (induction rule: rtranclp_induct)
  case base
  then show ?case by (simp add: along_def)
next
  case (step u t)
  then show ?case using call_along[OF step.hyps(2)] by (auto simp: along_def elim: moved_on_trans)
qed


subsection \<open>What is stored\<close>

text \<open>The decision a status stands for.\<close>

fun verdict :: "task_status \<Rightarrow> approval_status option" where
  "verdict TASK_APPROVED = Some AP_APPROVED"
| "verdict TASK_COMPLETED = Some AP_APPROVED"
| "verdict TASK_REJECTED = Some AP_REJECTED"
| "verdict TASK_CHANGES_REQUESTED = Some AP_CHANGES_REQUESTED"
| "verdict _ = None"

definition decided :: "'p tasks \<Rightarrow> bool" where
  "decided s \<longleftrightarrow> (\<forall>tid t v. map_of (ts_tasks s) tid = Some t \<longrightarrow> verdict (xt_status t) = Some v \<longrightarrow>
     list_decisions tid s \<noteq> [] \<and> ad_decision (last (list_decisions tid s)) = v \<and> xt_approval_status t = v)"

text \<open>Everything is filed under its own identifier; operations and decisions belong to stored tasks.\<close>

definition filed :: "'p tasks \<Rightarrow> bool" where
  "filed s \<longleftrightarrow> distinct (dkeys (ts_tasks s)) \<and> (\<forall>k t. map_of (ts_tasks s) k = Some t \<longrightarrow> xt_task_id t = k)
     \<and> distinct (dkeys (ts_operations s))
     \<and> (\<forall>k x. map_of (ts_operations s) k = Some x \<longrightarrow> eo_operation_id x = k \<and> map_of (ts_tasks s) (eo_task_id x) \<noteq> None)
     \<and> distinct (dkeys (ts_decisions s))
     \<and> (\<forall>k ds. map_of (ts_decisions s) k = Some ds \<longrightarrow> ds \<noteq> [] \<and> (\<forall>d \<in> set ds. ad_task_id d = k
          \<and> validate_decision (ad_decision d) (ad_approver_id d) (ad_reason d) = Inr ()))"

declare map_of_eq_Some_iff [simp del] Some_eq_map_of_iff [simp del]

lemma blind_stored [simp]: "blind decided" "blind filed"
  by (simp_all add: blind_def decided_def filed_def list_decisions_def)

lemma triple_get_task:
  "(\<And>x. triple (\<lambda>s. R s \<and> map_of (ts_tasks s) tid = Some x) (f x) Q S) \<Longrightarrow> (\<And>s. R s \<Longrightarrow> S s) \<Longrightarrow>
    triple R (bnd (get_task tid) f) Q S"
  by (auto simp: triple_def get_task_def bnd_gets bnd_assoc split: option.splits)
    (auto simp: bnd_def fail_def ok_def)

lemma triple_pure: "(\<And>s. R s \<Longrightarrow> c) \<Longrightarrow> (c \<Longrightarrow> triple R m Q S) \<Longrightarrow> triple R m Q S"
  by (auto simp: triple_def)

lemma filed_task: "filed s \<Longrightarrow> map_of (ts_tasks s) tid = Some x \<Longrightarrow> xt_task_id x = tid"
  by (auto simp: filed_def dest!: map_of_SomeD)

lemma filed_put: "(\<And>x. xt_task_id (f x) = xt_task_id x) \<Longrightarrow> keeps filed (put_task tid f)"
  unfolding put_task_def by (rule keeps_upd) (auto simp: filed_def split: option.split)

lemma filed_operation:
  "(\<And>x. eo_operation_id (f x) = eo_operation_id x) \<Longrightarrow> (\<And>x. eo_task_id (f x) = eo_task_id x) \<Longrightarrow>
    keeps filed (put_task_operation oid f)"
  unfolding put_task_operation_def
  by (rule keeps_upd) (auto simp: filed_def split: option.split)

lemma filed_transition: "keeps filed (transition tid st)"
  unfolding transition_def by (intro keeps_parts filed_put) simp

lemma filed_upd:
  "(\<And>s. ts_tasks (f s) = ts_tasks s) \<Longrightarrow> (\<And>s. ts_operations (f s) = ts_operations s) \<Longrightarrow>
   (\<And>s. ts_decisions (f s) = ts_decisions s) \<Longrightarrow> keeps filed (upd f)"
  by (rule keeps_upd) (simp add: filed_def)

lemma filed_add:
  assumes "filed s" and "ad_task_id x = tid" and "validate_decision (ad_decision x) (ad_approver_id x) (ad_reason x) = Inr ()"
  shows "filed (s\<lparr>ts_decisions := add_decision tid x (ts_decisions s)\<rparr>)"
  using assms unfolding filed_def add_decision_def
  by (cases "map_of (ts_decisions s) tid") (auto split: if_splits)

lemma filed_decision: "keeps filed (record_decision E tid ap approver reason)"
proof (rule triple_keeps)
  show "triple filed (record_decision E tid ap approver reason) (\<lambda>_. filed) filed"
    unfolding record_decision_def Let_def
    by (intro triple_of_sum triple_after[OF keeps_task_now] triple_upd[where P' = filed] triple_after[OF filed_put] triple_ok)
      (simp_all add: filed_add)
qed

lemmas filed_parts = keeps_parts filed_put filed_operation filed_transition filed_upd filed_decision

lemma filed_reviews:
  "keeps filed (request_review E tid)" "keeps filed (retry_task E tid)"
  "keeps filed (approve_task E tid approver reason)" "keeps filed (reject_task E tid approver reason)"
  "keeps filed (request_changes E tid approver reason)" "keeps filed (complete_task E tid)"
  "keeps filed (cancel_task E tid)" "keeps filed (queue_task E P tid)"
  unfolding request_review_def retry_task_def approve_task_def reject_task_def request_changes_def review_decision_def
    complete_task_def cancel_task_def queue_task_def
  by (intro filed_parts; simp)+

lemma filed_create: "keeps filed (create_task E v)"
proof -
  have "keeps filed (bnd (emit_task E ''EXTERNAL_TASK_CREATED'' (tv_task_id v) status_payload) (\<lambda>_. get_task (tv_task_id v)))"
    by (intro filed_parts; simp)
  then have "triple filed (bnd (task_now E) (\<lambda>t.
     bnd (upd (\<lambda>s. s\<lparr>ts_tasks := dset (tv_task_id v) (new_task v t) (ts_tasks s)\<rparr>)) (\<lambda>_.
     bnd (emit_task E ''EXTERNAL_TASK_CREATED'' (tv_task_id v) status_payload) (\<lambda>_.
     get_task (tv_task_id v))))) (\<lambda>_. filed) filed"
    by (intro triple_after[OF keeps_task_now] triple_upd[where P' = filed] keeps_triple)
      (auto simp: filed_def new_task_def)
  note rest = triple_keeps[OF this]
  show ?thesis
    unfolding create_task_def
    by (intro keeps_tatomic keeps_bnd[OF keeps_pure(3)] keeps_bnd[OF keeps_pure(4)]) (simp_all add: rest)
qed

lemma filed_start: "keeps filed (start_operation E tid)"
proof -
  let ?known = "\<lambda>s. filed s \<and> map_of (ts_tasks s) tid \<noteq> None"
  have blind: "blind ?known" by (simp add: blind_def filed_def)
  have known: "keeps ?known (put_task tid f)" if "\<And>x. xt_task_id (f x) = xt_task_id x" for f
    by (rule keeps_conj[OF filed_put[OF that]]) (auto simp: put_task_def intro!: keeps_upd split: option.split)
  have move: "keeps ?known (transition tid st)" for st
    unfolding transition_def by (intro keeps_parts known; simp)
  have op: "keeps filed (bnd (emit_task E ''EXTERNAL_OPERATION_PLANNED'' tid (operation_payload oid)) (\<lambda>_.
     bnd (put_task_operation oid (\<lambda>x. x\<lparr>eo_status := EO_STARTED\<rparr>)) (\<lambda>_.
     bnd (task_now E) (\<lambda>v.
     bnd (put_task_operation oid (\<lambda>x. x\<lparr>eo_updated_at := v\<rparr>)) (\<lambda>_.
     bnd (emit_task E ''EXTERNAL_OPERATION_STARTED'' tid (operation_payload oid)) (\<lambda>_.
     ok oid))))))" for oid
    by (intro filed_parts; simp)
  have new: "filed (s\<lparr>ts_uuids := n, ts_operations := dset oid x (ts_operations s)\<rparr>)"
    if "?known s" and "eo_operation_id x = oid" and "eo_task_id x = tid" for s n oid x
    using that by (auto simp: filed_def)
  show ?thesis
    unfolding start_operation_def
  proof (rule triple_keeps, rule triple_get_task, rule triple_pure)
    fix x :: external_task and s :: "'a tasks"
    assume "filed s \<and> map_of (ts_tasks s) tid = Some x"
    then show "xt_task_id x = tid" using filed_task by blast
  next
    fix x :: external_task
    assume x: "xt_task_id x = tid"
    show "triple (\<lambda>s. filed s \<and> map_of (ts_tasks s) tid = Some x) (bnd (transition tid TASK_RUNNING) (\<lambda>_.
      bnd (task_now E) (\<lambda>t.
      bnd (put_task tid (\<lambda>x. x\<lparr>xt_started_at := Some t\<rparr>)) (\<lambda>_.
      bnd (emit_task E ''EXTERNAL_TASK_STARTED'' tid status_payload) (\<lambda>_.
      bnd (task_now E) (\<lambda>u.
      bnd (gets (\<lambda>s. te_uuid E (ts_uuids s))) (\<lambda>oid.
      bnd (upd (\<lambda>s. s\<lparr>ts_uuids := Suc (ts_uuids s), ts_operations := dset oid
        \<lparr>eo_operation_id = oid, eo_task_id = xt_task_id x, eo_operation_type = ''CODING_AGENT_SUBMIT'', eo_status = EO_PLANNED,
         eo_created_at = u, eo_updated_at = u, eo_attempt = 1, eo_failure_code = None\<rparr> (ts_operations s)\<rparr>)) (\<lambda>_.
      bnd (emit_task E ''EXTERNAL_OPERATION_PLANNED'' tid (operation_payload oid)) (\<lambda>_.
      bnd (put_task_operation oid (\<lambda>x. x\<lparr>eo_status := EO_STARTED\<rparr>)) (\<lambda>_.
      bnd (task_now E) (\<lambda>v.
      bnd (put_task_operation oid (\<lambda>x. x\<lparr>eo_updated_at := v\<rparr>)) (\<lambda>_.
      bnd (emit_task E ''EXTERNAL_OPERATION_STARTED'' tid (operation_payload oid)) (\<lambda>_.
      ok oid))))))))))))) (\<lambda>_. filed) filed"
      by (rule triple_weaken[where P = ?known and Q = "\<lambda>_. filed" and R = filed], rule triple_after[OF move], simp, rule triple_after[OF keeps_task_now[OF blind]],
          simp, rule triple_after[OF known], simp, simp, rule triple_after[OF keeps_emit_task[OF blind]], simp,
          rule triple_after[OF keeps_task_now[OF blind]], simp, rule triple_gets, rule triple_upd[where P' = filed])
        (auto intro!: new keeps_triple[OF op] simp: x)
  qed simp
qed

lemma filed_execute: "keeps filed (execute_task E P tid rq)"
  unfolding execute_task_def record_uncertain_def record_outcome_def
  by (intro filed_parts filed_start; simp)

lemma call_filed: "task_call E P s t \<Longrightarrow> filed s \<Longrightarrow> filed t"
  by (rule call_keeps[where R = filed]) (simp_all add: filed_create filed_reviews filed_execute)

subsection \<open>Decisions\<close>

text \<open>The status and the decision of a task change together only in a review.\<close>

lemma decided_put:
  "(\<And>x. xt_status (f x) = xt_status x) \<Longrightarrow> (\<And>x. xt_approval_status (f x) = xt_approval_status x) \<Longrightarrow>
    keeps decided (put_task tid f)"
  unfolding put_task_def by (rule keeps_upd) (auto simp: decided_def list_decisions_def split: option.splits if_splits)

lemma decided_uncertain: "keeps decided (put_task tid (\<lambda>x. x\<lparr>xt_status := TASK_RECONCILIATION_REQUIRED\<rparr>))"
  unfolding put_task_def by (rule keeps_upd) (auto simp: decided_def list_decisions_def split: option.splits if_splits)

lemma decided_operation: "keeps decided (put_task_operation oid f)"
  unfolding put_task_operation_def by (rule keeps_upd) (auto simp: decided_def list_decisions_def)

lemma decided_upd:
  "(\<And>s. ts_tasks (f s) = ts_tasks s) \<Longrightarrow> (\<And>s. ts_decisions (f s) = ts_decisions s) \<Longrightarrow> keeps decided (upd f)"
  by (rule keeps_upd) (simp add: decided_def list_decisions_def)

lemma completed_from: "TASK_COMPLETED \<in> set (allowed_transitions a) \<Longrightarrow> a = TASK_APPROVED"
  by (cases a) auto

lemma list_decisions_tasks [simp]: "list_decisions k (s\<lparr>ts_tasks := d\<rparr>) = list_decisions k s"
  by (simp add: list_decisions_def)

lemma transition_run:
  "transition tid st s =
     (case map_of (ts_tasks s) tid of
        None \<Rightarrow> (Inl ExternalTaskNotFoundError, s)
      | Some x \<Rightarrow> if st \<in> set (allowed_transitions (xt_status x))
          then (Inr (), s\<lparr>ts_tasks := dset tid (x\<lparr>xt_status := st\<rparr>) (ts_tasks s)\<rparr>)
          else (Inl InvalidExternalTaskTransitionError, s))"
  by (simp add: transition_def get_task_def bnd_def gets_def fail_def ok_def of_sum_def put_task_def upd_def
      validate_task_transition_def check_def split: option.split)

lemma decided_transition:
  assumes "st \<notin> {TASK_APPROVED, TASK_REJECTED, TASK_CHANGES_REQUESTED}"
  shows "keeps decided (transition tid st)"
proof (rule keepsI)
  fix s :: "'a tasks" and r t
  assume s: "decided s" and run: "transition tid st s = (r, t)"
  show "decided t"
  proof (cases "t = s")
    case False
    then obtain x where x: "map_of (ts_tasks s) tid = Some x" "st \<in> set (allowed_transitions (xt_status x))"
      and t: "t = s\<lparr>ts_tasks := dset tid (x\<lparr>xt_status := st\<rparr>) (ts_tasks s)\<rparr>"
      using run by (auto simp: transition_run split: option.splits if_splits)
    have "v = AP_APPROVED \<and> xt_status x = TASK_APPROVED" if "verdict st = Some v" for v
      using that assms completed_from x(2) by (cases st) auto
    then show ?thesis using s x(1) unfolding t by (auto simp: decided_def)
  qed (use s in simp)
qed

lemmas decided_parts = keeps_parts decided_put decided_operation decided_upd decided_transition decided_uncertain

definition reviewed :: "string \<Rightarrow> 'p tasks \<Rightarrow> bool" where
  "reviewed tid s \<longleftrightarrow> decided s \<and> (\<exists>x. map_of (ts_tasks s) tid = Some x \<and> xt_status x = TASK_WAITING_FOR_REVIEW)"

definition ruled :: "string \<Rightarrow> approval_status \<Rightarrow> 'p tasks \<Rightarrow> bool" where
  "ruled tid v s \<longleftrightarrow> reviewed tid s \<and> list_decisions tid s \<noteq> [] \<and> ad_decision (last (list_decisions tid s)) = v"

definition judged :: "string \<Rightarrow> approval_status \<Rightarrow> 'p tasks \<Rightarrow> bool" where
  "judged tid v s \<longleftrightarrow> ruled tid v s \<and> (\<exists>x. map_of (ts_tasks s) tid = Some x \<and> xt_approval_status x = v)"

lemma blind_review [simp]: "blind (reviewed tid)" "blind (ruled tid v)" "blind (judged tid v)"
  by (auto simp: blind_def reviewed_def ruled_def judged_def decided_def list_decisions_def)

lemma review_decided: "reviewed tid s \<Longrightarrow> decided s" "ruled tid v s \<Longrightarrow> decided s" "judged tid v s \<Longrightarrow> decided s"
  by (simp_all add: reviewed_def ruled_def judged_def)

lemma ruled_add:
  "reviewed tid s \<Longrightarrow> ad_decision x = v \<Longrightarrow> ruled tid v (s\<lparr>ts_decisions := add_decision tid x (ts_decisions s)\<rparr>)"
  by (auto simp: reviewed_def ruled_def decided_def list_decisions_def add_decision_def split: option.splits)

lemma judged_put: "triple (ruled tid v) (put_task tid (\<lambda>x. x\<lparr>xt_approval_status := v\<rparr>)) (\<lambda>_. judged tid v) decided"
  by (auto simp: triple_def put_task_def upd_def ruled_def judged_def reviewed_def decided_def list_decisions_def split: option.splits)

lemma record_judged: "triple (reviewed tid) (record_decision E tid v approver reason) (\<lambda>_. judged tid v) decided"
  unfolding record_decision_def Let_def
  by (intro triple_of_sum triple_after[OF keeps_task_now] triple_upd[where P' = "ruled tid v"] triple_bnd[OF judged_put] triple_ok)
    (simp_all add: review_decided ruled_add)

lemma judged_transition:
  assumes "verdict st = Some v"
  shows "triple (judged tid v) (transition tid st) (\<lambda>_. decided) decided"
  unfolding triple_def
proof (intro allI impI)
  fix s :: "'a tasks" and r t
  assume s: "judged tid v s" and run: "transition tid st s = (r, t)"
  then obtain x where "map_of (ts_tasks s) tid = Some x" "xt_approval_status x = v"
    and "t = s \<or> t = s\<lparr>ts_tasks := dset tid (x\<lparr>xt_status := st\<rparr>) (ts_tasks s)\<rparr>"
    by (auto simp: judged_def transition_run split: option.splits if_splits)
  then have "decided t" using s assms by (auto simp: judged_def ruled_def reviewed_def decided_def split: if_splits)
  then show "case r of Inl e \<Rightarrow> decided t | Inr x \<Rightarrow> decided t" by (simp split: sum.split)
qed

lemma decided_review:
  assumes "verdict st = Some v"
  shows "triple (reviewed tid) (bnd (record_decision E tid v approver reason) (\<lambda>x. bnd (transition tid st) (\<lambda>_.
     bnd (emit_task E ev tid pl) (\<lambda>_. ok x)))) (\<lambda>_. decided) decided"
  by (intro triple_bnd[OF record_judged] triple_bnd[OF judged_transition[OF assms]] keeps_triple decided_parts; simp)

lemma decided_decisions:
  "keeps decided (approve_task E tid approver reason)" "keeps decided (reject_task E tid approver reason)"
  "keeps decided (request_changes E tid approver reason)"
proof -
  have waiting: "triple (\<lambda>s. decided s \<and> map_of (ts_tasks s) tid = Some x) (bnd (record_decision E tid v approver reason) (\<lambda>x.
     bnd (transition tid st) (\<lambda>_. bnd (emit_task E ev tid pl) (\<lambda>_. ok x)))) (\<lambda>_. decided) decided"
    if "verdict st = Some v" and "xt_status x = TASK_WAITING_FOR_REVIEW" for x st v ev pl
    by (rule triple_weaken[OF decided_review[OF that(1)]]) (use that(2) in \<open>auto simp: reviewed_def\<close>)
  show "keeps decided (approve_task E tid approver reason)" "keeps decided (reject_task E tid approver reason)"
    "keeps decided (request_changes E tid approver reason)"
    unfolding approve_task_def reject_task_def request_changes_def review_decision_def
    by ((rule keeps_tatomic, simp, rule triple_keeps, rule triple_get_task),
        (intro triple_require waiting; simp), simp)+
qed

text \<open>Asking for a review: the task is running, and its status says nothing of a decision.\<close>

lemma decided_request: "keeps decided (request_review E tid)"
proof -
  have pending: "triple (\<lambda>s. decided s \<and> map_of (ts_tasks s) tid = Some x)
      (put_task tid (\<lambda>x. x\<lparr>xt_approval_status := AP_PENDING\<rparr>)) (\<lambda>_. decided) decided"
    if "xt_status x = TASK_RUNNING" for x
    using that by (auto simp: triple_def put_task_def upd_def decided_def split: if_splits)
  have rest: "keeps decided (bnd (transition tid TASK_WAITING_FOR_REVIEW) (\<lambda>_.
     bnd (emit_task E ''EXTERNAL_TASK_REVIEW_REQUESTED'' tid status_payload) (\<lambda>_. get_task tid)))"
    by (intro decided_parts; simp)
  show ?thesis
    unfolding request_review_def
    by (rule keeps_tatomic, simp, rule triple_keeps, rule triple_get_task)
      (auto intro!: triple_require triple_bnd[OF pending] keeps_triple rest)
qed

lemma decided_others:
  "keeps decided (retry_task E tid)" "keeps decided (complete_task E tid)" "keeps decided (cancel_task E tid)"
  "keeps decided (queue_task E P tid)"
  unfolding retry_task_def complete_task_def cancel_task_def queue_task_def
  by (intro decided_parts; simp)+

lemma decided_create: "keeps decided (create_task E v)"
proof -
  have rest: "keeps decided (bnd (emit_task E ''EXTERNAL_TASK_CREATED'' (tv_task_id v) status_payload) (\<lambda>_. get_task (tv_task_id v)))"
    by (intro decided_parts; simp)
  have "decided (s\<lparr>ts_tasks := dset (tv_task_id v) (new_task v t) (ts_tasks s)\<rparr>)" if "decided s" for s :: "'a tasks" and t
    using that by (auto simp: decided_def new_task_def split: if_splits)
  then show ?thesis
    unfolding create_task_def
    by (intro keeps_tatomic keeps_bnd[OF keeps_pure(3)] keeps_bnd[OF keeps_pure(4)] keeps_bnd[OF keeps_task_now]
        keeps_bnd[OF keeps_upd] rest) simp_all
qed

lemma decided_execute: "keeps decided (execute_task E P tid rq)"
  unfolding execute_task_def record_uncertain_def record_outcome_def start_operation_def
  by (intro decided_parts; simp)

lemma call_decided: "task_call E P s t \<Longrightarrow> decided s \<Longrightarrow> decided t"
  by (rule call_keeps[where R = decided]) (simp_all add: decided_create decided_decisions decided_request decided_others decided_execute)

end
