(* ===== verification/External_Task_Restart.thy ===== *)
theory External_Task_Restart
  imports External_Task_Safety
begin

section \<open>Restarting the external task service\<close>

text \<open>
  A service restored from the snapshot of another holds what that one stored, except that an
  operation which was started and not finished, and its task, now require reconciliation.
\<close>

subsection \<open>Values\<close>

text \<open>Documented of \<open>isoformat\<close> and \<open>fromisoformat\<close>: the text of a time parses to it.\<close>

definition readable_times :: "tenv \<Rightarrow> bool" where
  "readable_times E \<longleftrightarrow> (\<forall>t. te_parse E (te_iso E t) = Some t)"

lemma each_map: "(\<And>x. x \<in> set xs \<Longrightarrow> f (g x) = Inr x) \<Longrightarrow> each f (map g xs) = Inr xs"
  by (induction xs) (simp_all add: and_then_def)

lemma as_texts: "as_list as_text (JArr (map JStr xs)) = Inr xs"
  by (simp add: each_map)

lemma as_optional_text: "as_optional as_text (json_text x) = Inr x"
  by (cases x) (simp_all add: json_text_def and_then_def)

lemma as_time_iso: "readable_times E \<Longrightarrow> as_time E (JStr (te_iso E t)) = Inr t"
  by (simp add: as_time_def and_then_def readable_times_def)

lemma as_optional_time: "readable_times E \<Longrightarrow> as_optional (as_time E) (json_time E x) = Inr x"
  by (cases x) (simp_all add: json_time_def and_then_def as_time_iso)

lemma task_status_read: "as_enum task_status_value task_statuses (JStr (task_status_value st)) = Inr st"
  by (cases st) (simp_all add: as_enum_def and_then_def task_statuses_def)

lemma approval_read: "as_enum approval_value approval_statuses (JStr (approval_value st)) = Inr st"
  by (cases st) (simp_all add: as_enum_def and_then_def approval_statuses_def)

lemma operation_read: "as_enum operation_value operation_statuses (JStr (operation_value st)) = Inr st"
  by (cases st) (simp_all add: as_enum_def and_then_def operation_statuses_def)

lemma coding_status_read: "as_enum coding_status_value coding_statuses (JStr (coding_status_value st)) = Inr st"
  by (cases st) (simp_all add: as_enum_def and_then_def coding_statuses_def)

lemmas reads = as_texts as_optional_text as_time_iso as_optional_time task_status_read approval_read operation_read
  coding_status_read

lemma and_then_Inr: "and_then (Inr x) f = f x"
  by (simp add: and_then_def)

lemma task_read: "readable_times E \<Longrightarrow> deserialize_task E (serialize_task E t) = Inr t"
  by (simp add: deserialize_task_def serialize_task_def field_def reads and_then_Inr del: as_list.simps)

lemma task_operation_read: "readable_times E \<Longrightarrow> deserialize_operation E (serialize_operation E x) = Inr x"
  by (simp add: deserialize_operation_def serialize_operation_def field_def reads and_then_Inr)

lemma decision_read: "readable_times E \<Longrightarrow> deserialize_decision E (serialize_decision E x) = Inr x"
  by (simp add: deserialize_decision_def serialize_decision_def field_def reads and_then_Inr)

lemma progress_read: "readable_times E \<Longrightarrow> deserialize_progress E (serialize_progress E g) = Inr g"
  by (simp add: deserialize_progress_def serialize_progress_def field_def reads and_then_Inr del: as_list.simps)

lemma result_read: "readable_times E \<Longrightarrow> deserialize_result E (serialize_result E r) = Inr r"
  by (simp add: deserialize_result_def serialize_result_def field_def reads and_then_Inr del: as_list.simps)

subsection \<open>Dictionaries\<close>

lemma dset_fresh_key: "k \<notin> set (dkeys d) \<Longrightarrow> dset k v d = d @ [(k, v)]"
  by (induction d) auto

lemma keyed_vals:
  assumes "distinct (dkeys d)" and "\<And>k x. (k, x) \<in> set d \<Longrightarrow> key x = k"
  shows "keyed key (dvals d) = d"
proof -
  have "foldl (\<lambda>d x. dset (key x) x d) d0 (dvals d) = d0 @ d"
    if "distinct (dkeys (d0 @ d))" and "\<And>k x. (k, x) \<in> set d \<Longrightarrow> key x = k" for d0
    using that
  proof (induction d arbitrary: d0)
    case (Cons e d)
    obtain k x where e: "e = (k, x)" by fastforce
    have "dset (key x) x d0 = d0 @ [(k, x)]" using Cons.prems e by (subst dset_fresh_key) auto
    then show ?case using Cons.IH[of "d0 @ [(k, x)]"] Cons.prems e by auto
  qed simp
  from this[of "[]"] show ?thesis using assms by (simp add: keyed_def)
qed

lemma read_entries_dmap:
  assumes "\<And>x. f (g x) = Inr x"
  shows "read_entries f (JObj (dmap g d)) = Inr d"
proof -
  have "each (\<lambda>(k, x). and_then (f x) (\<lambda>y. Inr (k, y))) (dmap g d) = Inr d"
    unfolding dmap_def by (rule each_map) (auto simp: assms and_then_Inr)
  then show ?thesis by (simp add: read_entries_def and_then_Inr)
qed

lemma dset_present:
  "distinct (dkeys d) \<Longrightarrow> map_of d k = Some x \<Longrightarrow> dset k (f x) d = map (\<lambda>(j, y). (j, if j = k then f y else y)) d"
proof (induction d)
  case (Cons e d)
  obtain j y where e: "e = (j, y)" by fastforce
  show ?case
  proof (cases "j = k")
    case True
    then have "k \<notin> set (dkeys d)" using Cons.prems e by simp
    then have "map (\<lambda>(j, y). (j, if j = k then f y else y)) d = d" by (intro map_idI) force
    then show ?thesis using True Cons.prems e by simp
  qed (use Cons e in simp)
qed simp

subsection \<open>Operations and decisions\<close>

definition settle_operation :: "external_operation \<Rightarrow> external_operation" where
  "settle_operation x = (if eo_status x = EO_STARTED then x\<lparr>eo_status := EO_RECONCILIATION_REQUIRED\<rparr> else x)"

definition settle_task :: "external_operation list \<Rightarrow> string \<Rightarrow> external_task \<Rightarrow> external_task" where
  "settle_task xs k t = (if \<exists>x \<in> set xs. eo_status x = EO_STARTED \<and> eo_task_id x = k
     then t\<lparr>xt_status := TASK_RECONCILIATION_REQUIRED\<rparr> else t)"

definition settle_tasks :: "external_operation list \<Rightarrow> (string, external_task) dict \<Rightarrow> (string, external_task) dict" where
  "settle_tasks xs d = map (\<lambda>(k, t). (k, settle_task xs k t)) d"

lemma dkeys_settle [simp]: "dkeys (settle_tasks xs d) = dkeys d"
  by (induction d) (auto simp: settle_tasks_def)

lemma settle_tasks_Nil [simp]: "settle_tasks [] d = d"
  by (induction d) (auto simp: settle_tasks_def settle_task_def)

lemma settle_tasks_skip: "eo_status x \<noteq> EO_STARTED \<Longrightarrow> settle_tasks (xs @ [x]) d = settle_tasks xs d"
  by (auto simp: settle_tasks_def settle_task_def)

lemma settle_tasks_put:
  assumes "distinct (dkeys d)" and "eo_status x = EO_STARTED" and "map_of (settle_tasks xs d) (eo_task_id x) = Some t"
  shows "dset (eo_task_id x) (t\<lparr>xt_status := TASK_RECONCILIATION_REQUIRED\<rparr>) (settle_tasks xs d) = settle_tasks (xs @ [x]) d"
proof -
  have "dset (eo_task_id x) (t\<lparr>xt_status := TASK_RECONCILIATION_REQUIRED\<rparr>) (settle_tasks xs d)
      = map (\<lambda>(j, y). (j, if j = eo_task_id x then y\<lparr>xt_status := TASK_RECONCILIATION_REQUIRED\<rparr> else y)) (settle_tasks xs d)"
    using assms(1,3) by (intro dset_present[where f = "\<lambda>y. y\<lparr>xt_status := TASK_RECONCILIATION_REQUIRED\<rparr>"]) simp_all
  also have "\<dots> = settle_tasks (xs @ [x]) d"
    using assms(2) by (auto simp: settle_tasks_def settle_task_def)
  finally show ?thesis .
qed

lemma restore_operations:
  assumes "readable_times E" and "distinct (dkeys d)"
  shows "ts_tasks s = settle_tasks old d \<Longrightarrow> distinct (map eo_operation_id (old @ xs)) \<Longrightarrow>
    ts_operations s = map (\<lambda>x. (eo_operation_id x, settle_operation x)) old \<Longrightarrow>
    \<forall>x \<in> set xs. eo_task_id x \<in> set (dkeys d) \<Longrightarrow>
    for_each (restore_operation E) (map (serialize_operation E) xs) s =
      (Inr (), s\<lparr>ts_tasks := settle_tasks (old @ xs) d,
        ts_operations := map (\<lambda>x. (eo_operation_id x, settle_operation x)) (old @ xs)\<rparr>)"
proof (induction xs arbitrary: s old)
  case Nil
  then show ?case by (simp add: ok_def)
next
  case (Cons x xs)
  define s' where "s' = s\<lparr>ts_tasks := settle_tasks (old @ [x]) d,
    ts_operations := map (\<lambda>x. (eo_operation_id x, settle_operation x)) (old @ [x])\<rparr>"
  have new: "dset (eo_operation_id x) y (ts_operations s) = ts_operations s @ [(eo_operation_id x, y)]" for y
    by (rule dset_fresh_key) (use Cons.prems in \<open>auto simp: comp_def\<close>)
  have known: "eo_task_id x \<in> set (dkeys (ts_tasks s))" using Cons.prems by simp
  have "restore_operation E (serialize_operation E x) s = (Inr (), s')"
  proof (cases "eo_status x = EO_STARTED")
    case True
    obtain t where t: "map_of (ts_tasks s) (eo_task_id x) = Some t"
      using known by (metis map_of_eq_None_iff option.exhaust set_map)
    then have "dset (eo_task_id x) (t\<lparr>xt_status := TASK_RECONCILIATION_REQUIRED\<rparr>) (ts_tasks s) = settle_tasks (old @ [x]) d"
      using settle_tasks_put[OF assms(2) True] Cons.prems(1) by simp
    then show ?thesis
      using True known t Cons.prems(3) new
      by (simp add: restore_operation_def task_operation_read[OF assms(1)] bnd_of_sum bnd_gets bnd_require put_task_def
          bnd_upd upd_def s'_def settle_operation_def)
  next
    case False
    then show ?thesis
      using Cons.prems(1,3) new settle_tasks_skip[OF False]
      by (simp add: restore_operation_def task_operation_read[OF assms(1)] bnd_of_sum upd_def s'_def settle_operation_def)
  qed
  moreover have "for_each (restore_operation E) (map (serialize_operation E) xs) s' =
      (Inr (), s'\<lparr>ts_tasks := settle_tasks ((old @ [x]) @ xs) d,
        ts_operations := map (\<lambda>x. (eo_operation_id x, settle_operation x)) ((old @ [x]) @ xs)\<rparr>)"
    by (rule Cons.IH) (use Cons.prems in \<open>auto simp: s'_def\<close>)
  ultimately show ?case by (simp add: bnd_def s'_def)
qed

lemma restore_decisions_of:
  assumes "readable_times E" and "k \<notin> set (dkeys (ts_decisions s))"
    and "\<forall>d \<in> set ds. ad_task_id d = k \<and> validate_decision (ad_decision d) (ad_approver_id d) (ad_reason d) = Inr ()"
  shows "ds \<noteq> [] \<Longrightarrow> for_each (restore_decision E) (map (serialize_decision E) ds) s =
    (Inr (), s\<lparr>ts_decisions := ts_decisions s @ [(k, ds)]\<rparr>)"
  using assms(3)
proof (induction ds rule: rev_induct)
  case (snoc x ds)
  have append: "for_each f (us @ vs) = bnd (for_each f us) (\<lambda>_. for_each f vs)" for f :: "json \<Rightarrow> ('b tasks, texn, unit) sx" and us vs
    by (induction us) (simp_all add: bnd_assoc)
  have one: "restore_decision E (serialize_decision E x) u =
      (Inr (), u\<lparr>ts_decisions := add_decision k x (ts_decisions u)\<rparr>)" for u :: "'b tasks"
    using snoc.prems by (simp add: restore_decision_def read_decision_def decision_read[OF assms(1)] and_then_Inr bnd_of_sum upd_def)
  have old: "k \<notin> set (dkeys (ts_decisions s))" by (rule assms(2))
  then have none: "map_of (ts_decisions s) k = None" by (simp add: map_of_eq_None_iff)
  show ?case
  proof (cases "ds = []")
    case True
    then show ?thesis using old none by (simp add: one add_decision_def dset_fresh_key bnd_def ok_def)
  next
    case False
    then have run: "for_each (restore_decision E) (map (serialize_decision E) ds) s =
        (Inr (), s\<lparr>ts_decisions := ts_decisions s @ [(k, ds)]\<rparr>)" using snoc by simp
    have "k \<notin> set (dkeys d) \<Longrightarrow> dset k (ds @ [x]) (d @ [(k, ds)]) = d @ [(k, ds @ [x])]" for d
      by (induction d) auto
    then have "dset k (ds @ [x]) (ts_decisions s @ [(k, ds)]) = ts_decisions s @ [(k, ds @ [x])]" using old by blast
    then show ?thesis using none by (simp add: append bnd_def run one add_decision_def ok_def map_add_def)
  qed
qed simp

lemma restore_decisions:
  assumes "readable_times E"
  shows "distinct (dkeys (ts_decisions s @ d)) \<Longrightarrow> \<forall>(k, ds) \<in> set d. ds \<noteq> [] \<and> (\<forall>x \<in> set ds. ad_task_id x = k
      \<and> validate_decision (ad_decision x) (ad_approver_id x) (ad_reason x) = Inr ()) \<Longrightarrow>
    for_each (restore_decision E) (map (serialize_decision E) (concat (dvals d))) s =
      (Inr (), s\<lparr>ts_decisions := ts_decisions s @ d\<rparr>)"
proof (induction d arbitrary: s)
  case (Cons e d)
  obtain k ds where e: "e = (k, ds)" by fastforce
  have append: "for_each f (us @ vs) = bnd (for_each f us) (\<lambda>_. for_each f vs)" for f :: "json \<Rightarrow> ('b tasks, texn, unit) sx" and us vs
    by (induction us) (simp_all add: bnd_assoc)
  have "for_each (restore_decision E) (map (serialize_decision E) ds) s = (Inr (), s\<lparr>ts_decisions := ts_decisions s @ [(k, ds)]\<rparr>)"
    by (rule restore_decisions_of[OF assms]) (use Cons.prems e in auto)
  moreover have "for_each (restore_decision E) (map (serialize_decision E) (concat (dvals d)))
      (s\<lparr>ts_decisions := ts_decisions s @ [(k, ds)]\<rparr>) =
      (Inr (), s\<lparr>ts_decisions := ts_decisions s @ [(k, ds)]\<rparr>\<lparr>ts_decisions := (ts_decisions s @ [(k, ds)]) @ d\<rparr>)"
    using Cons.IH[of "s\<lparr>ts_decisions := ts_decisions s @ [(k, ds)]\<rparr>"] Cons.prems e by auto
  ultimately show ?case by (simp add: append bnd_def e)
qed (simp add: ok_def)

subsection \<open>The restart\<close>

definition blank_service :: "'p coding_registry \<Rightarrow> 'p tasks \<Rightarrow> 'p tasks" where
  "blank_service reg s = s\<lparr>ts_tasks := [], ts_progress := [], ts_results := [], ts_decisions := [],
     ts_registry := reg, ts_operations := []\<rparr>"

definition restarted :: "'p coding_registry \<Rightarrow> 'p tasks \<Rightarrow> 'p tasks" where
  "restarted reg s = s\<lparr>ts_tasks := settle_tasks (dvals (ts_operations s)) (ts_tasks s),
     ts_operations := dmap settle_operation (ts_operations s), ts_registry := reg\<rparr>"

lemma restart_run:
  assumes "readable_times E" and "filed s"
  shows "restore_tasks E (snapshot_tasks E s) (blank_service reg s) = (Inr (), restarted reg s)"
proof -
  have ids: "map (\<lambda>x. (eo_operation_id x, settle_operation x)) (dvals (ts_operations s)) = dmap settle_operation (ts_operations s)"
    and dist: "distinct (map eo_operation_id (dvals (ts_operations s)))"
  proof -
    have id: "eo_operation_id x = k" if "(k, x) \<in> set (ts_operations s)" for k x
      using assms(2) that by (auto simp: filed_def)
    then show "map (\<lambda>x. (eo_operation_id x, settle_operation x)) (dvals (ts_operations s)) = dmap settle_operation (ts_operations s)"
      by (auto simp: dmap_def)
    have "map eo_operation_id (dvals (ts_operations s)) = dkeys (ts_operations s)" using id by auto
    then show "distinct (map eo_operation_id (dvals (ts_operations s)))" using assms(2) by (simp only: filed_def)
  qed
  have tasks: "keyed xt_task_id (dvals (ts_tasks s)) = ts_tasks s"
    by (rule keyed_vals) (use assms(2) in \<open>auto simp: filed_def\<close>)
  have ops: "for_each (restore_operation E) (map (serialize_operation E) (dvals (ts_operations s)))
      (blank_service reg s\<lparr>ts_tasks := ts_tasks s\<rparr>) = (Inr (), blank_service reg s\<lparr>
        ts_tasks := settle_tasks (dvals (ts_operations s)) (ts_tasks s),
        ts_operations := dmap settle_operation (ts_operations s)\<rparr>)"
  proof -
    have "distinct (dkeys (ts_tasks s))" using assms(2) by (simp only: filed_def)
    moreover have "eo_task_id x \<in> set (dkeys (ts_tasks s))" if x: "x \<in> set (dvals (ts_operations s))" for x
    proof -
      obtain k where "(k, x) \<in> set (ts_operations s)" using x by auto
      then have "map_of (ts_operations s) k = Some x" using assms(2) by (intro map_of_is_SomeI) (simp_all only: filed_def)
      then have "map_of (ts_tasks s) (eo_task_id x) \<noteq> None" using assms(2) unfolding filed_def by blast
      then show ?thesis by (metis map_of_eq_None_iff set_map)
    qed
    ultimately show ?thesis
      using restore_operations[OF assms(1), of "ts_tasks s" "blank_service reg s\<lparr>ts_tasks := ts_tasks s\<rparr>" "[]"
          "dvals (ts_operations s)", unfolded append_Nil ids] dist
      by (simp add: blank_service_def)
  qed
  have decs: "for_each (restore_decision E) (map (serialize_decision E) (concat (dvals (ts_decisions s)))) u
      = (Inr (), u\<lparr>ts_decisions := ts_decisions s\<rparr>)" if "ts_decisions u = []" for u :: "'a tasks"
  proof -
    have d: "distinct (dkeys (ts_decisions s))" using assms(2) by (simp only: filed_def)
    have "\<forall>(k, ds) \<in> set (ts_decisions s). ds \<noteq> [] \<and> (\<forall>x \<in> set ds. ad_task_id x = k
        \<and> validate_decision (ad_decision x) (ad_approver_id x) (ad_reason x) = Inr ())"
      using map_of_is_SomeI[OF d] assms(2) unfolding filed_def by blast
    with d show ?thesis using restore_decisions[OF assms(1), of u "ts_decisions s"] that by simp
  qed
  show ?thesis
    using ops
    by (simp add: restore_tasks_def snapshot_tasks_def with_default_def each_map task_read[OF assms(1)] bnd_of_sum tasks
        blank_service_def bnd_upd bnd_def[of "for_each _ _"] decs read_entries_dmap progress_read[OF assms(1)]
        result_read[OF assms(1)] upd_def restarted_def del: map_map)
qed

subsection \<open>Histories with restarts\<close>

text \<open>Every call, and a restart with other providers, from a service without tasks.\<close>

inductive tasks_reachable :: "tenv \<Rightarrow> 'p coding_methods \<Rightarrow> 'p tasks \<Rightarrow> bool" for E P where
  start: "tasks_reachable E P (empty_tasks reg eventing)"
| call: "tasks_reachable E P s \<Longrightarrow> task_call E P s t \<Longrightarrow> tasks_reachable E P t"
| restart: "tasks_reachable E P s \<Longrightarrow> readable_times E \<Longrightarrow>
    restore_tasks E (snapshot_tasks E s) (blank_service reg s) = (r, t) \<Longrightarrow> tasks_reachable E P t"

lemma map_of_settle: "map_of (settle_tasks xs d) k = map_option (settle_task xs k) (map_of d k)"
  by (induction d) (auto simp: settle_tasks_def)

lemma settle_sel: "xt_task_id (settle_task xs k t) = xt_task_id t" "eo_operation_id (settle_operation x) = eo_operation_id x"
  "eo_task_id (settle_operation x) = eo_task_id x"
  by (simp_all add: settle_task_def settle_operation_def)

lemma restarted_filed: "filed s \<Longrightarrow> filed (restarted reg s)"
  by (auto simp: filed_def restarted_def map_of_settle settle_sel)

lemma restarted_decided: "decided s \<Longrightarrow> decided (restarted reg s)"
  by (auto simp: decided_def restarted_def map_of_settle settle_task_def list_decisions_def split: if_splits)

lemma empty_stored: "filed (empty_tasks reg eventing)" "decided (empty_tasks reg eventing)"
  by (simp_all add: filed_def decided_def empty_tasks_def)

lemma reachable_stored: "tasks_reachable E P s \<Longrightarrow> filed s \<and> decided s"
proof (induction rule: tasks_reachable.induct)
  case (restart s reg r t)
  then have "t = restarted reg s" using restart_run[of E s reg] by simp
  then show ?case using restart.IH restarted_filed restarted_decided by blast
qed (auto simp: empty_stored dest: call_filed call_decided)

lemmas reachable_filed = reachable_stored[THEN conjunct1]
lemmas reachable_decided = reachable_stored[THEN conjunct2]

text \<open>C19: The status of a reviewed task is the one of its last decision: in every state reached by calls that return or
  raise and by restarts, a task that is approved or completed has APPROVED as its last decision, a rejected one
  REJECTED and one with requested changes CHANGES_REQUESTED, made by a named approver, and with a
  reason unless it is an approval.
\<close>

theorem review_status_is_decided:
  assumes "tasks_reachable E P s" and "map_of (ts_tasks s) tid = Some x" and "verdict (xt_status x) = Some v"
  shows "\<exists>d. list_decisions tid s \<noteq> [] \<and> last (list_decisions tid s) = d \<and> ad_decision d = v \<and> ad_task_id d = tid
    \<and> xt_approval_status x = v \<and> \<not> blank (ad_approver_id d) \<and> (v \<noteq> AP_APPROVED \<longrightarrow> \<not> blank (ad_reason d))"
proof -
  let ?d = "last (list_decisions tid s)"
  have d: "list_decisions tid s \<noteq> []" "ad_decision ?d = v" "xt_approval_status x = v"
    using reachable_decided[OF assms(1)] assms(2,3) unfolding decided_def by blast+
  then obtain ds where ds: "map_of (ts_decisions s) tid = Some ds" "list_decisions tid s = ds"
    by (auto simp: list_decisions_def split: option.splits)
  then have "?d \<in> set ds" using d(1) by simp
  then have "ad_task_id ?d = tid" "validate_decision (ad_decision ?d) (ad_approver_id ?d) (ad_reason ?d) = Inr ()"
    using reachable_filed[OF assms(1)] ds(1) unfolding filed_def by blast+
  moreover have "v \<in> {AP_APPROVED, AP_REJECTED, AP_CHANGES_REQUESTED}" using assms(3) by (cases "xt_status x") auto
  ultimately show ?thesis using d by (auto simp: validate_decision_def checks_Inr)
qed

text \<open>C18: A restart brings back what was stored: restoring the snapshot of any reached service into an empty one
  returns, with the same tasks, progress, results, decisions and operations in the same order, except
  that every operation that was started and has no recorded outcome, and its task, require
  reconciliation.
\<close>

theorem restart_restores:
  assumes "tasks_reachable E P s" and "readable_times E"
  shows "restore_tasks E (snapshot_tasks E s) (blank_service reg s) = (Inr (), s\<lparr>
      ts_tasks := settle_tasks (dvals (ts_operations s)) (ts_tasks s),
      ts_operations := dmap settle_operation (ts_operations s), ts_registry := reg\<rparr>)"
  using restart_run[OF assms(2) reachable_filed[OF assms(1)]] by (simp add: restarted_def)

end
