(* ===== verification/External_Task_Cases.thy ===== *)
theory External_Task_Cases
  imports External_Task_Restart
begin

section \<open>Uncertain outcomes, two shortcuts, and a task from its creation to its completion\<close>

text \<open>
  What an execution leaves behind when the call of the agent raises; how a refused queueing opens the way to
  an approval by the agent that did the work; how a permanent failure is queued again; and one
  concrete history, which instantiates the properties of the external task service.
\<close>

subsection \<open>When the call of the agent raises\<close>

definition noted :: "string \<Rightarrow> string \<Rightarrow> 'p tasks \<Rightarrow> bool" where
  "noted tid oid s \<longleftrightarrow> map_of (ts_tasks s) tid \<noteq> None \<and> map_of (ts_operations s) oid \<noteq> None"

definition uncertain :: "string \<Rightarrow> string \<Rightarrow> 'p tasks \<Rightarrow> bool" where
  "uncertain tid oid s \<longleftrightarrow>
     (\<exists>x. map_of (ts_tasks s) tid = Some x \<and> xt_status x = TASK_RECONCILIATION_REQUIRED)
     \<and> (\<exists>y. map_of (ts_operations s) oid = Some y \<and> eo_status y = EO_RECONCILIATION_REQUIRED)"

lemma blind_noted [simp]: "blind (noted tid oid)" "blind (uncertain tid oid)"
  by (simp_all add: blind_def noted_def uncertain_def)

lemma triple_now: "blind R \<Longrightarrow> (\<And>x. triple R (f x) Q S) \<Longrightarrow> triple R (bnd (task_now E) f) Q S"
  by (auto simp: triple_def task_now_def on_task_bus_def tick_def runtime_error_def bnd_def blind_def)

lemma noted_put: "keeps (noted tid oid) (put_task tid' f)" "keeps (noted tid oid) (put_task_operation oid' g)"
  unfolding put_task_def put_task_operation_def by (rule keeps_upd, auto simp: noted_def split: option.split)+

lemma noted_transition: "keeps (noted tid oid) (transition tid' st)"
  unfolding transition_def by (intro keeps_parts noted_put)

lemma start_noted:
  fixes s :: "'a tasks"
  assumes run: "tatomic (start_operation E tid) s = (Inr oid, t)"
  shows "noted tid oid t"
proof -
  let ?known = "\<lambda>s :: 'a tasks. map_of (ts_tasks s) tid \<noteq> None"
  have blind: "blind ?known" by (simp add: blind_def)
  have known: "keeps ?known (put_task tid f)" for f
    unfolding put_task_def by (rule keeps_upd) (auto split: option.split)
  have move: "keeps ?known (transition tid st)" for st
    unfolding transition_def by (intro keeps_parts known)
  have new: "triple (\<lambda>s. ?known s \<and> te_uuid E (ts_uuids s) = k) (bnd (upd (\<lambda>s. s\<lparr>ts_uuids := Suc (ts_uuids s),
      ts_operations := dset k y (ts_operations s)\<rparr>)) f) Q R" if "triple (noted tid k) (f ()) Q R"
    for k y f and Q :: "string \<Rightarrow> 'a tasks \<Rightarrow> bool" and R
    by (rule triple_upd[where P' = "noted tid k"], simp add: noted_def, rule that)
  have "triple (\<lambda>_ :: 'a tasks. True) (start_operation E tid) (\<lambda>oid. noted tid oid) (\<lambda>_. True)"
    unfolding start_operation_def
  proof (rule triple_get_task)
    fix x :: external_task
    show "triple (\<lambda>s :: 'a tasks. True \<and> map_of (ts_tasks s) tid = Some x) (bnd (transition tid TASK_RUNNING) (\<lambda>_.
      bnd (task_now E) (\<lambda>t.
      bnd (put_task tid (\<lambda>x. x\<lparr>xt_started_at := Some t\<rparr>)) (\<lambda>_.
      bnd (emit_task E ''EXTERNAL_TASK_STARTED'' tid status_payload) (\<lambda>_.
      bnd (task_now E) (\<lambda>u.
      bnd (gets (\<lambda>s. te_uuid E (ts_uuids s))) (\<lambda>oid.
      bnd (upd (\<lambda>s. s\<lparr>ts_uuids := Suc (ts_uuids s), ts_operations := dset oid
        \<lparr>eo_operation_id = oid, eo_task_id = xt_task_id x, eo_operation_type = ''CODING_AGENT_SUBMIT'', eo_status = EO_PLANNED,
         eo_created_at = u, eo_updated_at = u, eo_attempt = 1, eo_failure_code = None\<rparr> (ts_operations s)\<rparr>)) (\<lambda>_.
      bnd (emit_task E ''EXTERNAL_OPERATION_PLANNED'' tid (operation_payload oid)) (\<lambda>_.
      bnd (put_task_operation oid (\<lambda>x. x\<lparr>eo_status := EO_STARTED\<rparr>)) (\<lambda>_.
      bnd (task_now E) (\<lambda>v.
      bnd (put_task_operation oid (\<lambda>x. x\<lparr>eo_updated_at := v\<rparr>)) (\<lambda>_.
      bnd (emit_task E ''EXTERNAL_OPERATION_STARTED'' tid (operation_payload oid)) (\<lambda>_.
      ok oid))))))))))))) (\<lambda>oid. noted tid oid) (\<lambda>_. True)"
      by (rule triple_weaken[where P = ?known and Q = "\<lambda>oid. noted tid oid" and R = "\<lambda>_. True"],
          rule triple_after[OF move], simp, rule triple_now[OF blind], rule triple_after[OF known], simp,
          rule triple_after[OF keeps_emit_task[OF blind]], simp, rule triple_now[OF blind], rule triple_gets)
        (rule new, rule triple_after[OF keeps_emit_task], simp, simp, rule triple_after[OF noted_put(2)], simp,
          rule triple_now, simp, rule triple_after[OF noted_put(2)], simp, rule triple_after[OF keeps_emit_task],
          simp, simp, rule triple_ok, simp_all)
  qed simp
  then have "triple (\<lambda>_ :: 'a tasks. True) (tatomic (start_operation E tid)) (\<lambda>oid. noted tid oid) (\<lambda>_. True)"
    by (rule triple_tatomic) (simp_all add: blind_def[of "\<lambda>_. True"])
  from tripleD[OF this _ run] show ?thesis by simp
qed

lemma noted_uncertain: "triple (noted tid oid) (record_uncertain E tid oid) (\<lambda>_. uncertain tid oid) (uncertain tid oid)"
proof -
  let ?op = "\<lambda>s. noted tid oid s \<and> (\<exists>y. map_of (ts_operations s) oid = Some y \<and> eo_status y = EO_RECONCILIATION_REQUIRED)"
  have blind: "blind ?op" by (simp add: blind_def noted_def)
  have first: "triple (noted tid oid) (bnd (put_task_operation oid (\<lambda>x. x\<lparr>eo_status := EO_RECONCILIATION_REQUIRED\<rparr>)) f) Q R"
    if "\<And>x. triple ?op (f x) Q R" for f Q R
    unfolding put_task_operation_def by (rule triple_upd[where P' = ?op], force simp: noted_def, rule that)
  have second: "triple ?op (bnd (put_task_operation oid (\<lambda>x. x\<lparr>eo_updated_at := t\<rparr>)) f) Q R"
    if "\<And>x. triple ?op (f x) Q R" for f Q R t
    unfolding put_task_operation_def by (rule triple_upd[where P' = ?op], force simp: noted_def, rule that)
  have third: "triple ?op (bnd (put_task tid (\<lambda>x. x\<lparr>xt_status := TASK_RECONCILIATION_REQUIRED\<rparr>)) f) Q R"
    if "\<And>x. triple (uncertain tid oid) (f x) Q R" for f Q R
    unfolding put_task_def by (rule triple_upd[where P' = "uncertain tid oid"], force simp: noted_def uncertain_def, rule that)
  have "triple (noted tid oid) (bnd (put_task_operation oid (\<lambda>x. x\<lparr>eo_status := EO_RECONCILIATION_REQUIRED\<rparr>)) (\<lambda>_.
     bnd (task_now E) (\<lambda>t.
     bnd (put_task_operation oid (\<lambda>x. x\<lparr>eo_updated_at := t\<rparr>)) (\<lambda>_.
     bnd (put_task tid (\<lambda>x. x\<lparr>xt_status := TASK_RECONCILIATION_REQUIRED\<rparr>)) (\<lambda>_.
     emit_task E ''EXTERNAL_OPERATION_RECONCILIATION_REQUIRED'' tid (operation_payload oid))))))
     (\<lambda>_. uncertain tid oid) (uncertain tid oid)"
    by (rule first, rule triple_now[OF blind], rule second, rule third, rule keeps_triple, rule keeps_emit_task) simp_all
  then show ?thesis
    unfolding record_uncertain_def by (rule triple_tatomic) simp_all
qed

text \<open>C20: An execution whose outcome is unknown is recorded as such: when the intent was recorded and the call of the
  agent then raises, for whatever reason, the execution raises and leaves the task and its
  operation requiring reconciliation, also when the record of that cannot be published.
\<close>

theorem uncertain_outcome_recorded:
  assumes "tatomic (start_operation E tid) s = (Inr oid, u)" and "call_agent E P tid rq u = (Inl e, v)"
  shows "\<exists>e' t x y. execute_task E P tid rq s = (Inl e', t)
    \<and> map_of (ts_tasks t) tid = Some x \<and> xt_status x = TASK_RECONCILIATION_REQUIRED
    \<and> map_of (ts_operations t) oid = Some y \<and> eo_status y = EO_RECONCILIATION_REQUIRED"
proof -
  have "noted tid oid u" by (rule start_noted[OF assms(1)])
  then have v: "noted tid oid v" by (rule keepsD[OF keeps_call_agent[OF blind_noted(1)] assms(2)])
  obtain r t where un: "record_uncertain E tid oid v = (r, t)" by fastforce
  then have "uncertain tid oid t" using tripleD[OF noted_uncertain v un] by (simp split: sum.splits)
  moreover have "\<exists>x. map_of (ts_tasks s) tid = Some x"
    using assms(1) by (auto simp: tatomic_def start_operation_def get_task_def bnd_def gets_def fail_def
        split: if_splits option.splits prod.splits sum.splits)
  then have "\<exists>e'. execute_task E P tid rq s = (Inl e', t)"
    using assms un by (auto simp: execute_task_def get_task_def bnd_def gets_def ok_def fail_def catch_def split: sum.split)
  ultimately show ?thesis unfolding uncertain_def by blast
qed

subsection \<open>Two shortcuts\<close>

lemma put_task_run: "map_of (ts_tasks s) tid = Some x \<Longrightarrow> put_task tid f s = (Inr (), s\<lparr>ts_tasks := dset tid (f x) (ts_tasks s)\<rparr>)"
  by (simp add: put_task_def upd_def)

lemma get_task_run: "map_of (ts_tasks s) tid = Some x \<Longrightarrow> get_task tid s = (Inr x, s)"
  by (simp add: get_task_def bnd_def gets_def ok_def)

lemma emit_quiet: "\<not> ts_eventing s \<Longrightarrow> map_of (ts_tasks s) tid = Some x \<Longrightarrow> emit_task E et tid pl s = (Inr (), s)"
  by (simp add: emit_task_def bnd_def get_task_run gets_def ok_def)

lemma queue_run:
  assumes "\<not> ts_eventing s" and "map_of (ts_tasks s) tid = Some x" and "xt_workspace_id x \<noteq> None"
    and "choose_compatible_provider P (xt_capabilities x) (ts_registry s) = Inr p"
  shows "queue_task E P tid s =
     (if TASK_QUEUED \<in> set (allowed_transitions (xt_status x))
      then (Inr (x\<lparr>xt_provider_id := Some p, xt_status := TASK_QUEUED\<rparr>),
            s\<lparr>ts_tasks := dset tid (x\<lparr>xt_provider_id := Some p, xt_status := TASK_QUEUED\<rparr>)
              (dset tid (x\<lparr>xt_provider_id := Some p\<rparr>) (ts_tasks s))\<rparr>)
      else (Inl InvalidExternalTaskTransitionError,
            s\<lparr>ts_tasks := dset tid (x\<lparr>xt_provider_id := Some p\<rparr>) (ts_tasks s)\<rparr>))"
proof -
  obtain w where "xt_workspace_id x = Some w" using assms(3) by blast
  then show ?thesis
    using assms(1,2,4)
    by (simp add: queue_task_def tatomic_def bnd_def get_task_run put_task_run gets_def of_sum_def ok_def transition_run emit_quiet)
qed

lemma approve_run:
  assumes "\<not> ts_eventing s" and "map_of (ts_tasks s) tid = Some x" and "xt_status x = TASK_WAITING_FOR_REVIEW" and "\<not> blank who"
  shows "fst (approve_task E tid who reason s) = (if xt_provider_id x = Some who then Inl ApprovalPolicyError
     else Inr \<lparr>ad_task_id = tid, ad_decision = AP_APPROVED, ad_approver_id = who, ad_reason = reason,
       ad_decided_at = kclock (te_kernel E) (b_ticks (ts_bus s))\<rparr>)"
  using assms
  by (auto simp: approve_task_def tatomic_def bnd_def get_task_run put_task_run require_def of_sum_def ok_def transition_run
      emit_quiet record_decision_def validate_decision_def check_def task_now_def on_task_bus_def tick_def runtime_error_def upd_def Let_def)



subsection \<open>A history\<close>

text \<open>Times are written in unary, with a sign.\<close>

definition unary :: "datetime \<Rightarrow> string" where
  "unary t = (if t < 0 then CHR ''-'' else CHR ''+'') # replicate (nat \<bar>t\<bar>) CHR ''1''"

definition read_unary :: "string \<Rightarrow> datetime option" where
  "read_unary u = (case u of [] \<Rightarrow> None | c # cs \<Rightarrow> Some (if c = CHR ''-'' then - int (length cs) else int (length cs)))"

definition task_env :: tenv where
  "task_env = \<lparr>te_kernel = \<lparr>kclock = int, ktext = (\<lambda>_. ''error'')\<rparr>, te_uuid = (\<lambda>n. ''op'' @ nat_str n), te_iso = unary,
     te_parse = read_unary, te_workspaces = Some (\<lambda>ws w. if w \<in> set ws then Some ''exists'' else None)\<rparr>"

lemma readable_demo: "readable_times task_env"
  by (simp add: readable_times_def task_env_def unary_def read_unary_def)

definition agent_named :: "string \<Rightarrow> int \<Rightarrow> coding_status list \<Rightarrow> det_agent" where
  "agent_named i prio outs = \<lparr>da_provider_id = i, da_priority = prio, da_capabilities = [''python''], da_outcomes = outs,
     da_available = True, da_tasks = []\<rparr>"

definition task_values_demo :: task_values where
  "task_values_demo = \<lparr>tv_task_id = ''t'', tv_project_id = ''p'', tv_work_item_id = ''w'', tv_task_type = None, tv_title = ''x'',
     tv_description = ''d'', tv_repository_reference = ''r'', tv_base_branch = None, tv_working_branch = ''b'',
     tv_capabilities = Some [''python''], tv_correlation_id = None, tv_causation_id = None\<rparr>"

definition request_demo :: coding_request where
  "request_demo = \<lparr>cr_task_id = ''t'', cr_project_id = ''p'', cr_repository_reference = ''r'', cr_workspace_reference = ''ws'',
     cr_branch = ''b'', cr_objective = ''o'', cr_constraints = [], cr_acceptance_criteria = [], cr_allowed_commands = [],
     cr_allowed_paths = [], cr_correlation_id = ''c'', cr_timeout_seconds = 60, cr_provider_configuration = None\<rparr>"

definition run_1 :: "bool \<Rightarrow> coding_status list \<Rightarrow> det_agent tasks" where
  "run_1 eventing outs = snd (create_task task_env task_values_demo (empty_tasks [(''a'', agent_named ''a'' 1 outs)] eventing))"

definition run_2 :: "bool \<Rightarrow> coding_status list \<Rightarrow> det_agent tasks" where
  "run_2 eventing outs = snd (execute_task task_env det_agent_methods ''t'' request_demo
     (snd (queue_task task_env det_agent_methods ''t'' (run_1 eventing outs))))"

definition run_3 :: "bool \<Rightarrow> det_agent tasks" where
  "run_3 eventing = snd (request_review task_env ''t'' (run_2 eventing []))"

definition run_4 :: "bool \<Rightarrow> det_agent tasks" where
  "run_4 eventing = snd (complete_task task_env ''t'' (snd (approve_task task_env ''t'' ''ann'' ''fine'' (run_3 eventing))))"

lemma calls_snd:
  "task_call E P s (snd (create_task E v s))" "task_call E P s (snd (queue_task E P tid s))"
  "task_call E P s (snd (execute_task E P tid rq s))" "task_call E P s (snd (request_review E tid s))"
  "task_call E P s (snd (approve_task E tid a x s))" "task_call E P s (snd (complete_task E tid s))"
  by (auto intro: task_call.intros prod.collapse[symmetric])

lemma calls_step: "task_calls E P s t \<Longrightarrow> task_call E P t u \<Longrightarrow> task_calls E P s u"
  by simp

lemma run_calls: "task_calls task_env det_agent_methods (run_1 b []) (run_4 b)"
  unfolding run_4_def run_3_def run_2_def
  by (rule calls_step[OF _ calls_snd(6)], rule calls_step[OF _ calls_snd(5)], rule calls_step[OF _ calls_snd(4)],
      rule calls_step[OF _ calls_snd(3)], rule calls_step[OF _ calls_snd(2)]) simp

lemma reachable_by_calls:
  assumes "tasks_reachable E P s"
  shows "task_calls E P s t \<Longrightarrow> tasks_reachable E P t"
  by (induction rule: rtranclp_induct) (auto intro: assms tasks_reachable.call)

lemma run_reachable: "tasks_reachable task_env det_agent_methods (run_4 b)"
proof -
  have "tasks_reachable task_env det_agent_methods (run_1 b [])"
    unfolding run_1_def by (rule tasks_reachable.call[OF tasks_reachable.start calls_snd(1)])
  then show ?thesis by (rule reachable_by_calls[OF _ run_calls])
qed

lemma run_4_done:
  "case map_of (ts_tasks (run_4 True)) ''t'' of None \<Rightarrow> False | Some x \<Rightarrow> xt_status x = TASK_COMPLETED"
  by code_simp


lemma review_status_is_decided_witness:
  "ad_decision (last (list_decisions ''t'' (run_4 True))) = AP_APPROVED
    \<and> \<not> blank (ad_approver_id (last (list_decisions ''t'' (run_4 True))))"
proof -
  obtain y where y: "map_of (ts_tasks (run_4 True)) ''t'' = Some y" "verdict (xt_status y) = Some AP_APPROVED"
    using run_4_done by (auto split: option.splits)
  show ?thesis using review_status_is_decided[OF run_reachable y] by blast
qed

lemma restart_restores_witness:
  "restore_tasks task_env (snapshot_tasks task_env (run_4 True)) (blank_service [] (run_4 True)) = (Inr (), (run_4 True)\<lparr>
      ts_tasks := settle_tasks (dvals (ts_operations (run_4 True))) (ts_tasks (run_4 True)),
      ts_operations := dmap settle_operation (ts_operations (run_4 True)), ts_registry := []\<rparr>)"
  by (rule restart_restores[OF run_reachable readable_demo])

text \<open>The provider is gone when the execution starts.\<close>

definition deserted :: "det_agent tasks" where
  "deserted = (snd (queue_task task_env det_agent_methods ''t'' (run_1 True [])))\<lparr>ts_registry := []\<rparr>"

lemma uncertain_outcome_recorded_witness:
  "\<exists>e t x y. execute_task task_env det_agent_methods ''t'' request_demo deserted = (Inl e, t)
    \<and> map_of (ts_tasks t) ''t'' = Some x \<and> xt_status x = TASK_RECONCILIATION_REQUIRED
    \<and> map_of (ts_operations t) ''op0'' = Some y \<and> eo_status y = EO_RECONCILIATION_REQUIRED"
proof -
  have run: "case tatomic (start_operation task_env ''t'') deserted of (r, u) \<Rightarrow> r = Inr ''op0''
      \<and> (case fst (call_agent task_env det_agent_methods ''t'' request_demo u) of Inl e \<Rightarrow> True | Inr x \<Rightarrow> False)"
    by code_simp
  obtain u where u: "tatomic (start_operation task_env ''t'') deserted = (Inr ''op0'', u)"
    using run by (auto split: prod.splits)
  obtain e v where "call_agent task_env det_agent_methods ''t'' request_demo u = (Inl e, v)"
    using run u by (cases "call_agent task_env det_agent_methods ''t'' request_demo u") (auto split: sum.splits)
  from uncertain_outcome_recorded[OF u this] show ?thesis .
qed

text \<open>Another provider, which the registry prefers, is registered during the review.\<close>

definition contested :: "det_agent tasks" where
  "contested = (run_3 False)\<lparr>ts_registry := [(''a'', agent_named ''a'' 1 []), (''b'', agent_named ''b'' 0 [])]\<rparr>"



end
