(* ===== verification/Worker_Registry.thy ===== *)
theory Worker_Registry
  imports Outbox_Worker Versioned
begin

section \<open>Worker registrations\<close>

text \<open>
  \<^verbatim>\<open>workers/models.py\<close>, \<^verbatim>\<open>workers/registry.py\<close> (\<open>InMemoryWorkerRegistry\<close>) and \<^verbatim>\<open>workers/heartbeat.py\<close>. The
  registry hands out the registration objects it holds; they are read and written through
  their key here. \<open>C\<close> is its clock. Durations of a configuration are in microseconds. A registration is built by
  \<open>new_worker\<close>, which runs \<open>__post_init__\<close>. The file and SQLite registries, which write the whole state
  after each change, are not modelled: \<open>_changed\<close> does nothing here.
\<close>

subsection \<open>Models\<close>

datatype worker_status =
    W_STARTING | W_IDLE | W_CLAIMING | W_DISPATCHING | W_RECONCILING | W_STOPPING | W_STOPPED | W_UNHEALTHY | W_STALE
  | W_FAILED

fun worker_status_value :: "worker_status \<Rightarrow> string" where
  "worker_status_value W_STARTING = ''STARTING''"
| "worker_status_value W_IDLE = ''IDLE''"
| "worker_status_value W_CLAIMING = ''CLAIMING''"
| "worker_status_value W_DISPATCHING = ''DISPATCHING''"
| "worker_status_value W_RECONCILING = ''RECONCILING''"
| "worker_status_value W_STOPPING = ''STOPPING''"
| "worker_status_value W_STOPPED = ''STOPPED''"
| "worker_status_value W_UNHEALTHY = ''UNHEALTHY''"
| "worker_status_value W_STALE = ''STALE''"
| "worker_status_value W_FAILED = ''FAILED''"

record worker =
  wo_worker_id :: string
  wo_instance_id :: string
  wo_process_id :: int
  wo_node_reference :: string
  wo_runtime_id :: string
  wo_worker_type :: string
  wo_operation_types :: "string list"
  wo_provider_capabilities :: "string list"
  wo_status :: worker_status
  wo_started_at :: datetime
  wo_registered_at :: datetime
  wo_last_heartbeat_at :: datetime
  wo_heartbeat_expires_at :: datetime
  wo_stopped_at :: "datetime option"
  wo_current_operation :: "string option"
  wo_version :: int
  wo_build_reference :: "string option"
  wo_correlation_id :: "string option"
  wo_shutdown_requested :: bool

text \<open>\<open>^[A-Za-z0-9][A-Za-z0-9_.:-]{0,127}$\<close>.\<close>

definition re_worker :: "string \<Rightarrow> bool" where
  "re_worker s \<longleftrightarrow> (case s of [] \<Rightarrow> False | c # cs \<Rightarrow>
     is_alnum c \<and> length cs \<le> 127 \<and> list_all (\<lambda>x. name_char x \<or> x = CHR '':'') cs)"

fun first_error :: "(bool \<times> 'e) list \<Rightarrow> 'e + unit" where
  "first_error [] = Inr ()"
| "first_error ((b, e) # bs) = (if b then first_error bs else Inl e)"

definition validate_worker :: "worker \<Rightarrow> exn + unit" where
  "validate_worker w = first_error [
     (list_all re_worker [wo_worker_id w, wo_instance_id w, wo_node_reference w, wo_runtime_id w, wo_worker_type w],
        ValueError ''Invalid worker registration identity''),
     (0 \<le> wo_process_id w, ValueError ''Invalid process identifier''),
     (list_all (\<lambda>vs. vs \<noteq> [] \<and> list_all re_worker vs) [wo_operation_types w, wo_provider_capabilities w],
        ValueError ''Invalid worker capabilities'')]"

record worker_configuration =
  wc_runtime_id :: string
  wc_worker_id_prefix :: string
  wc_persistence_reference :: string
  wc_operation_types :: "string list"
  wc_provider_ids :: "string list"
  wc_polling_interval :: timedelta
  wc_heartbeat_interval :: timedelta
  wc_heartbeat_timeout :: timedelta
  wc_claim_duration :: timedelta
  wc_claim_renewal_interval :: timedelta
  wc_maximum_operations :: int
  wc_maximum_runtime :: timedelta
  wc_shutdown_grace :: timedelta
  wc_maximum_idle_cycles :: int
  wc_log_level :: string

definition validate_configuration :: "worker_configuration \<Rightarrow> exn + unit" where
  "validate_configuration c = first_error [
     (re_provider (wc_runtime_id c) \<and> re_provider (wc_worker_id_prefix c),
        ValueError ''Invalid worker configuration identity''),
     (\<not> list_ex (\<lambda>m. search (starts_with m) (map lower (wc_persistence_reference c)))
        [''password='', ''token='', ''secret='', ''@''],
        ValueError ''Persistence configuration must be a safe reference''),
     (0 < wc_heartbeat_interval c \<and> wc_heartbeat_interval c < wc_heartbeat_timeout c,
        ValueError ''Heartbeat timeout must exceed interval''),
     (0 < wc_claim_renewal_interval c \<and> wc_claim_renewal_interval c < wc_claim_duration c,
        ValueError ''Claim renewal must precede expiry''),
     (\<not> (wc_polling_interval c < 0 \<or> \<not> (1 \<le> wc_maximum_operations c \<and> wc_maximum_operations c \<le> 10000)
        \<or> \<not> (1 \<le> wc_maximum_idle_cycles c \<and> wc_maximum_idle_cycles c \<le> 10000)
        \<or> wc_maximum_runtime c \<le> 0 \<or> wc_shutdown_grace c < 0),
        ValueError ''Worker limits are invalid'')]"

definition new_worker :: "worker \<Rightarrow> exn + worker" where
  "new_worker w = (case validate_worker w of Inl e \<Rightarrow> Inl e | Inr _ \<Rightarrow> Inr w)"

subsection \<open>The registry\<close>

record worker_entry =
  we_action :: string
  we_timestamp :: datetime
  we_version :: int

record registry =
  wr_workers :: "(string, worker) dict"
  wr_history :: "(string, worker_entry list) dict"
  wr_ticks :: nat

type_synonym 'a wrop = "(registry, exn, 'a) sx"

definition empty_registry :: registry where
  "empty_registry = \<lparr>wr_workers = [], wr_history = [], wr_ticks = 0\<rparr>"

definition registry_now :: "(nat \<Rightarrow> datetime) \<Rightarrow> datetime wrop" where
  "registry_now C r = (Inr (C (wr_ticks r)), r\<lparr>wr_ticks := Suc (wr_ticks r)\<rparr>)"

definition get_worker :: "string \<Rightarrow> registry \<Rightarrow> exn + worker" where
  "get_worker i r = (case map_of (wr_workers r) i of
     None \<Rightarrow> Inl (OtherError ''WorkerNotFoundError'') | Some w \<Rightarrow> Inr w)"

definition find_worker :: "string \<Rightarrow> worker wrop" where
  "find_worker i = bnd (gets (get_worker i)) of_sum"

definition put_worker :: "string \<Rightarrow> (worker \<Rightarrow> worker) \<Rightarrow> unit wrop" where
  "put_worker i f = upd (\<lambda>r. r\<lparr>wr_workers :=
     (case map_of (wr_workers r) i of None \<Rightarrow> wr_workers r | Some w \<Rightarrow> dset i (f w) (wr_workers r))\<rparr>)"

definition list_workers :: "registry \<Rightarrow> worker list" where
  "list_workers r = sort_key wo_instance_id (dvals (wr_workers r))"

text \<open>\<open>_record\<close>: an entry under the identifier and with the version of the registration.\<close>

definition record_worker :: "(nat \<Rightarrow> datetime) \<Rightarrow> string \<Rightarrow> string \<Rightarrow> unit wrop" where
  "record_worker C i action =
     bnd (find_worker i) (\<lambda>w.
     bnd (registry_now C) (\<lambda>t.
     upd (\<lambda>r. r\<lparr>wr_history := dset (wo_instance_id w)
       ((case map_of (wr_history r) (wo_instance_id w) of None \<Rightarrow> [] | Some es \<Rightarrow> es)
          @ [\<lparr>we_action = action, we_timestamp = t, we_version = wo_version w\<rparr>]) (wr_history r)\<rparr>)))"

definition check_version :: "worker \<Rightarrow> int option \<Rightarrow> exn + unit" where
  "check_version w expected =
     (case expected of None \<Rightarrow> Inr ()
      | Some n \<Rightarrow> if wo_version w \<noteq> n then Inl (OtherError ''WorkerVersionConflictError'') else Inr ())"

definition register_worker :: "(nat \<Rightarrow> datetime) \<Rightarrow> worker \<Rightarrow> worker wrop" where
  "register_worker C w =
     bnd (gets (\<lambda>r. wo_instance_id w \<in> set (dkeys (wr_workers r)))) (\<lambda>dup.
     bnd (require (\<not> dup) (OtherError ''DuplicateWorkerInstanceError'')) (\<lambda>_.
     bnd (upd (\<lambda>r. r\<lparr>wr_workers := dset (wo_instance_id w) w (wr_workers r)\<rparr>)) (\<lambda>_.
     bnd (record_worker C (wo_instance_id w) ''REGISTERED'') (\<lambda>_. ok w))))"

definition update_worker_status ::
    "(nat \<Rightarrow> datetime) \<Rightarrow> string \<Rightarrow> worker_status \<Rightarrow> int option \<Rightarrow> worker wrop" where
  "update_worker_status C i st expected =
     bnd (find_worker i) (\<lambda>w.
     bnd (of_sum (check_version w expected)) (\<lambda>_.
     bnd (put_worker i (\<lambda>w. w\<lparr>wo_status := st, wo_version := wo_version w + 1\<rparr>)) (\<lambda>_.
     bnd (record_worker C i (''STATUS:'' @ worker_status_value st)) (\<lambda>_.
     find_worker i))))"

definition heartbeat ::
    "(nat \<Rightarrow> datetime) \<Rightarrow> string \<Rightarrow> timedelta \<Rightarrow> int option \<Rightarrow> worker wrop" where
  "heartbeat C i timeout expected =
     bnd (find_worker i) (\<lambda>w.
     bnd (of_sum (check_version w expected)) (\<lambda>_.
     bnd (registry_now C) (\<lambda>t.
     bnd (put_worker i (\<lambda>w. w\<lparr>wo_last_heartbeat_at := t, wo_heartbeat_expires_at := t + timeout,
       wo_version := wo_version w + 1\<rparr>)) (\<lambda>_.
     bnd (record_worker C i ''HEARTBEAT'') (\<lambda>_.
     find_worker i)))))"

definition assign_operation :: "string \<Rightarrow> string \<Rightarrow> unit wrop" where
  "assign_operation i oid =
     bnd (find_worker i) (\<lambda>_.
     put_worker i (\<lambda>w. w\<lparr>wo_current_operation := Some oid, wo_version := wo_version w + 1\<rparr>))"

definition clear_operation :: "string \<Rightarrow> unit wrop" where
  "clear_operation i =
     bnd (find_worker i) (\<lambda>_.
     put_worker i (\<lambda>w. w\<lparr>wo_current_operation := None, wo_version := wo_version w + 1\<rparr>))"

definition request_worker_shutdown :: "(nat \<Rightarrow> datetime) \<Rightarrow> string \<Rightarrow> unit wrop" where
  "request_worker_shutdown C i =
     bnd (find_worker i) (\<lambda>_.
     bnd (put_worker i (\<lambda>w. w\<lparr>wo_shutdown_requested := True, wo_status := W_STOPPING, wo_version := wo_version w + 1\<rparr>)) (\<lambda>_.
     record_worker C i ''SHUTDOWN_REQUESTED''))"

definition mark_stopped :: "(nat \<Rightarrow> datetime) \<Rightarrow> string \<Rightarrow> unit wrop" where
  "mark_stopped C i =
     bnd (find_worker i) (\<lambda>_.
     bnd (registry_now C) (\<lambda>t.
     bnd (put_worker i (\<lambda>w. w\<lparr>wo_status := W_STOPPED, wo_stopped_at := Some t, wo_current_operation := None,
       wo_version := wo_version w + 1\<rparr>)) (\<lambda>_.
     record_worker C i ''STOPPED'')))"

definition mark_worker_failed :: "(nat \<Rightarrow> datetime) \<Rightarrow> string \<Rightarrow> worker wrop" where
  "mark_worker_failed C i = update_worker_status C i W_FAILED None"

definition goes_stale :: "datetime \<Rightarrow> worker \<Rightarrow> bool" where
  "goes_stale t w \<longleftrightarrow> wo_status w \<notin> {W_STOPPED, W_FAILED, W_STALE} \<and> wo_heartbeat_expires_at w \<le> t"

fun scan_workers :: "(nat \<Rightarrow> datetime) \<Rightarrow> datetime \<Rightarrow> string list \<Rightarrow> string list wrop" where
  "scan_workers C t [] = ok []"
| "scan_workers C t (i # is) =
     bnd (find_worker i) (\<lambda>w.
     if goes_stale t w
     then
       bnd (put_worker i (\<lambda>w. w\<lparr>wo_status := W_STALE, wo_version := wo_version w + 1\<rparr>)) (\<lambda>_.
       bnd (record_worker C i ''STALE'') (\<lambda>_.
       bnd (scan_workers C t is) (\<lambda>stale. ok (i # stale))))
     else scan_workers C t is)"

text \<open>\<open>scan_stale\<close>: the identifiers of the registrations it returns.\<close>

definition scan_stale :: "(nat \<Rightarrow> datetime) \<Rightarrow> string list wrop" where
  "scan_stale C =
     bnd (registry_now C) (\<lambda>t.
     bnd (gets (\<lambda>r. dkeys (wr_workers r))) (\<lambda>is. scan_workers C t is))"

definition worker_history :: "string \<Rightarrow> worker_entry list wrop" where
  "worker_history i =
     bnd (find_worker i) (\<lambda>_.
     gets (\<lambda>r. case map_of (wr_history r) i of None \<Rightarrow> [] | Some es \<Rightarrow> es))"

text \<open>\<open>HeartbeatService\<close>.\<close>

definition record_heartbeat :: "(nat \<Rightarrow> datetime) \<Rightarrow> timedelta \<Rightarrow> string \<Rightarrow> worker wrop" where
  "record_heartbeat C timeout i = heartbeat C i timeout None"

end
