(* ===== verification/Worker_Process.thy ===== *)
theory Worker_Process
  imports Worker_Registry Outbox_Worker
begin

section \<open>The worker process\<close>

text \<open>
  \<^verbatim>\<open>workers/process_worker.py\<close> (\<open>ProcessOutboxWorker\<close>, \<open>validate_child_result\<close>) with the flag of
  \<^verbatim>\<open>workers/shutdown.py\<close>, and \<^verbatim>\<open>workers/supervisor.py\<close> (\<open>WorkerSupervisor\<close>). The wrapped worker is any
  object with a \<open>run_one\<close>: here an operation \<open>R\<close> on the state the process shares with the rest of
  the system, which tells whether it found an operation. \<open>Z\<close> is the \<open>sleep\<close> argument; both may
  change the registry or set the shutdown flag, as other threads and signal handlers do while
  they run. \<open>C\<close> is the registry's clock, \<open>T\<close> the process's. The \<open>while\<close> loop has fuel: \<open>None\<close> is a run
  whose fuel ended.
\<close>

record 'w shared =
  sd_registry :: registry
  sd_world :: 'w
  sd_shutdown :: bool
  sd_ticks :: nat

record 'w process =
  pc_shared :: "'w shared"
  pc_processed :: int

type_synonym ('w, 'a) shop = "('w shared, exn, 'a) sx"
type_synonym ('w, 'a) pop = "('w process, exn, 'a) sx"

definition on_registry :: "'a wrop \<Rightarrow> ('w, 'a) shop" where
  "on_registry m = zoom sd_registry (\<lambda>r s. s\<lparr>sd_registry := r\<rparr>) m"

definition on_shared :: "('w, 'a) shop \<Rightarrow> ('w, 'a) pop" where
  "on_shared m = zoom pc_shared (\<lambda>s p. p\<lparr>pc_shared := s\<rparr>) m"

definition process_now :: "(nat \<Rightarrow> datetime) \<Rightarrow> ('w, datetime) shop" where
  "process_now T s = (Inr (T (sd_ticks s)), s\<lparr>sd_ticks := Suc (sd_ticks s)\<rparr>)"

definition request_shutdown :: "('w, unit) shop" where
  "request_shutdown = upd (\<lambda>s. s\<lparr>sd_shutdown := True\<rparr>)"

subsection \<open>start and the guard of results\<close>

definition instance_id :: "worker_configuration \<Rightarrow> string \<Rightarrow> string" where
  "instance_id cfg uuid = wc_worker_id_prefix cfg @ ''-'' @ uuid"

definition registration :: "worker_configuration \<Rightarrow> string \<Rightarrow> string \<Rightarrow> int \<Rightarrow> datetime \<Rightarrow> worker" where
  "registration cfg node uuid pid t =
     \<lparr>wo_worker_id = wc_worker_id_prefix cfg, wo_instance_id = instance_id cfg uuid, wo_process_id = pid,
      wo_node_reference = node, wo_runtime_id = wc_runtime_id cfg, wo_worker_type = ''OUTBOX'',
      wo_operation_types = wc_operation_types cfg, wo_provider_capabilities = wc_provider_ids cfg,
      wo_status = W_STARTING, wo_started_at = t, wo_registered_at = t, wo_last_heartbeat_at = t,
      wo_heartbeat_expires_at = t + wc_heartbeat_timeout cfg, wo_stopped_at = None,
      wo_current_operation = None, wo_version = 0, wo_build_reference = None, wo_correlation_id = None,
      wo_shutdown_requested = False\<rparr>"

text \<open>
  The worker's \<open>worker_id\<close> becomes the instance identifier and its \<open>result_guard\<close> the guarded one: the
  configuration and the guard of \<^verbatim>\<open>Outbox_Worker\<close>'s \<open>run_one\<close>, set by \<open>adopted\<close> and \<open>guarded\<close>.
\<close>

definition start_process ::
    "(nat \<Rightarrow> datetime) \<Rightarrow> (nat \<Rightarrow> datetime) \<Rightarrow> worker_configuration \<Rightarrow> string \<Rightarrow> string \<Rightarrow> int \<Rightarrow> ('w, string) shop" where
  "start_process C T cfg node uuid pid =
     bnd (process_now T) (\<lambda>t.
     bnd (of_sum (new_worker (registration cfg node uuid pid t))) (\<lambda>w.
     bnd (on_registry (register_worker C w)) (\<lambda>_.
     bnd (on_registry (update_worker_status C (wo_instance_id w) W_IDLE None)) (\<lambda>_.
     ok (wo_instance_id w)))))"

definition adopted :: "string \<Rightarrow> worker_config \<Rightarrow> worker_config" where
  "adopted i k = k\<lparr>wk_id := i\<rparr>"

definition guard_result :: "string \<Rightarrow> registry \<Rightarrow> datetime \<Rightarrow> outbox_claim \<Rightarrow> exn + unit" where
  "guard_result i reg t c =
     (case get_worker i reg of
        Inl e \<Rightarrow> Inl e
      | Inr w \<Rightarrow>
          if wo_status w \<in> {W_STALE, W_FAILED, W_STOPPED, W_UNHEALTHY} \<or> wo_heartbeat_expires_at w \<le> t
             \<or> c_owner_id c \<noteq> i
          then Inl (StaleWorkerResultError ''Worker result authority expired'') else Inr ())"

text \<open>The guard \<open>start\<close> installs, with the registry and the time it reads when it is called.\<close>

definition guarded ::
    "string \<Rightarrow> registry \<Rightarrow> datetime \<Rightarrow> (outbox_operation \<Rightarrow> outbox_claim \<Rightarrow> ('p, unit) wop) \<Rightarrow>
     outbox_operation \<Rightarrow> outbox_claim \<Rightarrow> ('p, unit) wop" where
  "guarded i reg t previous op c = bnd (previous op c) (\<lambda>_. of_sum (guard_result i reg t c))"

subsection \<open>run\<close>

text \<open>The condition of the \<open>while\<close> loop; the clock is read only where \<open>and\<close> reaches it.\<close>

definition goes_on :: "(nat \<Rightarrow> datetime) \<Rightarrow> worker_configuration \<Rightarrow> datetime \<Rightarrow> int \<Rightarrow> ('w, bool) pop" where
  "goes_on T cfg started idle =
     bnd (gets (\<lambda>p. sd_shutdown (pc_shared p))) (\<lambda>requested.
     if requested then ok False
     else
       bnd (gets pc_processed) (\<lambda>n.
       if n < wc_maximum_operations cfg
       then bnd (on_shared (process_now T)) (\<lambda>t.
         ok (t - started < wc_maximum_runtime cfg \<and> idle < wc_maximum_idle_cycles cfg))
       else ok False))"

fun process_loop ::
    "(nat \<Rightarrow> datetime) \<Rightarrow> (nat \<Rightarrow> datetime) \<Rightarrow> worker_configuration \<Rightarrow> string \<Rightarrow> ('w, bool) shop \<Rightarrow>
     ('w, unit) shop \<Rightarrow> bool \<Rightarrow> datetime \<Rightarrow> nat \<Rightarrow> int \<Rightarrow> ('w, unit option) pop" where
  "process_loop C T cfg i R Z one_shot started 0 idle = ok None"
| "process_loop C T cfg i R Z one_shot started (Suc n) idle =
     bnd (goes_on T cfg started idle) (\<lambda>go.
     if \<not> go then ok (Some ())
     else
       bnd (on_shared (on_registry (find_worker i))) (\<lambda>w.
       if wo_shutdown_requested w then ok (Some ())
       else
         bnd (on_shared (on_registry (heartbeat C i (wc_heartbeat_timeout cfg) None))) (\<lambda>_.
         bnd (on_shared (on_registry (update_worker_status C i W_CLAIMING None))) (\<lambda>_.
         bnd (on_shared R) (\<lambda>found.
         bnd (if found then upd (\<lambda>p. p\<lparr>pc_processed := pc_processed p + 1\<rparr>) else ok ()) (\<lambda>_.
         bnd (on_shared (on_registry (update_worker_status C i W_IDLE None))) (\<lambda>_.
         if one_shot then ok (Some ())
         else
           bnd (if wc_polling_interval cfg \<noteq> 0 then on_shared Z else ok ()) (\<lambda>_.
           process_loop C T cfg i R Z one_shot started n (if found then 0 else idle + 1)))))))))"

definition run_process ::
    "(nat \<Rightarrow> datetime) \<Rightarrow> (nat \<Rightarrow> datetime) \<Rightarrow> worker_configuration \<Rightarrow> string \<Rightarrow> ('w, bool) shop \<Rightarrow>
     ('w, unit) shop \<Rightarrow> bool \<Rightarrow> nat \<Rightarrow> ('w, int option) pop" where
  "run_process C T cfg i R Z one_shot n =
     bnd (on_shared (process_now T)) (\<lambda>started.
     catch
       (bnd (process_loop C T cfg i R Z one_shot started n 0) (\<lambda>r.
        case r of
          None \<Rightarrow> ok None
        | Some _ \<Rightarrow>
            bnd (on_shared (on_registry (mark_stopped C i))) (\<lambda>_.
            bnd (gets pc_processed) (\<lambda>k. ok (Some k)))))
       (\<lambda>e. bnd (on_shared (on_registry (mark_worker_failed C i))) (\<lambda>_. fail e)))"

subsection \<open>Results of a child process\<close>

text \<open>
  \<open>validate_child_result\<close>: Python's \<open>True\<close> and \<open>1.0\<close> equal 1, and a \<open>bool\<close> is an \<open>int\<close>.
\<close>

fun is_one :: "json \<Rightarrow> bool" where
  "is_one (JInt n) = (n = 1)"
| "is_one (JBool b) = b"
| "is_one (JFloat t) = (t = ''1.0'')"
| "is_one _ = False"

fun int_of :: "json \<Rightarrow> int option" where
  "int_of (JInt n) = Some n"
| "int_of (JBool b) = Some (if b then 1 else 0)"
| "int_of _ = None"

definition valid_child_result :: "json \<Rightarrow> bool" where
  "valid_child_result v =
     (case v of
        JObj d \<Rightarrow> set (dkeys d) = {''schema'', ''processed'', ''instance_id''}
          \<and> (case jget ''schema'' v of Some x \<Rightarrow> is_one x | None \<Rightarrow> False)
          \<and> (case jget ''processed'' v of
               Some x \<Rightarrow> (case int_of x of Some n \<Rightarrow> 0 \<le> n \<and> n \<le> 10000 | None \<Rightarrow> False)
             | None \<Rightarrow> False)
          \<and> (case jget ''instance_id'' v of
               Some (JStr i) \<Rightarrow> 1 \<le> length i \<and> length i \<le> 160
             | _ \<Rightarrow> False)
      | _ \<Rightarrow> False)"

definition validate_child_result :: "json \<Rightarrow> exn + json" where
  "validate_child_result v =
     (if valid_child_result v then Inr v else Inl (ValueError ''Invalid worker child result''))"

text \<open>The value \<open>process_entrypoint\<close> builds of a run.\<close>

definition child_result :: "int \<Rightarrow> string \<Rightarrow> json" where
  "child_result n i = JObj [(''schema'', JInt 1), (''processed'', JInt n), (''instance_id'', JStr i)]"

end
