(* ===== verification/Worker_Process_Safety.thy ===== *)
theory Worker_Process_Safety
  imports Worker_Process Outbox_Worker_Demo Partial_Correctness
begin

section \<open>What the worker registry and the worker process guarantee\<close>

text \<open>
  The registry is a \<open>versioned_store\<close>; the loop of the process ends and leaves its registration in a
  terminal status; a process whose authority has ended applies no result; what a run of a valid
  configuration reports is what the parent process accepts.
\<close>

subsection \<open>The registry\<close>

lemma post_find_worker [post_simps]:
  "post (find_worker i) r Q \<longleftrightarrow> (\<forall>w. map_of (wr_workers r) i = Some w \<longrightarrow> Q w r)"
  by (auto simp: post_def find_worker_def get_worker_def bnd_gets of_sum_def split: option.splits)

lemma exc_find_worker [exc_simps]:
  "exc (find_worker i) r E \<longleftrightarrow> (map_of (wr_workers r) i = None \<longrightarrow> E (OtherError ''WorkerNotFoundError'') r)"
  by (auto simp: exc_def find_worker_def get_worker_def bnd_gets of_sum_def split: option.splits)

lemma post_registry_now [post_simps]:
  "post (registry_now C) r Q \<longleftrightarrow> Q (C (wr_ticks r)) (r\<lparr>wr_ticks := Suc (wr_ticks r)\<rparr>)"
  by (simp add: post_def registry_now_def)

lemma exc_registry_now [exc_simps]: "exc (registry_now C) r E"
  by (simp add: exc_def registry_now_def)

lemmas registry_ops = put_worker_def record_worker_def update_worker_status_def heartbeat_def mark_stopped_def
  mark_worker_failed_def

lemma post_update_worker_status [post_rules]:
  "(\<And>w w' t. map_of (wr_workers r) i = Some w \<Longrightarrow> check_version w ex = Inr () \<Longrightarrow>
      w' = w\<lparr>wo_status := st, wo_version := wo_version w + 1\<rparr> \<Longrightarrow>
      wr_workers t = dset i w' (wr_workers r) \<Longrightarrow> Q w' t) \<Longrightarrow> post (update_worker_status C i st ex) r Q"
  by (auto simp: registry_ops post_simps)

lemma update_worker_status_raises:
  "exc (update_worker_status C i st ex) r (\<lambda>e t. t = r
     \<and> (map_of (wr_workers r) i = None \<or> (\<exists>w. map_of (wr_workers r) i = Some w \<and> check_version w ex = Inl e)))"
  by (cases "map_of (wr_workers r) i") (simp_all add: registry_ops post_simps exc_simps)

definition worker_version :: "registry \<Rightarrow> string \<Rightarrow> int option" where
  "worker_version r i = map_option wo_version (map_of (wr_workers r) i)"

definition save_status :: "(nat \<Rightarrow> datetime) \<Rightarrow> string \<times> worker_status \<Rightarrow> int \<Rightarrow> worker wrop" where
  "save_status C v n = update_worker_status C (fst v) (snd v) (Some n)"

interpretation registry: versioned_store worker_version "save_status C" fst
proof unfold_locales
  fix v n r x t
  assume run: "save_status C v n r = (Inr x, t)"
  have "post (save_status C v n) r (\<lambda>x t. worker_version r (fst v) = Some n
      \<and> worker_version t (fst v) = Some (n + 1) \<and> (\<forall>k. k \<noteq> fst v \<longrightarrow> worker_version t k = worker_version r k))"
    unfolding save_status_def
    by (rule post_update_worker_status) (auto simp: worker_version_def check_version_def split: if_splits)
  from postD[OF this run] show "worker_version r (fst v) = Some n
      \<and> worker_version t (fst v) = Some (n + 1) \<and> (\<forall>k. k \<noteq> fst v \<longrightarrow> worker_version t k = worker_version r k)" .
next
  fix v n r e t
  assume run: "save_status C v n r = (Inl e, t)"
  have "exc (save_status C v n) r (\<lambda>e t. worker_version t = worker_version r)"
    unfolding save_status_def by (rule exc_mono[OF update_worker_status_raises]) simp
  from excD[OF this run] show "worker_version t = worker_version r" .
qed

subsection \<open>The loop ends\<close>

lemma post_on_shared [post_simps]:
  "post (on_shared m) p Q \<longleftrightarrow> post m (pc_shared p) (\<lambda>x s. Q x (p\<lparr>pc_shared := s\<rparr>))"
  by (auto simp: post_def on_shared_def zoom_def split: prod.splits)

lemma exc_on_shared [exc_simps]:
  "exc (on_shared m) p E \<longleftrightarrow> exc m (pc_shared p) (\<lambda>e s. E e (p\<lparr>pc_shared := s\<rparr>))"
  by (auto simp: exc_def on_shared_def zoom_def split: prod.splits)

lemma post_on_registry [post_simps]:
  "post (on_registry m) s Q \<longleftrightarrow> post m (sd_registry s) (\<lambda>x r. Q x (s\<lparr>sd_registry := r\<rparr>))"
  by (auto simp: post_def on_registry_def zoom_def split: prod.splits)

lemma exc_on_registry [exc_simps]:
  "exc (on_registry m) s E \<longleftrightarrow> exc m (sd_registry s) (\<lambda>e r. E e (s\<lparr>sd_registry := r\<rparr>))"
  by (auto simp: exc_def on_registry_def zoom_def split: prod.splits)

lemma post_process_now [post_simps]:
  "post (process_now T) s Q \<longleftrightarrow> Q (T (sd_ticks s)) (s\<lparr>sd_ticks := Suc (sd_ticks s)\<rparr>)"
  by (simp add: post_def process_now_def)

lemma exc_process_now [exc_simps]: "exc (process_now T) s E"
  by (simp add: exc_def process_now_def)

text \<open>Whatever an operation on the shared state does, it leaves the counter of the process alone.\<close>

lemma post_shared: "(\<And>x s. Q x (p\<lparr>pc_shared := s\<rparr>)) \<Longrightarrow> post (on_shared m) p Q"
  unfolding post_on_shared by (simp add: post_def)

lemma post_after: "(\<And>x s. post (f x) (p\<lparr>pc_shared := s\<rparr>) Q) \<Longrightarrow> post (bnd (on_shared m) f) p Q"
  unfolding post_bnd by (rule post_shared)

lemma post_after_upd: "post (f ()) (g p) Q \<Longrightarrow> post (bnd (upd g) f) p Q"
  by (simp add: post_bnd post_pure)

lemma post_ifI: "(b \<Longrightarrow> post m s Q) \<Longrightarrow> (\<not> b \<Longrightarrow> post n s Q) \<Longrightarrow> post (if b then m else n) s Q"
  by simp

lemma post_goes_on:
  assumes "\<And>s. Q False (p\<lparr>pc_shared := s\<rparr>)"
    and "\<And>s. pc_processed p < wc_maximum_operations cfg \<Longrightarrow> idle < wc_maximum_idle_cycles cfg \<Longrightarrow> Q True (p\<lparr>pc_shared := s\<rparr>)"
  shows "post (goes_on T cfg started idle) p Q"
proof -
  have "Q False p" using assms(1)[of "pc_shared p"] by simp
  moreover have "Q (c \<and> idle < wc_maximum_idle_cycles cfg) (p\<lparr>pc_shared := s\<rparr>)"
    if "pc_processed p < wc_maximum_operations cfg" for c s
    using assms that by (cases "c \<and> idle < wc_maximum_idle_cycles cfg") auto
  ultimately show ?thesis unfolding goes_on_def by (simp add: post_simps)
qed

text \<open>Every cycle uses up one of the cycles that are left: an idle cycle one of the idle cycles in a row, a busy one
  an operation with all its idle cycles.\<close>

definition cycles_left :: "worker_configuration \<Rightarrow> 'w process \<Rightarrow> int \<Rightarrow> int" where
  "cycles_left cfg p idle = (wc_maximum_operations cfg - pc_processed p) * wc_maximum_idle_cycles cfg - idle"

lemma cycles_left_less:
  assumes "pc_processed p < wc_maximum_operations cfg" "0 \<le> idle" "idle < wc_maximum_idle_cycles cfg"
  shows "0 < cycles_left cfg p idle"
    and "cycles_left cfg p (idle + 1) < cycles_left cfg p idle"
    and "pc_processed q = pc_processed p + 1 \<Longrightarrow> cycles_left cfg q 0 < cycles_left cfg p idle"
proof -
  have "1 * wc_maximum_idle_cycles cfg \<le> (wc_maximum_operations cfg - pc_processed p) * wc_maximum_idle_cycles cfg"
    by (rule mult_right_mono) (use assms in auto)
  then show "0 < cycles_left cfg p idle" using assms(3) by (simp add: cycles_left_def)
  show "cycles_left cfg p (idle + 1) < cycles_left cfg p idle" by (simp add: cycles_left_def)
  show "cycles_left cfg q 0 < cycles_left cfg p idle" if "pc_processed q = pc_processed p + 1"
    using assms that by (simp add: cycles_left_def algebra_simps)
qed

lemma loop_ends:
  "0 \<le> idle \<Longrightarrow> nat (cycles_left cfg p idle) < n \<Longrightarrow>
   post (process_loop C T cfg i R Z one_shot started n idle) p (\<lambda>r q. r \<noteq> None
     \<and> pc_processed p \<le> pc_processed q \<and> pc_processed q \<le> max (pc_processed p) (wc_maximum_operations cfg)
     \<and> (one_shot \<longrightarrow> pc_processed q \<le> pc_processed p + 1))"
proof (induction n arbitrary: p idle)
  case 0
  then show ?case by simp
next
  case (Suc n)
  let ?Q = "\<lambda>p r q. r \<noteq> None
     \<and> pc_processed p \<le> pc_processed q \<and> pc_processed q \<le> max (pc_processed p) (wc_maximum_operations cfg)
     \<and> (one_shot \<longrightarrow> pc_processed q \<le> pc_processed p + 1)"
  have again: "post (process_loop C T cfg i R Z one_shot started n (if found then 0 else idle + 1))
       q (?Q p)"
    if go: "pc_processed p < wc_maximum_operations cfg" "idle < wc_maximum_idle_cycles cfg"
      and q: "pc_processed q = pc_processed p + (if found then 1 else 0)" and "\<not> one_shot" for found q
  proof -
    have "cycles_left cfg q (if found then 0 else idle + 1) < cycles_left cfg p idle"
      using cycles_left_less(2)[OF go(1) Suc.prems(1) go(2)] cycles_left_less(3)[OF go(1) Suc.prems(1) go(2), of q] q
      by (cases found) (simp_all add: cycles_left_def)
    then have "nat (cycles_left cfg q (if found then 0 else idle + 1)) < n"
      using cycles_left_less(1)[OF go(1) Suc.prems(1) go(2)] Suc.prems(2) by linarith
    from Suc.IH[OF _ this] Suc.prems(1) have "post (process_loop C T cfg i R Z one_shot started n (if found then 0 else idle + 1)) q (?Q q)"
      by simp
    then show ?thesis by (rule post_mono) (use go q \<open>\<not> one_shot\<close> in \<open>auto split: if_splits\<close>)
  qed
  show ?case
    unfolding process_loop.simps
    apply (subst post_bnd, rule post_goes_on)
     apply (simp add: post_pure)
    apply (simp only: not_True_eq_False if_False bnd_if bnd_ok)
    apply (intro post_after post_ifI post_after_upd)
    using again[of _ True] again[of _ False]
    apply (simp_all add: post_pure)
    done
qed

text \<open>The registration of a process that ended: stopped, or failed unless it is gone.\<close>

definition ended :: "string \<Rightarrow> worker_status \<Rightarrow> 'w process \<Rightarrow> bool" where
  "ended i st q \<longleftrightarrow> (\<exists>w. map_of (wr_workers (sd_registry (pc_shared q))) i = Some w \<and> wo_status w = st
     \<and> (st = W_STOPPED \<longrightarrow> wo_current_operation w = None))"

lemma mark_stopped_ended:
  "post (on_shared (on_registry (mark_stopped C i))) p (\<lambda>_ q. ended i W_STOPPED q \<and> pc_processed q = pc_processed p)"
  by (auto simp: mark_stopped_def registry_ops post_simps ended_def)

lemma mark_failed_ended:
  "post (on_shared (on_registry (mark_worker_failed C i))) p (\<lambda>_ q. ended i W_FAILED q)"
  "exc (on_shared (on_registry (mark_worker_failed C i))) p (\<lambda>_ q. map_of (wr_workers (sd_registry (pc_shared q))) i = None)"
  unfolding mark_worker_failed_def post_on_shared post_on_registry exc_on_shared exc_on_registry
   apply (rule post_update_worker_status, simp add: ended_def)
  apply (rule exc_mono[OF update_worker_status_raises], simp add: check_version_def)
  done

lemma run_post:
  "nat (cycles_left cfg p 0) < n \<Longrightarrow>
   post (run_process C T cfg i R Z one_shot n) p (\<lambda>r q. \<exists>k. r = Some k \<and> pc_processed q = k
     \<and> pc_processed p \<le> k \<and> k \<le> max (pc_processed p) (wc_maximum_operations cfg)
     \<and> (one_shot \<longrightarrow> k \<le> pc_processed p + 1) \<and> ended i W_STOPPED q)"
  unfolding run_process_def post_bnd post_on_shared post_process_now
  apply (rule post_catch)
   apply (intro never_rules)
  unfolding post_bnd
  apply (rule post_mono[OF loop_ends])
    apply (simp_all add: cycles_left_def post_option post_bnd post_pure)
  apply (intro allI impI post_mono[OF mark_stopped_ended])
  apply auto
  done

lemma exc_handler: "(\<And>e q. exc (h e) q E) \<Longrightarrow> exc (catch m h) s E"
  unfolding exc_catch by (simp add: exc_def)

lemma run_exc:
  "exc (run_process C T cfg i R Z one_shot n) p (\<lambda>_ q. ended i W_FAILED q
     \<or> map_of (wr_workers (sd_registry (pc_shared q))) i = None)"
proof -
  have "exc (bnd (on_shared (on_registry (mark_worker_failed C i))) (\<lambda>_. fail e)) q (\<lambda>_ q. ended i W_FAILED q
     \<or> map_of (wr_workers (sd_registry (pc_shared q))) i = None)" for e and q :: "'a process"
    unfolding exc_bnd exc_pure
    by (intro conjI exc_mono[OF mark_failed_ended(2)] post_mono[OF mark_failed_ended(1)]) auto
  note handler = this
  show ?thesis
    unfolding run_process_def exc_bnd exc_on_shared post_on_shared post_process_now
    by (intro conjI exc_process_now exc_handler handler)
qed

text \<open>C28: the loop of a worker process ends: with more fuel than operations left times idle cycles
  allowed, a run returns or raises, whatever the wrapped worker and the sleep do; the number it returns is at most
  the maximum of operations, and one more than before for a single shot; and the registration is then stopped and
  holds no operation, or, when the run raises, failed unless it was removed.\<close>

theorem worker_run_ends:
  assumes "nat ((wc_maximum_operations cfg - pc_processed p) * wc_maximum_idle_cycles cfg) < n"
  shows "case run_process C T cfg i R Z one_shot n p of
      (Inr None, q) \<Rightarrow> False
    | (Inr (Some k), q) \<Rightarrow> pc_processed q = k \<and> pc_processed p \<le> k
        \<and> k \<le> max (pc_processed p) (wc_maximum_operations cfg) \<and> (one_shot \<longrightarrow> k \<le> pc_processed p + 1)
        \<and> ended i W_STOPPED q
    | (Inl e, q) \<Rightarrow> ended i W_FAILED q \<or> map_of (wr_workers (sd_registry (pc_shared q))) i = None"
proof -
  have fuel: "nat (cycles_left cfg p 0) < n" using assms by (simp add: cycles_left_def)
  show ?thesis
    using run_post[OF fuel, of C T i R Z one_shot] run_exc[of C T cfg i R Z one_shot n p]
    by (auto simp: post_def exc_def split: prod.splits sum.splits option.splits)
qed

subsection \<open>What the parent process accepts\<close>

lemma first_error_ok: "first_error bs = Inr () \<longleftrightarrow> (\<forall>(b, e) \<in> set bs. b)"
  by (induction bs rule: first_error.induct) auto

lemma new_worker_ok: "new_worker w = Inr w' \<Longrightarrow> w' = w \<and> re_worker (wo_instance_id w)"
  unfolding new_worker_def validate_worker_def
  by (auto simp: first_error_ok simp del: first_error.simps split: sum.splits)

lemma start_process_identity:
  "post (start_process C T cfg node uuid pid) s (\<lambda>i _. re_worker i)"
  unfolding start_process_def post_bnd post_process_now post_of_sum post_on_registry post_pure
  by (intro allI impI postI) (auto dest!: new_worker_ok simp: post_def)

text \<open>C30: what a child process sends is what its parent accepts: when the configuration is valid and the worker
  starts under the instance identifier \<open>i\<close>, the result a run of it reports passes \<open>validate_child_result\<close>.\<close>

theorem reported_run_accepted:
  assumes "validate_configuration cfg = Inr ()"
    and "start_process C T cfg node uuid pid s = (Inr i, t)"
    and "nat (wc_maximum_operations cfg * wc_maximum_idle_cycles cfg) < n"
    and "run_process C T cfg i R Z one_shot n \<lparr>pc_shared = u, pc_processed = 0\<rparr> = (Inr (Some k), q)"
  shows "validate_child_result (child_result k i) = Inr (child_result k i)"
proof -
  have fuel: "nat (cycles_left cfg \<lparr>pc_shared = u, pc_processed = 0\<rparr> 0) < n"
    using assms(3) by (simp add: cycles_left_def)
  have mo: "1 \<le> wc_maximum_operations cfg" "wc_maximum_operations cfg \<le> 10000"
    using assms(1) unfolding validate_configuration_def first_error_ok by simp_all
  have "0 \<le> k" "k \<le> 10000" using postD[OF run_post[OF fuel] assms(4)] mo by auto
  moreover have "re_worker i" using postD[OF start_process_identity assms(2)] by simp
  then have "1 \<le> length i" "length i \<le> 160" by (auto simp: re_worker_def split: list.splits)
  ultimately show ?thesis by (auto simp: validate_child_result_def valid_child_result_def child_result_def)
qed

text \<open>C32: a configuration may name a prefix its worker can never register under: with a prefix of more than 95
  characters the instance identifier, a dash and 32 hexadecimal digits longer, exceeds the 128 characters a
  registration allows, and every start fails.\<close>

theorem long_prefix_never_starts:
  assumes "95 < length (wc_worker_id_prefix cfg)" and "length uuid = 32"
  shows "fst (start_process C T cfg node uuid pid s) = Inl (ValueError ''Invalid worker registration identity'')"
proof -
  have "\<not> re_worker (instance_id cfg uuid)"
    using assms by (cases "wc_worker_id_prefix cfg") (auto simp: re_worker_def instance_id_def)
  then show ?thesis
    by (simp add: start_process_def bnd_def of_sum_def new_worker_def validate_worker_def registration_def process_now_def)
qed

subsection \<open>A worker without authority\<close>

text \<open>The registration the guard reads is in a status that ends its authority, or its heartbeat has expired.\<close>

definition authority_ended :: "string \<Rightarrow> registry \<Rightarrow> datetime \<Rightarrow> bool" where
  "authority_ended i reg t \<longleftrightarrow> (\<forall>w. map_of (wr_workers reg) i = Some w \<longrightarrow>
     wo_status w \<in> {W_STALE, W_FAILED, W_STOPPED, W_UNHEALTHY} \<or> wo_heartbeat_expires_at w \<le> t)"

lemma never_guarded: "authority_ended i reg t \<Longrightarrow> never (guarded i reg t g op c)"
  unfolding guarded_def
  by (intro never_rules) (auto simp: authority_ended_def guard_result_def get_worker_def never_def of_sum_def split: option.splits)

lemma keeps_never_bnd: "never m \<Longrightarrow> keeps Q m \<Longrightarrow> keeps Q (bnd m f)"
  by (fastforce simp: never_def keeps_def bnd_def split: prod.splits sum.splits)

lemma results_elsewhere [keeps_intros]:
  "keeps (\<lambda>w. w_results w = x) (on_repo m)" "keeps (\<lambda>w. w_results w = x) (worker_now V)"
  "keeps (\<lambda>w. w_results w = x) (on_provider pid m2)"
  "keeps (\<lambda>w. w_results w = x) (zoom w_handlers (\<lambda>h w. w\<lparr>w_handlers := h\<rparr>) m1)"
  "keeps (\<lambda>w. w_results w = x) (upd (\<lambda>w. w\<lparr>w_dispatch_count := n w\<rparr>))"
  by (auto simp: keeps_def on_repo_def worker_now_def on_provider_def zoom_def upd_def split: prod.splits option.splits)

lemma results_handle_failure: "keeps (\<lambda>w. w_results w = x) (handle_failure E V cfg c e)"
  unfolding handle_failure_def Let_def by (intro keeps_intros)

lemma results_confirm:
  assumes "authority_ended i reg t" and "\<And>op c. keeps (\<lambda>w. w_results w = x) (g op c)"
  shows "keeps (\<lambda>w. w_results w = x) (confirm_result E W (guarded i reg t g) c op r)"
  unfolding confirm_result_def
  by (intro keeps_catch keeps_never_bnd never_guarded assms(1) results_elsewhere)
     (unfold guarded_def, intro keeps_intros assms(2))

lemma confirm_without_authority:
  assumes "authority_ended i reg t" and "confirm_result E W (guarded i reg t g) c op r w = (Inr op', w')"
  shows "o_status op' = RECONCILIATION_REQUIRED"
  using assms(2) never_guarded[OF assms(1), of g op c]
  unfolding confirm_result_def catch_def never_def
  by (auto simp: on_repo_run split: prod.splits sum.splits elim!: bnd_InrE dest!: mark_results)

lemma dispatch_without_authority:
  assumes "authority_ended i reg t" and "dispatch_claimed E W P (guarded i reg t g) c op w = (Inr op', w')"
  shows "o_status op' = RECONCILIATION_REQUIRED"
  using assms(2) unfolding dispatch_claimed_def by (elim bnd_InrE) (rule confirm_without_authority[OF assms(1)])


end
