(* ===== verification/Worker_Process_Demo.thy ===== *)
theory Worker_Process_Demo
  imports Worker_Process_Safety
begin

section \<open>Runs of a worker process\<close>

text \<open>
  A stale worker at its next cycle, and concrete runs on which the hypotheses of the properties
  hold: a configuration, a process that finds an operation and then nothing, and the outbox
  worker of \<^verbatim>\<open>Outbox_Worker_Demo\<close> under a guard whose registration has expired.
\<close>

subsection \<open>A stale worker takes its authority back\<close>

text \<open>The wrapped worker asks the guard and counts an operation when the guard lets it pass.\<close>

definition asks_guard :: "string \<Rightarrow> datetime \<Rightarrow> outbox_claim \<Rightarrow> ('w, bool) shop" where
  "asks_guard i t c = gets (\<lambda>s. guard_result i (sd_registry s) t c = Inr ())"

definition refreshed :: "(nat \<Rightarrow> datetime) \<Rightarrow> timedelta \<Rightarrow> registry \<Rightarrow> worker \<Rightarrow> worker" where
  "refreshed C timeout r w = w\<lparr>wo_last_heartbeat_at := C (wr_ticks r),
     wo_heartbeat_expires_at := C (wr_ticks r) + timeout, wo_version := wo_version w + 1\<rparr>"

lemma find_worker_run: "map_of (wr_workers r) i = Some w \<Longrightarrow> find_worker i r = (Inr w, r)"
  by (simp add: find_worker_def get_worker_def bnd_gets of_sum_def)

lemma record_worker_run:
  assumes "map_of (wr_workers r) i = Some w"
  shows "\<exists>t. record_worker C i a r = (Inr (), t) \<and> wr_workers t = wr_workers r"
  using assms by (simp add: record_worker_def bnd_Inr[OF find_worker_run] bnd_Inr[where m = "registry_now C"] registry_now_def upd_def)

lemma heartbeat_run:
  assumes "map_of (wr_workers r) i = Some w"
  shows "\<exists>t. heartbeat C i timeout None r = (Inr (refreshed C timeout r w), t)
    \<and> wr_workers t = dset i (refreshed C timeout r w) (wr_workers r)"
  using assms
  by (simp add: heartbeat_def put_worker_def record_worker_def bnd_def find_worker_def get_worker_def gets_def
      of_sum_def check_version_def registry_now_def upd_def refreshed_def)

lemma update_worker_status_run:
  assumes "map_of (wr_workers r) i = Some w"
  shows "\<exists>t. update_worker_status C i st None r = (Inr (w\<lparr>wo_status := st, wo_version := wo_version w + 1\<rparr>), t)
    \<and> wr_workers t = dset i (w\<lparr>wo_status := st, wo_version := wo_version w + 1\<rparr>) (wr_workers r)"
  using assms
  by (simp add: update_worker_status_def put_worker_def record_worker_def bnd_def find_worker_def get_worker_def
      gets_def of_sum_def check_version_def registry_now_def upd_def)

lemma mark_stopped_run:
  assumes "map_of (wr_workers r) i = Some w"
  shows "\<exists>t. mark_stopped C i r = (Inr (), t)"
  using assms
  by (simp add: mark_stopped_def put_worker_def record_worker_def bnd_def find_worker_def get_worker_def gets_def
      of_sum_def registry_now_def upd_def)

lemma on_both_run: "m (sd_registry (pc_shared p)) = (Inr x, t) \<Longrightarrow>
  bnd (on_shared (on_registry m)) f p = f x (p\<lparr>pc_shared := (pc_shared p)\<lparr>sd_registry := t\<rparr>\<rparr>)"
  by (simp add: bnd_def on_shared_def on_registry_def zoom_def)

lemma goes_on_run:
  assumes "\<not> sd_shutdown (pc_shared p)" "pc_processed p < wc_maximum_operations cfg" "idle < wc_maximum_idle_cycles cfg"
    and "T (sd_ticks (pc_shared p)) - started < wc_maximum_runtime cfg"
  shows "bnd (goes_on T cfg started idle) f p
    = f True (p\<lparr>pc_shared := (pc_shared p)\<lparr>sd_ticks := Suc (sd_ticks (pc_shared p))\<rparr>\<rparr>)"
  using assms by (simp add: goes_on_def bnd_def gets_def on_shared_def zoom_def process_now_def ok_def)

lemma asks_guard_run: "guard_result i (sd_registry (pc_shared p)) t c = Inr () \<Longrightarrow> bnd (on_shared (asks_guard i t c)) f p = f True p"
  by (simp add: asks_guard_def bnd_def gets_def on_shared_def zoom_def)

text \<open>C31: being marked stale does not end a worker's authority: in its next cycle the process renews the heartbeat
  and sets its status itself before it looks for work, so that the guard lets the results of that
  cycle pass.\<close>

theorem stale_worker_resumes:
  assumes "map_of (wr_workers (sd_registry s)) i = Some w" and "wo_status w = W_STALE"
    and "\<not> wo_shutdown_requested w" and "\<not> sd_shutdown s"
    and "0 < wc_maximum_operations cfg" and "0 < wc_maximum_idle_cycles cfg"
    and "T (Suc (sd_ticks s)) - T (sd_ticks s) < wc_maximum_runtime cfg"
    and "c_owner_id c = i" and "t < C (wr_ticks (sd_registry s)) + wc_heartbeat_timeout cfg"
  shows "fst (run_process C T cfg i (asks_guard i t c) Z True (Suc n) \<lparr>pc_shared = s, pc_processed = 0\<rparr>) = Inr (Some 1)"
proof -
  let ?s = "s\<lparr>sd_ticks := sd_ticks s + 2\<rparr>"
  obtain r1 where h: "heartbeat C i (wc_heartbeat_timeout cfg) None (sd_registry s)
      = (Inr (refreshed C (wc_heartbeat_timeout cfg) (sd_registry s) w), r1)"
    and r1: "map_of (wr_workers r1) i = Some (refreshed C (wc_heartbeat_timeout cfg) (sd_registry s) w)"
    using heartbeat_run[OF assms(1), of C "wc_heartbeat_timeout cfg"] by auto
  obtain w2 r2 where c: "update_worker_status C i W_CLAIMING None r1 = (Inr w2, r2)"
    and r2: "map_of (wr_workers r2) i = Some w2" "wo_status w2 = W_CLAIMING"
      "wo_heartbeat_expires_at w2 = C (wr_ticks (sd_registry s)) + wc_heartbeat_timeout cfg"
    using update_worker_status_run[OF r1, of C W_CLAIMING] by (auto simp: refreshed_def)
  obtain w3 r3 where d: "update_worker_status C i W_IDLE None r2 = (Inr w3, r3)"
    and r3: "map_of (wr_workers r3) i = Some w3"
    using update_worker_status_run[OF r2(1), of C W_IDLE] by auto
  obtain r4 where m: "mark_stopped C i r3 = (Inr (), r4)" using mark_stopped_run[OF r3] by blast
  have guard: "guard_result i r2 t c = Inr ()"
    using r2 assms(8,9) by (simp add: guard_result_def get_worker_def)
  have loop: "process_loop C T cfg i (asks_guard i t c) Z True (T (sd_ticks s)) (Suc n) 0
      \<lparr>pc_shared = s\<lparr>sd_ticks := Suc (sd_ticks s)\<rparr>, pc_processed = 0\<rparr>
      = (Inr (Some ()), \<lparr>pc_shared = ?s\<lparr>sd_registry := r3\<rparr>, pc_processed = 1\<rparr>)"
    using assms(3-7) guard
    by (simp add: goes_on_run on_both_run[OF find_worker_run] on_both_run[where m = "heartbeat _ _ _ _"] h
        on_both_run[where m = "update_worker_status _ _ _ _"] c d asks_guard_run bnd_upd assms(1) ok_def)
  show ?thesis
    unfolding run_process_def
    by (simp add: bnd_def on_shared_def zoom_def process_now_def catch_def loop m on_registry_def gets_def ok_def del: process_loop.simps)
qed

subsection \<open>Concrete runs\<close>

definition demo_limits :: worker_configuration where
  "demo_limits = \<lparr>wc_runtime_id = ''runtime'', wc_worker_id_prefix = ''worker'', wc_persistence_reference = ''sqlite-ref'',
     wc_operation_types = [''PUSH''], wc_provider_ids = [''gh''], wc_polling_interval = 0,
     wc_heartbeat_interval = seconds 5, wc_heartbeat_timeout = seconds 15, wc_claim_duration = seconds 30,
     wc_claim_renewal_interval = seconds 10, wc_maximum_operations = 3, wc_maximum_runtime = seconds 10,
     wc_shutdown_grace = seconds 10, wc_maximum_idle_cycles = 2, wc_log_level = ''INFO''\<rparr>"

definition demo_uuid :: string where
  "demo_uuid = replicate 32 (CHR ''a'')"

text \<open>A wrapped worker that answers with the values of a list, then finds nothing.\<close>

definition answers :: "(bool list, bool) shop" where
  "answers s = (case sd_world s of [] \<Rightarrow> (Inr False, s) | b # bs \<Rightarrow> (Inr b, s\<lparr>sd_world := bs\<rparr>))"

definition demo_shared :: "bool list \<Rightarrow> bool list shared" where
  "demo_shared bs = snd (start_process (\<lambda>_. 0) (\<lambda>_. 0) demo_limits ''local-node'' demo_uuid 7
     \<lparr>sd_registry = empty_registry, sd_world = bs, sd_shutdown = False, sd_ticks = 0\<rparr>)"

definition demo_instance :: string where
  "demo_instance = ''worker-'' @ demo_uuid"

definition demo_process_run :: "bool list \<Rightarrow> (exn + int option) \<times> bool list process" where
  "demo_process_run bs = run_process (\<lambda>_. 0) (\<lambda>_. 0) demo_limits demo_instance answers (ok ()) False 7
     \<lparr>pc_shared = demo_shared bs, pc_processed = 0\<rparr>"

lemma demo_limits_valid: "validate_configuration demo_limits = Inr ()"
  by code_simp

lemma demo_started: "fst (start_process (\<lambda>_. 0) (\<lambda>_. 0) demo_limits ''local-node'' demo_uuid 7
     \<lparr>sd_registry = empty_registry, sd_world = [True], sd_shutdown = False, sd_ticks = 0\<rparr>) = Inr demo_instance"
  by code_simp

lemma demo_processed: "fst (demo_process_run [True, False, True]) = Inr (Some 2)"
  by code_simp

lemma worker_run_ends_witness:
  "\<exists>q. demo_process_run [True, False, True] = (Inr (Some 2), q) \<and> ended demo_instance W_STOPPED q"
proof -
  obtain r q where run: "demo_process_run [True, False, True] = (r, q)" by fastforce
  have "nat ((wc_maximum_operations demo_limits - pc_processed \<lparr>pc_shared = demo_shared [True, False, True], pc_processed = 0\<rparr>)
      * wc_maximum_idle_cycles demo_limits) < 7"
    by (simp add: demo_limits_def)
  from worker_run_ends[OF this, where C = "\<lambda>_. 0" and T = "\<lambda>_. 0" and i = demo_instance and R = answers
      and Z = "ok ()" and one_shot = False] show ?thesis
    using demo_processed run by (simp add: demo_process_run_def)
qed

lemma reported_run_accepted_witness:
  "validate_child_result (child_result 2 demo_instance) = Inr (child_result 2 demo_instance)"
proof -
  obtain q where run: "demo_process_run [True, False, True] = (Inr (Some 2), q)"
    using demo_processed by (metis prod.collapse)
  obtain t where start: "start_process (\<lambda>_. 0) (\<lambda>_. 0) demo_limits ''local-node'' demo_uuid 7
     \<lparr>sd_registry = empty_registry, sd_world = [True], sd_shutdown = False, sd_ticks = 0\<rparr> = (Inr demo_instance, t)"
    using demo_started by (metis prod.collapse)
  show ?thesis
    by (rule reported_run_accepted[OF demo_limits_valid start _ run[unfolded demo_process_run_def]])
       (simp add: demo_limits_def)
qed

definition long_prefix :: worker_configuration where
  "long_prefix = demo_limits\<lparr>wc_worker_id_prefix := replicate 96 (CHR ''w'')\<rparr>"

lemma long_prefix_never_starts_witness:
  "validate_configuration long_prefix = Inr ()
    \<and> fst (start_process (\<lambda>_. 0) (\<lambda>_. 0) long_prefix ''local-node'' demo_uuid 7
     \<lparr>sd_registry = empty_registry, sd_world = (), sd_shutdown = False, sd_ticks = 0\<rparr>)
      = Inl (ValueError ''Invalid worker registration identity'')"
proof
  show "validate_configuration long_prefix = Inr ()" by code_simp
qed (rule long_prefix_never_starts, simp_all add: long_prefix_def demo_uuid_def)

definition demo_stale :: "bool list shared" where
  "demo_stale = (demo_shared [])\<lparr>sd_registry :=
     snd (update_worker_status (\<lambda>_. 0) demo_instance W_STALE None (sd_registry (demo_shared [])))\<rparr>"

lemma demo_stale_status: "\<exists>w. map_of (wr_workers (sd_registry demo_stale)) demo_instance = Some w
    \<and> wo_status w = W_STALE \<and> \<not> wo_shutdown_requested w"
proof -
  have "case map_of (wr_workers (sd_registry demo_stale)) demo_instance of None \<Rightarrow> False
      | Some w \<Rightarrow> wo_status w = W_STALE \<and> \<not> wo_shutdown_requested w" by code_simp
  then show ?thesis by (simp split: option.splits)
qed

lemma stale_worker_resumes_witness:
  "fst (run_process (\<lambda>_. 0) (\<lambda>_. 0) demo_limits demo_instance
     (asks_guard demo_instance 0 (demo_claim\<lparr>c_owner_id := demo_instance\<rparr>)) (ok ()) True (Suc 0)
     \<lparr>pc_shared = demo_stale, pc_processed = 0\<rparr>) = Inr (Some 1)"
proof -
  obtain w where w: "map_of (wr_workers (sd_registry demo_stale)) demo_instance = Some w"
    "wo_status w = W_STALE" "\<not> wo_shutdown_requested w" using demo_stale_status by blast
  have "\<not> sd_shutdown demo_stale" by code_simp
  from stale_worker_resumes[OF w this] show ?thesis by (simp add: demo_limits_def seconds_def)
qed

text \<open>The registration of the process above at the end of its heartbeat.\<close>

lemma demo_expired: "authority_ended demo_instance (sd_registry (demo_shared [])) (seconds 15)"
proof -
  have "case map_of (wr_workers (sd_registry (demo_shared []))) demo_instance of None \<Rightarrow> False
      | Some w \<Rightarrow> wo_heartbeat_expires_at w \<le> seconds 15" by code_simp
  then show ?thesis by (simp add: authority_ended_def split: option.splits)
qed


end
