(* ===== verification/Worker_Supervisor.thy ===== *)
theory Worker_Supervisor
  imports Outbox_Service Outbox_Worker
begin

section \<open>Supervision of outbox workers\<close>

text \<open>
  \<^verbatim>\<open>workers/supervisor.py\<close> (\<open>WorkerSupervisor\<close>). The supervisor keeps the identifiers of its
  workers; \<open>R i\<close> is the \<open>run_one\<close> of the worker \<open>i\<close> and \<open>Q i\<close> its \<open>stop\<close>, operations on the world
  the workers share. \<open>N\<close> is the wall clock.
\<close>

record 'w supervision =
  sv_world :: 'w
  sv_workers :: "string list"
  sv_last_success :: "datetime option"
  sv_stopped :: bool
  sv_ticks :: nat

type_synonym ('w, 'a) svop = "('w supervision, exn, 'a) sx"

definition on_world :: "('w, exn, 'a) sx \<Rightarrow> ('w, 'a) svop" where
  "on_world m = zoom sv_world (\<lambda>w s. s\<lparr>sv_world := w\<rparr>) m"

definition supervise_worker :: "string \<Rightarrow> ('w, unit) svop" where
  "supervise_worker i =
     bnd (gets (\<lambda>s. i \<in> set (sv_workers s))) (\<lambda>known.
     bnd (require (\<not> known) (ValueError ''Duplicate worker'')) (\<lambda>_.
     upd (\<lambda>s. s\<lparr>sv_workers := sv_workers s @ [i]\<rparr>)))"

definition supervisor_now :: "(nat \<Rightarrow> datetime) \<Rightarrow> ('w, datetime) svop" where
  "supervisor_now N s = (Inr (N (sv_ticks s)), s\<lparr>sv_ticks := Suc (sv_ticks s)\<rparr>)"

fun run_each :: "(string \<Rightarrow> ('w, exn, 'a) sx) \<Rightarrow> string list \<Rightarrow> ('w, 'a list) svop" where
  "run_each R [] = ok []"
| "run_each R (i # is) = bnd (on_world (R i)) (\<lambda>x. bnd (run_each R is) (\<lambda>xs. ok (x # xs)))"

definition run_one_cycle :: "(nat \<Rightarrow> datetime) \<Rightarrow> (string \<Rightarrow> ('w, exn, 'a) sx) \<Rightarrow> ('w, 'a list) svop" where
  "run_one_cycle N R =
     bnd (gets sv_stopped) (\<lambda>stopped.
     if stopped then ok []
     else
       bnd (gets sv_workers) (\<lambda>is.
       bnd (run_each R is) (\<lambda>xs.
       bnd (supervisor_now N) (\<lambda>t.
       bnd (upd (\<lambda>s. s\<lparr>sv_last_success := Some t\<rparr>)) (\<lambda>_. ok xs)))))"

fun run_cycles :: "(nat \<Rightarrow> datetime) \<Rightarrow> (string \<Rightarrow> ('w, exn, 'a) sx) \<Rightarrow> nat \<Rightarrow> ('w, 'a list list) svop" where
  "run_cycles N R 0 = ok []"
| "run_cycles N R (Suc n) = bnd (run_one_cycle N R) (\<lambda>xs. bnd (run_cycles N R n) (\<lambda>xss. ok (xs # xss)))"

definition stop_supervision :: "(string \<Rightarrow> ('w, exn, unit) sx) \<Rightarrow> ('w, unit) svop" where
  "stop_supervision Q =
     bnd (upd (\<lambda>s. s\<lparr>sv_stopped := True\<rparr>)) (\<lambda>_.
     bnd (gets sv_workers) (\<lambda>is.
     bnd (run_each Q is) (\<lambda>_. ok ())))"

record worker_health =
  wh_healthy :: bool
  wh_last_successful_cycle :: "datetime option"
  wh_active_claims :: nat
  wh_backlog :: nat
  wh_dead_letters :: nat
  wh_reconciliation_required :: nat

definition supervisor_health :: "env \<Rightarrow> ('p world, worker_health) svop" where
  "supervisor_health E =
     bnd (gets (\<lambda>s. list_operations None (w_repo (sv_world s)))) (\<lambda>values.
     bnd (gets id) (\<lambda>s.
     bnd (on_world (on_repo (list_pending_operations E))) (\<lambda>pending.
     ok \<lparr>wh_healthy = (\<not> sv_stopped s), wh_last_successful_cycle = sv_last_success s,
         wh_active_claims = length (filter (\<lambda>op. o_status op \<in> {CLAIMED, DISPATCHING}) values),
         wh_backlog = length pending,
         wh_dead_letters = count_status DEAD_LETTER values,
         wh_reconciliation_required = count_status RECONCILIATION_REQUIRED values\<rparr>)))"

end
