(* ===== verification/Spec2Isabelle.thy ===== *)
theory Spec2Isabelle
  imports
    Outbox_Worker_Demo
    Outbox_Service
    Provider_Health_Safety
    Durable_Store_Demo
    Delivery_Demo
    External_Task_Cases
    Worker_Process_Demo
    Worker_Supervisor
begin

text \<open>
  The AI software company runtime.

  The runtime (\<^verbatim>\<open>src/runtime\<close>) takes a delivery request through planning, assignment, execution, review and
  release; it keeps its history as events, hands external effects to an outbox with workers, watches the
  health of its providers, and stores its checkpoints in a relational database. This development models
  that core. It is shallow: a method is a function from a state to a result or an
  exception, together with the state it leaves, on returning and on raising paths (\<^verbatim>\<open>Prelude\<close>). A dict is an
  association list in insertion order, a timestamp an integer of microseconds, a string a list of
  characters below 256. Clocks, random tokens, SHA-256 and providers are parameters.

  Parts, theories and sources.

  \<^item> Outbox, \<^verbatim>\<open>outbox/\<close>, \<^verbatim>\<open>operations/\<close>: \<^verbatim>\<open>Payload\<close>, \<^verbatim>\<open>Outbox_Models\<close> (\<^verbatim>\<open>models.py\<close>), \<^verbatim>\<open>Outbox_Repository\<close>
    (\<^verbatim>\<open>repository.py\<close>, every method), \<^verbatim>\<open>Operations\<close> (handlers, registries, idempotency, application of results),
    \<^verbatim>\<open>Outbox_Worker\<close> (\<^verbatim>\<open>worker.py\<close>, \<^verbatim>\<open>retry.py\<close>, \<^verbatim>\<open>reconciliation.py\<close>), \<^verbatim>\<open>Outbox_Service\<close> (\<^verbatim>\<open>service.py\<close>,
    \<^verbatim>\<open>dead_letter.py\<close>, \<^verbatim>\<open>metrics.py\<close>). \<^verbatim>\<open>Outbox_Spec\<close> is the abstract outbox, \<^verbatim>\<open>Outbox_Refinement\<close> the
    proof that every method is a sequence of its steps; \<^verbatim>\<open>Outbox_Safety\<close>, \<^verbatim>\<open>Result_Application\<close>,
    \<^verbatim>\<open>Outbox_Worker_Safety\<close> and \<^verbatim>\<open>Outbox_Worker_Demo\<close> hold the properties and their instances.
  \<^item> Provider health, \<^verbatim>\<open>providers/health/\<close>: \<^verbatim>\<open>Provider_Health\<close> and \<^verbatim>\<open>Provider_Health_Safety\<close> (circuit
    breaker, versioned repository, routing, probes, operator controls).
  \<^item> Relational store, \<^verbatim>\<open>persistence/database/\<close>: \<^verbatim>\<open>Durable_Store\<close>, \<^verbatim>\<open>Durable_Store_Safety\<close>,
    \<^verbatim>\<open>Durable_Store_Demo\<close> (leases, event batches, checkpoint commits).
  \<^item> Events, \<^verbatim>\<open>events/\<close>: \<^verbatim>\<open>Events\<close>, \<^verbatim>\<open>Events_Safety\<close>.
  \<^item> The kernel, \<^verbatim>\<open>models/\<close>, \<^verbatim>\<open>agents/\<close>, \<^verbatim>\<open>transactions/\<close>, \<^verbatim>\<open>engine/\<close>, \<^verbatim>\<open>orchestration/\<close>, \<^verbatim>\<open>execution/\<close>,
    \<^verbatim>\<open>workflows/\<close>: \<^verbatim>\<open>Kernel_Models\<close> (dataclasses, enums, transition tables), \<^verbatim>\<open>Kernel\<close> (transactions, engine, agent
    registry, orchestrator), \<^verbatim>\<open>Execution\<close> (executors, executions, recovery), \<^verbatim>\<open>Workflows\<close> (the delivery
    workflow service). The services share one object graph, which is one record, \<open>kernel\<close>.
  \<^item> The delivery machine: \<^verbatim>\<open>Delivery\<close> is an abstract system whose steps move a workflow together with its
    work item, its assignment and its executions. \<^verbatim>\<open>Partial_Correctness\<close>, \<^verbatim>\<open>Kernel_Views\<close>,
    \<^verbatim>\<open>Kernel_Specs\<close>, \<^verbatim>\<open>Orchestrator_Specs\<close>, \<^verbatim>\<open>Execution_Specs\<close> and \<^verbatim>\<open>Workflow_Specs\<close> prove what every
    operation leaves of the view of a kernel; \<^verbatim>\<open>Delivery_Service\<close> concludes that every call of the workflow
    service, returning or raising, is at most one step of the machine, and transfers its invariants.
  \<^item> Progress: \<^verbatim>\<open>Kernel_Invariant\<close> shows that no commit of a transaction fails; \<^verbatim>\<open>Delivery_Progress\<close>,
    \<^verbatim>\<open>Execution_Progress\<close> and \<^verbatim>\<open>Assignment_Progress\<close> show that the calls that are due do return, from a
    submitted request to its release; \<^verbatim>\<open>Delivery_Demo\<close> is one such run.

  Interfaces are locales, interpreted on the definitions of the code: \<open>fenced\<close> (\<^verbatim>\<open>Fencing\<close>: outbox claims,
  database leases), \<open>versioned_store\<close> (\<^verbatim>\<open>Versioned\<close>: provider health), \<open>status_policy\<close> (\<^verbatim>\<open>Status_Policy\<close>: every
  enum with a table of transitions), and the contract of a dispatch provider (\<^verbatim>\<open>Result_Application\<close>).

  Bounds and fuel. Loops of the source are bounded by their data and are structural recursions; no
  definition takes fuel.

  Not modelled: the web and command line front ends, the managed product, workforce and customer packages (document
  models over files and external tools), process and network adapters (Git, GitHub, Codex, PostgreSQL
  connections, browsers), and code that only formats. The manifest lists each with its reason.
\<close>

end
